theory Spec2Isabelle
  imports Main "HOL-Library.Word"
begin

section \<open>Errors\<close>

text \<open>
  The sources build errors in three ways: \<^verbatim>\<open>trace.Errorf(msg)\<close>, a plain error that
  carries only a message; \<^verbatim>\<open>teleport.BadParameter(name, msg)\<close>, the typed bad-parameter
  error; and errors handed up by a callee outside the sources shown (the bolt backend,
  the CA service, the operating system, the SSH and JSON parsers), kept opaque as
  \<open>Underlying\<close> with their message.  A Go \<^verbatim>\<open>error\<close> value is an \<open>error option\<close>, with
  \<open>None\<close> for \<^verbatim>\<open>nil\<close>.

  \<^verbatim>\<open>trace.Wrap\<close> belongs to a library that is not among the sources.  It is a parameter
  \<open>wrap :: error option \<Rightarrow> error option\<close> of every function that calls it, so that each
  result records which value was handed to it.
\<close>

datatype error =
    Errorf string
  | BadParameter string string
  | Underlying string

type_synonym wrapper = "error option \<Rightarrow> error option"

type_synonym bytes = "8 word list"

section \<open>Package defaults: durations\<close>

text \<open>
  Go's \<^verbatim>\<open>time.Duration\<close> is a count of nanoseconds in an \<^verbatim>\<open>int64\<close>.  The constants
  below are compile-time constants far below \<open>2^63\<close>, so they are modelled as
  unbounded integers.  The unit constants are those of Go's \<^verbatim>\<open>time\<close> package.
\<close>

type_synonym Duration = int

definition Nanosecond :: Duration where
  "Nanosecond = 1"

definition Microsecond :: Duration where
  "Microsecond = 1000 * Nanosecond"

definition Millisecond :: Duration where
  "Millisecond = 1000 * Microsecond"

definition Second :: Duration where
  "Second = 1000 * Millisecond"

definition Minute :: Duration where
  "Minute = 60 * Second"

definition Hour :: Duration where
  "Hour = 60 * Minute"

text \<open>\<^verbatim>\<open>MinCertDuration = time.Minute\<close>: minimum validity of an issued certificate.\<close>

definition MinCertDuration :: Duration where
  "MinCertDuration = Minute"

text \<open>\<^verbatim>\<open>MaxCertDuration = 30 * time.Hour\<close>: maximum validity of an issued certificate.\<close>

definition MaxCertDuration :: Duration where
  "MaxCertDuration = 30 * Hour"

text \<open>\<^verbatim>\<open>CertDuration = 12 * time.Hour\<close>: the default certificate duration.\<close>

definition CertDuration :: Duration where
  "CertDuration = 12 * Hour"

section \<open>Package defaults: ports, files and limits\<close>

definition HTTPListenPort :: nat where
  "HTTPListenPort = 3080"

definition SSHServerListenPort :: nat where
  "SSHServerListenPort = 3022"

definition SSHProxyListenPort :: nat where
  "SSHProxyListenPort = 3023"

definition SSHProxyTunnelListenPort :: nat where
  "SSHProxyTunnelListenPort = 3024"

definition AuthListenPort :: nat where
  "AuthListenPort = 3025"

definition BackendType :: string where
  "BackendType = ''bolt''"

definition EventsBoltFile :: string where
  "EventsBoltFile = ''events.db''"

definition KeysBoltFile :: string where
  "KeysBoltFile = ''keys.db''"

definition RecordsBoltFile :: string where
  "RecordsBoltFile = ''records.db''"

definition BindIP :: string where
  "BindIP = ''0.0.0.0''"

definition DefaultShell :: string where
  "DefaultShell = ''/bin/bash''"

definition LimiterMaxConnections :: int where
  "LimiterMaxConnections = 1000"

definition LimiterMaxConcurrentUsers :: int where
  "LimiterMaxConcurrentUsers = 250"

definition DataDir_default :: string where
  "DataDir_default = ''/var/lib/teleport''"

text \<open>
  Modelled from the spec: the constants \<^verbatim>\<open>teleport.BoltBackendType\<close> and
  \<^verbatim>\<open>teleport.ETCDBackendType\<close> are declared in a package that is not among the sources; the
  spec names the two backend types \<^verbatim>\<open>bolt\<close> and \<^verbatim>\<open>etcd\<close>.
\<close>

definition BoltBackendType :: string where
  "BoltBackendType = ''bolt''"

definition ETCDBackendType :: string where
  "ETCDBackendType = ''etcd''"

text \<open>\<^verbatim>\<open>io.Writer\<close> values the sources assign to the console and to the logger.\<close>

datatype Writer = NoWriter | Stdout | Stderr | Discard | LogFile string

section \<open>File configuration: data model\<close>

text \<open>
  Modelled from the spec: the YAML file configuration \<^verbatim>\<open>config.FileConfig\<close> is declared in
  a package that is not among the sources.  The spec lists what the operator file
  selects (roles, addresses, storage backend with its parameters, limiters, labels and
  command labels); the records below hold exactly the fields that \<^verbatim>\<open>applyFileConfig\<close>
  reads, under the names it reads them by.  \<^verbatim>\<open>Disabled()\<close> is a method of each service
  section and is held as a boolean.
\<close>

record FileLog =
  Output :: string
  Severity :: string

record FileStorage =
  Type :: string
  DirName :: string
  Peers :: "string list"
  Prefix :: string

record FileRate =
  Period :: Duration
  Average :: int
  Burst :: int

record FileLimits =
  MaxConnections :: int
  MaxUsers :: int
  Rates :: "FileRate list"

record FileAuth =
  Disabled :: bool
  ListenAddress :: string
  DomainName :: string

record FileCommandLabel =
  Name :: string
  Command :: "string list"
  Period :: Duration

record FileSSH =
  Disabled :: bool
  ListenAddress :: string
  Labels :: "(string \<rightharpoonup> string) option"
  Commands :: "FileCommandLabel list option"

record FileProxy =
  Disabled :: bool
  ListenAddress :: string
  WebAddr :: string
  KeyFile :: string
  CertFile :: string

record FileConfig =
  NodeName :: string
  AdvertiseIP :: "bytes option"
  AuthServers :: "string list"
  AuthToken :: string
  Storage :: FileStorage
  Logger :: FileLog
  Limits :: FileLimits
  Auth :: FileAuth
  SSH :: FileSSH
  Proxy :: FileProxy

text \<open>The settings of the process-wide logger that \<^verbatim>\<open>applyFileConfig\<close> changes.\<close>

datatype Level = InfoLevel | ErrorLevel | DebugLevel | WarnLevel

record LogState =
  Out :: Writer
  Lvl :: Level

section \<open>Service configuration: data model\<close>

text \<open>
  Modelled from the spec: \<^verbatim>\<open>utils.NetAddr\<close> is declared in a package that is not among
  the sources; the sources read its field \<^verbatim>\<open>Addr\<close> (\<^verbatim>\<open>replaceHost\<close>) and obtain its values
  from \<^verbatim>\<open>utils.ParseAddr\<close> and \<^verbatim>\<open>utils.ParseHostPortAddr\<close>, which are parameters below.
  The spec describes addresses as a host and a port on a transport.
\<close>

record NetAddr =
  AddrNetwork :: string
  Addr :: string

definition NetAddr_zero :: NetAddr where
  "NetAddr_zero = \<lparr>AddrNetwork = [], Addr = []\<rparr>"

text \<open>
  Modelled from the spec: \<^verbatim>\<open>limiter.Rate\<close> and \<^verbatim>\<open>limiter.LimiterConfig\<close> are declared in a
  package that is not among the sources; these are the fields the sources assign
  (\<^verbatim>\<open>ConfigureLimiter\<close>, \<^verbatim>\<open>applyFileConfig\<close>).  \<^verbatim>\<open>LimiterConfig\<close> is a struct held by value
  in each service section.
\<close>

record Rate =
  Period :: Duration
  Average :: int
  Burst :: int

record LimiterConfig =
  Rates :: "Rate list"
  MaxConnections :: int
  MaxNumberOfUsers :: int

definition LimiterConfig_zero :: LimiterConfig where
  "LimiterConfig_zero = \<lparr>Rates = [], MaxConnections = 0, MaxNumberOfUsers = 0\<rparr>"

text \<open>
  Modelled from the spec: \<^verbatim>\<open>services.CommandLabel\<close> is declared in a package that is not
  among the sources; these are the fields the sources assign (\<^verbatim>\<open>isCmdLabelSpec\<close>,
  \<^verbatim>\<open>applyFileConfig\<close>).
\<close>

record CommandLabel =
  Period :: Duration
  Command :: "string list"
  Result :: string

record CertificateAuthority =
  Type :: string
  ID :: string
  DomainName :: string
  PublicKey :: string

record LocalCertificateAuthority = CertificateAuthority +
  PrivateKey :: string

definition LocalCertificateAuthority_zero :: LocalCertificateAuthority where
  "LocalCertificateAuthority_zero =
     \<lparr>Type = [], ID = [], DomainName = [], PublicKey = [], PrivateKey = []\<rparr>"

record KeysBackend =
  Type :: string
  Params :: string
  EncryptionKeys :: "string list"

record EventsBackend =
  Type :: string
  Params :: string

record RecordsBackend =
  Type :: string
  Params :: string

text \<open>
  A Go map that may be \<^verbatim>\<open>nil\<close> is an optional partial function; a Go slice or \<^verbatim>\<open>net.IP\<close>
  whose \<^verbatim>\<open>nil\<close>-ness the sources test is an optional list.
\<close>

record ProxyConfig =
  Enabled :: bool
  Token :: string
  ReverseTunnelListenAddr :: NetAddr
  WebAddr :: NetAddr
  SSHAddr :: NetAddr
  AssetsDir :: string
  TLSKey :: string
  TLSCert :: string
  Limiter :: LimiterConfig

record AuthConfig =
  Enabled :: bool
  SSHAddr :: NetAddr
  Token :: string
  SecretKey :: string
  AllowedTokens :: "(string \<rightharpoonup> string) option"
  TrustedAuthorities :: "CertificateAuthority list"
  DomainName :: string
  UserCA :: LocalCertificateAuthority
  HostCA :: LocalCertificateAuthority
  KeysBackend :: KeysBackend
  EventsBackend :: EventsBackend
  RecordsBackend :: RecordsBackend
  Limiter :: LimiterConfig

record SSHConfig =
  Enabled :: bool
  Token :: string
  Addr :: NetAddr
  Shell :: string
  Limiter :: LimiterConfig
  Labels :: "(string \<rightharpoonup> string) option"
  CmdLabels :: "(string \<rightharpoonup> CommandLabel) option"

record ReverseTunnelConfig =
  Enabled :: bool
  Token :: string
  DialAddr :: NetAddr
  Limiter :: LimiterConfig

record Config =
  DataDir :: string
  Hostname :: string
  AuthServers :: "NetAddr list"
  AdvertiseIP :: "bytes option"
  SSH :: SSHConfig
  Auth :: AuthConfig
  ReverseTunnel :: ReverseTunnelConfig
  Proxy :: ProxyConfig
  HostUUID :: string
  Console :: Writer

text \<open>The zero value \<^verbatim>\<open>Config{}\<close>.\<close>

definition Config_zero :: Config where
  "Config_zero =
     \<lparr>DataDir = [], Hostname = [], AuthServers = [], AdvertiseIP = None,
      SSH = \<lparr>SSHConfig.Enabled = False, Token = [], Addr = NetAddr_zero, Shell = [],
             Limiter = LimiterConfig_zero, Labels = None, CmdLabels = None\<rparr>,
      Auth = \<lparr>AuthConfig.Enabled = False, SSHAddr = NetAddr_zero, Token = [], SecretKey = [],
              AllowedTokens = None, TrustedAuthorities = [], DomainName = [],
              UserCA = LocalCertificateAuthority_zero, HostCA = LocalCertificateAuthority_zero,
              KeysBackend = \<lparr>KeysBackend.Type = [], Params = [], EncryptionKeys = []\<rparr>,
              EventsBackend = \<lparr>EventsBackend.Type = [], Params = []\<rparr>,
              RecordsBackend = \<lparr>RecordsBackend.Type = [], Params = []\<rparr>,
              Limiter = LimiterConfig_zero\<rparr>,
      ReverseTunnel = \<lparr>ReverseTunnelConfig.Enabled = False, Token = [], DialAddr = NetAddr_zero,
                       Limiter = LimiterConfig_zero\<rparr>,
      Proxy = \<lparr>ProxyConfig.Enabled = False, Token = [], ReverseTunnelListenAddr = NetAddr_zero,
               WebAddr = NetAddr_zero, SSHAddr = NetAddr_zero, AssetsDir = [], TLSKey = [],
               TLSCert = [], Limiter = LimiterConfig_zero\<rparr>,
      HostUUID = [], Console = NoWriter\<rparr>"

section \<open>Service configuration: operations\<close>

text \<open>
  \<^verbatim>\<open>ApplyToken\<close> assigns the token to the SSH, proxy and auth sections, but only when the
  token is not the empty string; it returns whether it did.  The method mutates its
  receiver, so the model returns the configuration together with the boolean.
\<close>

definition ApplyToken :: "Config \<Rightarrow> string \<Rightarrow> Config \<times> bool" where
  "ApplyToken cfg token =
     (if token \<noteq> [] then
        (cfg\<lparr>SSH := (SSH cfg)\<lparr>SSHConfig.Token := token\<rparr>,
             Proxy := (Proxy cfg)\<lparr>ProxyConfig.Token := token\<rparr>,
             Auth := (Auth cfg)\<lparr>AuthConfig.Token := token\<rparr>\<rparr>, True)
      else (cfg, False))"

text \<open>
  What the operations take from the operating system and from packages that are not
  among the sources: the result of \<^verbatim>\<open>os.Hostname()\<close>, the address parsers of package
  \<^verbatim>\<open>utils\<close>, \<^verbatim>\<open>filepath.Join\<close> on two elements, the file system tests \<^verbatim>\<open>fileExists\<close> and
  \<^verbatim>\<open>os.Create\<close>, the JSON encoding of the etcd parameters, and the three \<^verbatim>\<open>net.IP\<close>
  predicates and the printer used by \<^verbatim>\<open>validateAdvertiseIP\<close>.
\<close>

record Env =
  os_Hostname :: "error + string"
  ParseAddr :: "string \<Rightarrow> error + NetAddr"
  ParseHostPortAddr :: "string \<Rightarrow> nat \<Rightarrow> error + NetAddr"
  filepath_Join :: "string \<Rightarrow> string \<Rightarrow> string"
  fileExists :: "string \<Rightarrow> bool"
  os_Create :: "string \<Rightarrow> error option"
  json_Marshal_etcd :: "string list \<Rightarrow> string \<Rightarrow> error + string"
  IsLoopback :: "bytes \<Rightarrow> bool"
  IsUnspecified :: "bytes \<Rightarrow> bool"
  IsMulticast :: "bytes \<Rightarrow> bool"
  IP_String :: "bytes \<Rightarrow> string"

text \<open>The decimal digits of a number, as \<^verbatim>\<open>%d\<close> prints them.\<close>

fun itoa :: "nat \<Rightarrow> string" where
  "itoa n = (if n < 10 then [''0123456789'' ! n]
             else itoa (n div 10) @ [''0123456789'' ! (n mod 10)])"

declare itoa.simps [simp del]

text \<open>\<^verbatim>\<open>ConfigureLimiter\<close> assigns the default limits through a pointer to the limiter.\<close>

definition ConfigureLimiter :: "LimiterConfig \<Rightarrow> LimiterConfig" where
  "ConfigureLimiter lc =
     lc\<lparr>MaxConnections := LimiterMaxConnections,
        MaxNumberOfUsers := LimiterMaxConcurrentUsers\<rparr>"

text \<open>
  \<^verbatim>\<open>makeAddr\<close> prints \<^verbatim>\<open>tcp://host:port\<close> and parses it; it panics when the parser
  fails, which is the value \<open>None\<close>.
\<close>

definition makeAddr :: "Env \<Rightarrow> string \<Rightarrow> nat \<Rightarrow> NetAddr option" where
  "makeAddr env host port =
     (let addrSpec = ''tcp://'' @ host @ '':'' @ itoa port
      in case ParseAddr env addrSpec of
           Inl err \<Rightarrow> None
         | Inr retval \<Rightarrow> Some retval)"

definition AuthListenAddr :: "Env \<Rightarrow> NetAddr option" where
  "AuthListenAddr env = makeAddr env BindIP AuthListenPort"

definition AuthConnectAddr :: "Env \<Rightarrow> NetAddr option" where
  "AuthConnectAddr env = makeAddr env ''127.0.0.1'' AuthListenPort"

definition ProxyListenAddr :: "Env \<Rightarrow> NetAddr option" where
  "ProxyListenAddr env = makeAddr env BindIP SSHProxyListenPort"

definition ProxyWebListenAddr :: "Env \<Rightarrow> NetAddr option" where
  "ProxyWebListenAddr env = makeAddr env BindIP HTTPListenPort"

definition SSHServerListenAddr :: "Env \<Rightarrow> NetAddr option" where
  "SSHServerListenAddr env = makeAddr env BindIP SSHServerListenPort"

definition ReverseTunnellListenAddr :: "Env \<Rightarrow> NetAddr option" where
  "ReverseTunnellListenAddr env = makeAddr env BindIP SSHProxyTunnelListenPort"

definition ReverseTunnellConnectAddr :: "Env \<Rightarrow> NetAddr option" where
  "ReverseTunnellConnectAddr env = makeAddr env ''127.0.0.1'' SSHProxyTunnelListenPort"

text \<open>\<^verbatim>\<open>boltParams\<close> prints the JSON object that names the database file.\<close>

definition boltParams :: "Env \<Rightarrow> string \<Rightarrow> string \<Rightarrow> string" where
  "boltParams env storagePath dbFile =
     ''{'' @ [CHR 0x22] @ ''path'' @ [CHR 0x22] @ '': '' @ [CHR 0x22]
       @ filepath_Join env storagePath dbFile @ [CHR 0x22] @ ''}''"

definition etcdParams :: "wrapper \<Rightarrow> Env \<Rightarrow> string list \<Rightarrow> string \<Rightarrow> string \<times> error option" where
  "etcdParams wrap env peers key =
     (case json_Marshal_etcd env peers key of
        Inl err \<Rightarrow> ([], wrap (Some err))
      | Inr out \<Rightarrow> (out, None))"

definition ConfigureBolt :: "Env \<Rightarrow> Config \<Rightarrow> string \<Rightarrow> Config" where
  "ConfigureBolt env cfg dataDir =
     (let a = Auth cfg;
          a = (if EventsBackend.Type (EventsBackend a) = BoltBackendType
               then a\<lparr>EventsBackend := (EventsBackend a)
                        \<lparr>EventsBackend.Params := boltParams env dataDir EventsBoltFile\<rparr>\<rparr>
               else a);
          a = (if KeysBackend.Type (KeysBackend a) = BoltBackendType
               then a\<lparr>KeysBackend := (KeysBackend a)
                        \<lparr>KeysBackend.Params := boltParams env dataDir KeysBoltFile\<rparr>\<rparr>
               else a);
          a = (if RecordsBackend.Type (RecordsBackend a) = BoltBackendType
               then a\<lparr>RecordsBackend := (RecordsBackend a)
                        \<lparr>RecordsBackend.Params := boltParams env dataDir RecordsBoltFile\<rparr>\<rparr>
               else a)
      in cfg\<lparr>Auth := a\<rparr>)"

definition ConfigureETCD ::
  "wrapper \<Rightarrow> Env \<Rightarrow> Config \<Rightarrow> string \<Rightarrow> string list \<Rightarrow> string \<Rightarrow> Config \<times> error option" where
  "ConfigureETCD wrap env cfg dataDir peers key =
     (case etcdParams wrap env peers key of
        (params, Some err) \<Rightarrow> (cfg, wrap (Some err))
      | (params, None) \<Rightarrow>
          (let a = Auth cfg;
               a = a\<lparr>KeysBackend := (KeysBackend a)
                       \<lparr>KeysBackend.Type := ETCDBackendType, KeysBackend.Params := params\<rparr>\<rparr>;
               a = a\<lparr>EventsBackend := (EventsBackend a)
                       \<lparr>EventsBackend.Type := BoltBackendType,
                        EventsBackend.Params := boltParams env dataDir EventsBoltFile\<rparr>\<rparr>;
               a = a\<lparr>RecordsBackend := (RecordsBackend a)
                       \<lparr>RecordsBackend.Type := BoltBackendType,
                        RecordsBackend.Params := boltParams env dataDir RecordsBoltFile\<rparr>\<rparr>
           in (cfg\<lparr>Auth := a\<rparr>, None)))"

text \<open>
  \<^verbatim>\<open>ApplyDefaults\<close> fills an existing configuration.  Each default address comes from
  \<open>makeAddr\<close>; a panic there ends the program, so the result is \<open>None\<close> in that case.
  A failure of \<^verbatim>\<open>os.Hostname()\<close> is logged and the name \<^verbatim>\<open>localhost\<close> is used.
\<close>

definition ApplyDefaults_auth :: "Env \<Rightarrow> NetAddr \<Rightarrow> AuthConfig \<Rightarrow> AuthConfig" where
  "ApplyDefaults_auth env authAddr a =
     a\<lparr>AuthConfig.Enabled := True,
       AuthConfig.SSHAddr := authAddr,
       EventsBackend := (EventsBackend a)
         \<lparr>EventsBackend.Type := BackendType,
          EventsBackend.Params := boltParams env DataDir_default EventsBoltFile\<rparr>,
       KeysBackend := (KeysBackend a)
         \<lparr>KeysBackend.Type := BackendType,
          KeysBackend.Params := boltParams env DataDir_default KeysBoltFile\<rparr>,
       RecordsBackend := (RecordsBackend a)
         \<lparr>RecordsBackend.Type := BackendType,
          RecordsBackend.Params := boltParams env DataDir_default RecordsBoltFile\<rparr>,
       AuthConfig.Limiter := ConfigureLimiter (AuthConfig.Limiter a)\<rparr>"

definition ApplyDefaults_proxy :: "NetAddr \<Rightarrow> NetAddr \<Rightarrow> NetAddr \<Rightarrow> ProxyConfig \<Rightarrow> ProxyConfig" where
  "ApplyDefaults_proxy sshAddr webAddr tunnelAddr p =
     p\<lparr>ProxyConfig.Enabled := True,
       AssetsDir := DataDir_default,
       ProxyConfig.SSHAddr := sshAddr,
       WebAddr := webAddr,
       ReverseTunnelListenAddr := tunnelAddr,
       ProxyConfig.Limiter := ConfigureLimiter (ProxyConfig.Limiter p)\<rparr>"

definition ApplyDefaults_tunnel :: "NetAddr \<Rightarrow> ReverseTunnelConfig \<Rightarrow> ReverseTunnelConfig" where
  "ApplyDefaults_tunnel dialAddr r =
     r\<lparr>ReverseTunnelConfig.Enabled := False,
       DialAddr := dialAddr,
       ReverseTunnelConfig.Limiter := ConfigureLimiter (ReverseTunnelConfig.Limiter r)\<rparr>"

definition ApplyDefaults_ssh :: "NetAddr \<Rightarrow> SSHConfig \<Rightarrow> SSHConfig" where
  "ApplyDefaults_ssh addr s =
     s\<lparr>SSHConfig.Enabled := True,
       Addr := addr,
       Shell := DefaultShell,
       SSHConfig.Limiter := ConfigureLimiter (SSHConfig.Limiter s)\<rparr>"

definition ApplyDefaults :: "Env \<Rightarrow> Config \<Rightarrow> Config option" where
  "ApplyDefaults env cfg =
     (let hostname = (case os_Hostname env of Inl err \<Rightarrow> ''localhost'' | Inr h \<Rightarrow> h)
      in case AuthListenAddr env of None \<Rightarrow> None | Some authAddr \<Rightarrow>
         case ProxyListenAddr env of None \<Rightarrow> None | Some proxyAddr \<Rightarrow>
         case ProxyWebListenAddr env of None \<Rightarrow> None | Some webAddr \<Rightarrow>
         case ReverseTunnellConnectAddr env of None \<Rightarrow> None | Some dialAddr \<Rightarrow>
         case ReverseTunnellListenAddr env of None \<Rightarrow> None | Some tunnelAddr \<Rightarrow>
         case SSHServerListenAddr env of None \<Rightarrow> None | Some sshAddr \<Rightarrow>
           (let cfg = cfg\<lparr>Auth := ApplyDefaults_auth env authAddr (Auth cfg)\<rparr>;
                cfg = cfg\<lparr>Proxy := ApplyDefaults_proxy proxyAddr webAddr tunnelAddr (Proxy cfg),
                          ReverseTunnel := ApplyDefaults_tunnel dialAddr (ReverseTunnel cfg)\<rparr>;
                cfg = cfg\<lparr>SSH := ApplyDefaults_ssh sshAddr (SSH cfg)\<rparr>;
                cfg = cfg\<lparr>Hostname := hostname, DataDir := DataDir_default\<rparr>;
                cfg = (if AuthConfig.Enabled (Auth cfg)
                       then cfg\<lparr>AuthServers := [AuthConfig.SSHAddr (Auth cfg)]\<rparr> else cfg)
            in Some (cfg\<lparr>Console := Stdout\<rparr>)))"

text \<open>\<^verbatim>\<open>MakeDefaultConfig\<close> applies the defaults to the zero configuration.\<close>

definition MakeDefaultConfig :: "Env \<Rightarrow> Config option" where
  "MakeDefaultConfig env = ApplyDefaults env Config_zero"

text \<open>
  A plain environment, used to run the operations on concrete inputs: the host is named
  \<^verbatim>\<open>example\<close>, an address \<^verbatim>\<open>tcp://host:port\<close> parses to the network \<^verbatim>\<open>tcp\<close> and the address
  \<^verbatim>\<open>host:port\<close> and any other text is refused, two path elements are joined with a
  slash, no file exists, no file can be created, and no IP address is special.
\<close>

definition ParseAddr_tcp :: "string \<Rightarrow> error + NetAddr" where
  "ParseAddr_tcp a =
     (if take 6 a = ''tcp://'' \<and> drop 6 a \<noteq> []
      then Inr \<lparr>AddrNetwork = ''tcp'', Addr = drop 6 a\<rparr>
      else Inl (Underlying ''unsupported address''))"

definition ParseHostPortAddr_plain :: "string \<Rightarrow> nat \<Rightarrow> error + NetAddr" where
  "ParseHostPortAddr_plain hostport defaultPort =
     (if hostport = [] then Inl (Underlying ''missing address'')
      else if CHR '':'' \<in> set hostport then Inr \<lparr>AddrNetwork = ''tcp'', Addr = hostport\<rparr>
      else Inr \<lparr>AddrNetwork = ''tcp'', Addr = hostport @ '':'' @ itoa defaultPort\<rparr>)"

definition Join_plain :: "string \<Rightarrow> string \<Rightarrow> string" where
  "Join_plain dir file = dir @ ''/'' @ file"

definition Env_plain :: Env where
  "Env_plain =
     \<lparr>os_Hostname = Inr ''example'',
      ParseAddr = ParseAddr_tcp,
      ParseHostPortAddr = ParseHostPortAddr_plain,
      filepath_Join = Join_plain,
      fileExists = (\<lambda>fp. False),
      os_Create = (\<lambda>fp. Some (Underlying ''permission denied'')),
      json_Marshal_etcd = (\<lambda>peers key. Inl (Underlying ''unsupported value'')),
      IsLoopback = (\<lambda>ip. False),
      IsUnspecified = (\<lambda>ip. False),
      IsMulticast = (\<lambda>ip. False),
      IP_String = (\<lambda>ip. ''?'')\<rparr>"

section \<open>Applying the file configuration\<close>

text \<open>
  \<^verbatim>\<open>applyFileConfig\<close> mutates the configuration behind a pointer and may return early with
  an error, leaving the changes made so far in place.  The model therefore returns the
  configuration and the logger settings together with the error, and runs the sections
  of the function in the source's order, each one only if none before it returned.
\<close>

definition andThen :: "'s \<times> error option \<Rightarrow> ('s \<Rightarrow> 's \<times> error option) \<Rightarrow> 's \<times> error option" where
  "andThen r f = (case snd r of None \<Rightarrow> f (fst r) | Some err \<Rightarrow> r)"

text \<open>\<^verbatim>\<open>applyString\<close> overwrites the target unless the source string is empty.\<close>

definition applyString :: "string \<Rightarrow> string \<Rightarrow> string \<times> bool" where
  "applyString src target = (if src \<noteq> [] then (src, True) else (target, False))"

definition validateAdvertiseIP :: "Env \<Rightarrow> bytes \<Rightarrow> error option" where
  "validateAdvertiseIP env advertiseIP =
     (if IsLoopback env advertiseIP \<or> IsUnspecified env advertiseIP \<or> IsMulticast env advertiseIP
      then Some (BadParameter ''advertise-ip''
                   (''unreachable advertise IP: '' @ IP_String env advertiseIP))
      else None)"

text \<open>Lower-casing of an ASCII string, as \<^verbatim>\<open>strings.ToLower\<close> does it on ASCII letters.\<close>

definition ToLower_char :: "char \<Rightarrow> char" where
  "ToLower_char c =
     (if (65::nat) \<le> of_char c \<and> of_char c \<le> (90::nat) then char_of (of_char c + (32::nat)) else c)"

definition ToLower :: "string \<Rightarrow> string" where
  "ToLower s = map ToLower_char s"

definition apply_roles :: "FileConfig \<Rightarrow> Config \<Rightarrow> Config" where
  "apply_roles fc cfg =
     (let cfg = (if FileAuth.Disabled (FileConfig.Auth fc)
                 then cfg\<lparr>Config.Auth := (Config.Auth cfg)\<lparr>AuthConfig.Enabled := False\<rparr>\<rparr>
                 else cfg);
          cfg = (if FileSSH.Disabled (FileConfig.SSH fc)
                 then cfg\<lparr>Config.SSH := (Config.SSH cfg)\<lparr>SSHConfig.Enabled := False\<rparr>\<rparr>
                 else cfg);
          cfg = (if FileProxy.Disabled (FileConfig.Proxy fc)
                 then cfg\<lparr>Config.Proxy := (Config.Proxy cfg)\<lparr>ProxyConfig.Enabled := False\<rparr>\<rparr>
                 else cfg)
      in cfg\<lparr>Hostname := fst (applyString (NodeName fc) (Hostname cfg))\<rparr>)"

definition apply_advertise_ip :: "wrapper \<Rightarrow> Env \<Rightarrow> FileConfig \<Rightarrow> Config \<Rightarrow> Config \<times> error option" where
  "apply_advertise_ip wrap env fc cfg =
     (case FileConfig.AdvertiseIP fc of
        None \<Rightarrow> (cfg, None)
      | Some advertiseIP \<Rightarrow>
          (case validateAdvertiseIP env advertiseIP of
             Some err \<Rightarrow> (cfg, wrap (Some err))
           | None \<Rightarrow> (cfg\<lparr>Config.AdvertiseIP := Some advertiseIP\<rparr>, None)))"

fun parse_auth_servers :: "Env \<Rightarrow> string list \<Rightarrow> Config \<Rightarrow> Config \<times> error option" where
  "parse_auth_servers env [] cfg = (cfg, None)"
| "parse_auth_servers env (as # rest) cfg =
     (case ParseAddr env as of
        Inl err \<Rightarrow>
          (cfg, Some (Errorf (''cannot parse auth server address: '' @ [CHR 0x27] @ as @ [CHR 0x27])))
      | Inr addr \<Rightarrow>
          parse_auth_servers env rest (cfg\<lparr>Config.AuthServers := Config.AuthServers cfg @ [addr]\<rparr>))"

definition apply_auth_servers :: "Env \<Rightarrow> FileConfig \<Rightarrow> Config \<Rightarrow> Config \<times> error option" where
  "apply_auth_servers env fc cfg =
     (if length (FileConfig.AuthServers fc) > 0
      then parse_auth_servers env (FileConfig.AuthServers fc) (cfg\<lparr>Config.AuthServers := []\<rparr>)
      else (cfg, None))"

definition apply_token_and_domain :: "FileConfig \<Rightarrow> Config \<Rightarrow> Config" where
  "apply_token_and_domain fc cfg =
     (let cfg = fst (ApplyToken cfg (AuthToken fc))
      in cfg\<lparr>Config.Auth := (Config.Auth cfg)
               \<lparr>AuthConfig.DomainName := FileAuth.DomainName (FileConfig.Auth fc)\<rparr>\<rparr>)"

definition apply_storage :: "wrapper \<Rightarrow> Env \<Rightarrow> FileConfig \<Rightarrow> Config \<Rightarrow> Config \<times> error option" where
  "apply_storage wrap env fc cfg =
     (let storage = Storage fc in
      if FileStorage.Type storage = BoltBackendType
        then (ConfigureBolt env cfg (DirName storage), None)
      else if FileStorage.Type storage = ETCDBackendType
        then (case ConfigureETCD wrap env cfg (DirName storage) (Peers storage) (Prefix storage) of
                (cfg', Some err) \<Rightarrow> (cfg', wrap (Some err))
              | (cfg', None) \<Rightarrow> (cfg', None))
      else if FileStorage.Type storage = []
        then (cfg, None)
      else (cfg, wrap (Some (BadParameter ''storage''
              (''unsupported storage type: '' @ [CHR 0x27] @ FileStorage.Type storage @ [CHR 0x27])))))"

text \<open>
  The logger sections.  \<^verbatim>\<open>trace.Wrap(err, "failed to create the log file")\<close> is the
  wrapper applied to the error; its message argument is not kept.
\<close>

definition apply_logger_output :: "wrapper \<Rightarrow> Env \<Rightarrow> FileConfig \<Rightarrow> LogState \<Rightarrow> LogState \<times> error option" where
  "apply_logger_output wrap env fc lg =
     (let output = Output (Logger fc) in
      if output = [] then (lg, None)
      else if output \<in> {''stderr'', ''error'', ''2''} then (lg\<lparr>Out := Stderr\<rparr>, None)
      else if output \<in> {''stdout'', ''out'', ''1''} then (lg\<lparr>Out := Stdout\<rparr>, None)
      else (case os_Create env output of
              Some err \<Rightarrow> (lg, wrap (Some err))
            | None \<Rightarrow> (lg\<lparr>Out := LogFile output\<rparr>, None)))"

definition apply_logger_severity :: "FileConfig \<Rightarrow> LogState \<Rightarrow> LogState \<times> error option" where
  "apply_logger_severity fc lg =
     (let severity = ToLower (Severity (Logger fc)) in
      if severity = [] then (lg, None)
      else if severity = ''info'' then (lg\<lparr>Lvl := InfoLevel\<rparr>, None)
      else if severity \<in> {''err'', ''error''} then (lg\<lparr>Lvl := ErrorLevel\<rparr>, None)
      else if severity = ''debug'' then (lg\<lparr>Lvl := DebugLevel\<rparr>, None)
      else if severity \<in> {''warn'', ''warning''} then (lg\<lparr>Lvl := WarnLevel\<rparr>, None)
      else (lg, Some (Errorf (''unsupported logger severity: '' @ [CHR 0x27]
                                @ Severity (Logger fc) @ [CHR 0x27]))))"

text \<open>
  The connection-throttling section.  The source builds a slice of three
  \<^verbatim>\<open>limiter.LimiterConfig\<close> struct values, copied out of the configuration, and ranges over
  it by value: the loop variable \<^verbatim>\<open>l\<close> is a copy of the slice element, and the loop body
  assigns to the fields of \<^verbatim>\<open>l\<close>.  \<open>limiter_loop_body\<close> is one run of the body on the loop
  variable.  \<open>limiter_loop\<close> returns the values the loop variable ends each iteration
  with, next to the configuration as the loop leaves it: nothing stores the loop
  variable back into the slice or into the configuration.
\<close>

definition limiter_loop_body :: "FileLimits \<Rightarrow> LimiterConfig \<Rightarrow> LimiterConfig" where
  "limiter_loop_body limits l =
     (let l = (if FileLimits.MaxConnections limits > 0
               then l\<lparr>LimiterConfig.MaxConnections := FileLimits.MaxConnections limits\<rparr> else l);
          l = (if MaxUsers limits > 0
               then l\<lparr>MaxNumberOfUsers := MaxUsers limits\<rparr> else l)
      in foldl (\<lambda>l rate. l\<lparr>LimiterConfig.Rates := LimiterConfig.Rates l @
                  [\<lparr>Rate.Period = FileRate.Period rate,
                    Rate.Average = FileRate.Average rate,
                    Rate.Burst = FileRate.Burst rate\<rparr>]\<rparr>)
           l (FileLimits.Rates limits))"

definition limiter_loop :: "FileConfig \<Rightarrow> Config \<Rightarrow> LimiterConfig list \<times> Config" where
  "limiter_loop fc cfg =
     (let limiters = [SSHConfig.Limiter (Config.SSH cfg),
                      AuthConfig.Limiter (Config.Auth cfg),
                      ProxyConfig.Limiter (Config.Proxy cfg)]
      in (map (limiter_loop_body (Limits fc)) limiters, cfg))"

definition apply_proxy_section :: "wrapper \<Rightarrow> Env \<Rightarrow> FileConfig \<Rightarrow> Config \<Rightarrow> Config \<times> error option" where
  "apply_proxy_section wrap env fc cfg =
     andThen
       (andThen
          (andThen
             (if FileProxy.ListenAddress (FileConfig.Proxy fc) \<noteq> [] then
                (case ParseHostPortAddr env (FileProxy.ListenAddress (FileConfig.Proxy fc))
                        SSHProxyListenPort of
                   Inl err \<Rightarrow> (cfg, wrap (Some err))
                 | Inr addr \<Rightarrow>
                     (cfg\<lparr>Config.Proxy := (Config.Proxy cfg)\<lparr>ProxyConfig.SSHAddr := addr\<rparr>\<rparr>, None))
              else (cfg, None))
             (\<lambda>cfg. if FileProxy.WebAddr (FileConfig.Proxy fc) \<noteq> [] then
                (case ParseHostPortAddr env (FileProxy.WebAddr (FileConfig.Proxy fc))
                        HTTPListenPort of
                   Inl err \<Rightarrow> (cfg, wrap (Some err))
                 | Inr addr \<Rightarrow>
                     (cfg\<lparr>Config.Proxy := (Config.Proxy cfg)\<lparr>ProxyConfig.WebAddr := addr\<rparr>\<rparr>, None))
              else (cfg, None)))
          (\<lambda>cfg. if KeyFile (FileConfig.Proxy fc) \<noteq> [] then
             (if \<not> fileExists env (KeyFile (FileConfig.Proxy fc))
              then (cfg, Some (Errorf (''https key does not exist: '' @ KeyFile (FileConfig.Proxy fc))))
              else (cfg\<lparr>Config.Proxy := (Config.Proxy cfg)
                         \<lparr>TLSKey := KeyFile (FileConfig.Proxy fc)\<rparr>\<rparr>, None))
           else (cfg, None)))
       (\<lambda>cfg. if CertFile (FileConfig.Proxy fc) \<noteq> [] then
          (if \<not> fileExists env (CertFile (FileConfig.Proxy fc))
           then (cfg, Some (Errorf (''https cert does not exist: '' @ CertFile (FileConfig.Proxy fc))))
           else (cfg\<lparr>Config.Proxy := (Config.Proxy cfg)
                      \<lparr>TLSCert := CertFile (FileConfig.Proxy fc)\<rparr>\<rparr>, None))
        else (cfg, None))"

definition apply_auth_section :: "wrapper \<Rightarrow> Env \<Rightarrow> FileConfig \<Rightarrow> Config \<Rightarrow> Config \<times> error option" where
  "apply_auth_section wrap env fc cfg =
     (if FileAuth.ListenAddress (FileConfig.Auth fc) \<noteq> [] then
        (case ParseHostPortAddr env (FileAuth.ListenAddress (FileConfig.Auth fc)) AuthListenPort of
           Inl err \<Rightarrow> (cfg, wrap (Some err))
         | Inr addr \<Rightarrow>
             (cfg\<lparr>Config.Auth := (Config.Auth cfg)\<lparr>AuthConfig.SSHAddr := addr\<rparr>\<rparr>, None))
      else (cfg, None))"

definition apply_ssh_labels :: "FileConfig \<Rightarrow> SSHConfig \<Rightarrow> SSHConfig" where
  "apply_ssh_labels fc ssh =
     (let ssh = (case FileSSH.Labels (FileConfig.SSH fc) of
                   None \<Rightarrow> ssh
                 | Some labels \<Rightarrow> ssh\<lparr>SSHConfig.Labels := Some labels\<rparr>)
      in case Commands (FileConfig.SSH fc) of
           None \<Rightarrow> ssh
         | Some commands \<Rightarrow>
             ssh\<lparr>CmdLabels := Some (foldl (\<lambda>m cmdLabel. m(Name cmdLabel \<mapsto>
                      \<lparr>CommandLabel.Period = FileCommandLabel.Period cmdLabel,
                       CommandLabel.Command = FileCommandLabel.Command cmdLabel,
                       Result = []\<rparr>)) Map.empty commands)\<rparr>)"

definition apply_ssh_section :: "wrapper \<Rightarrow> Env \<Rightarrow> FileConfig \<Rightarrow> Config \<Rightarrow> Config \<times> error option" where
  "apply_ssh_section wrap env fc cfg =
     andThen
       (if FileSSH.ListenAddress (FileConfig.SSH fc) \<noteq> [] then
          (case ParseHostPortAddr env (FileSSH.ListenAddress (FileConfig.SSH fc))
                  SSHServerListenPort of
             Inl err \<Rightarrow> (cfg, wrap (Some err))
           | Inr addr \<Rightarrow> (cfg\<lparr>Config.SSH := (Config.SSH cfg)\<lparr>SSHConfig.Addr := addr\<rparr>\<rparr>, None))
        else (cfg, None))
       (\<lambda>cfg. (cfg\<lparr>Config.SSH := apply_ssh_labels fc (Config.SSH cfg)\<rparr>, None))"

text \<open>Lifting a section that works on the configuration, or on the logger, to the pair.\<close>

definition on_cfg :: "(Config \<Rightarrow> Config \<times> error option) \<Rightarrow> Config \<times> LogState
    \<Rightarrow> (Config \<times> LogState) \<times> error option" where
  "on_cfg f st = (case f (fst st) of (cfg', err) \<Rightarrow> ((cfg', snd st), err))"

definition on_log :: "(LogState \<Rightarrow> LogState \<times> error option) \<Rightarrow> Config \<times> LogState
    \<Rightarrow> (Config \<times> LogState) \<times> error option" where
  "on_log f st = (case f (snd st) of (lg', err) \<Rightarrow> ((fst st, lg'), err))"

definition applyFileConfig ::
  "wrapper \<Rightarrow> Env \<Rightarrow> FileConfig option \<Rightarrow> Config \<times> LogState \<Rightarrow> (Config \<times> LogState) \<times> error option" where
  "applyFileConfig wrap env fco st =
     (case fco of
        None \<Rightarrow> (st, None)
      | Some fc \<Rightarrow>
          andThen (andThen (andThen (andThen (andThen (andThen (andThen (andThen (andThen (andThen
            (on_cfg (\<lambda>cfg. (apply_roles fc cfg, None)) st)
            (on_cfg (apply_advertise_ip wrap env fc)))
            (on_cfg (apply_auth_servers env fc)))
            (on_cfg (\<lambda>cfg. (apply_token_and_domain fc cfg, None))))
            (on_cfg (apply_storage wrap env fc)))
            (on_log (apply_logger_output wrap env fc)))
            (on_log (apply_logger_severity fc)))
            (on_cfg (\<lambda>cfg. (snd (limiter_loop fc cfg), None))))
            (on_cfg (apply_proxy_section wrap env fc)))
            (on_cfg (apply_auth_section wrap env fc)))
            (on_cfg (apply_ssh_section wrap env fc)))"

text \<open>The three limiters that the throttling section reads, in its order.\<close>

definition limiters_of :: "Config \<Rightarrow> LimiterConfig \<times> LimiterConfig \<times> LimiterConfig" where
  "limiters_of cfg =
     (SSHConfig.Limiter (Config.SSH cfg),
      AuthConfig.Limiter (Config.Auth cfg),
      ProxyConfig.Limiter (Config.Proxy cfg))"

text \<open>
  A file configuration that sets nothing but the limits: at most 5 connections, at most
  7 users and one rate.  Every other field has its zero value.
\<close>

definition FileConfig_limits_only :: FileConfig where
  "FileConfig_limits_only =
     \<lparr>NodeName = [], AdvertiseIP = None, AuthServers = [], AuthToken = [],
      Storage = \<lparr>FileStorage.Type = [], DirName = [], Peers = [], Prefix = []\<rparr>,
      Logger = \<lparr>Output = [], Severity = []\<rparr>,
      Limits = \<lparr>FileLimits.MaxConnections = 5, MaxUsers = 7,
                Rates = [\<lparr>FileRate.Period = Second, Average = 1, Burst = 2\<rparr>]\<rparr>,
      Auth = \<lparr>FileAuth.Disabled = False, ListenAddress = [], DomainName = []\<rparr>,
      SSH = \<lparr>FileSSH.Disabled = False, ListenAddress = [], Labels = None, Commands = None\<rparr>,
      Proxy = \<lparr>FileProxy.Disabled = False, ListenAddress = [], WebAddr = [], KeyFile = [],
               CertFile = []\<rparr>\<rparr>"

definition LogState_initial :: LogState where
  "LogState_initial = \<lparr>Out = Stderr, Lvl = InfoLevel\<rparr>"

section \<open>Command labels\<close>

text \<open>
  A Go string is a sequence of bytes, modelled as a list of characters with one
  character for each byte: \<^verbatim>\<open>len\<close> is the length of the list and indexing reads a byte.

  \<^verbatim>\<open>strings.Trim(s, cutset)\<close> removes every leading and every trailing code point that
  occurs in the cutset.  The cutset of the source holds the two ASCII brackets; in UTF-8 a
  byte below \<open>0x80\<close> is always a code point of its own, so the brackets are removed byte
  by byte.
\<close>

definition Trim :: "string \<Rightarrow> string \<Rightarrow> string" where
  "Trim s cutset =
     rev (dropWhile (\<lambda>c. c \<in> set cutset) (rev (dropWhile (\<lambda>c. c \<in> set cutset) s)))"

text \<open>
  \<^verbatim>\<open>strings.IndexRune(s, r)\<close> for an ASCII code point \<^verbatim>\<open>r\<close>: the index of the first byte
  equal to it, or \<open>-1\<close>.
\<close>

definition IndexRune :: "string \<Rightarrow> char \<Rightarrow> int" where
  "IndexRune s r = (if r \<in> set s then int (length (takeWhile (\<lambda>c. c \<noteq> r) s)) else - 1)"

text \<open>
  A \<^verbatim>\<open>rune\<close> is a Unicode code point.  Ranging over a string decodes it as UTF-8, as
  \<^verbatim>\<open>utf8.DecodeRuneInString\<close> does: the result is the code point at the head of the string
  and the number of bytes it takes.  A byte below \<open>0x80\<close> is its own code point.  A lead
  byte from \<open>0xC2\<close> to \<open>0xF4\<close> announces two, three or four bytes; the second byte must lie
  in the range accepted after that lead byte (which rules out overlong forms, surrogates
  and values beyond \<open>0x10FFFF\<close>) and every later byte between \<open>0x80\<close> and \<open>0xBF\<close>.
  Anything else decodes as \<open>RuneError\<close> of width one.
\<close>

type_synonym rune = nat

definition RuneError :: rune where
  "RuneError = 0xFFFD"

fun DecodeRuneInString :: "string \<Rightarrow> rune \<times> nat" where
  "DecodeRuneInString [] = (RuneError, 0)"
| "DecodeRuneInString (c # rest) =
     (let s0 = (of_char c :: nat) in
      if s0 < 0x80 then (s0, 1)
      else if s0 < 0xC2 \<or> 0xF4 < s0 then (RuneError, 1)
      else
        (let sz = (if s0 < 0xE0 then 2 else if s0 < 0xF0 then 3 else 4 :: nat);
             lo = (if s0 = 0xE0 then 0xA0 else if s0 = 0xF0 then 0x90 else 0x80 :: nat);
             hi = (if s0 = 0xED then 0x9F else if s0 = 0xF4 then 0x8F else 0xBF :: nat)
         in if length (c # rest) < sz then (RuneError, 1)
            else
              (let s1 = (of_char (rest ! 0) :: nat) in
               if s1 < lo \<or> hi < s1 then (RuneError, 1)
               else if sz \<le> 2 then ((s0 mod 32) * 64 + s1 mod 64, 2)
               else
                 (let s2 = (of_char (rest ! 1) :: nat) in
                  if s2 < 0x80 \<or> 0xBF < s2 then (RuneError, 1)
                  else if sz \<le> 3 then ((s0 mod 16) * 4096 + (s1 mod 64) * 64 + s2 mod 64, 3)
                  else
                    (let s3 = (of_char (rest ! 2) :: nat) in
                     if s3 < 0x80 \<or> 0xBF < s3 then (RuneError, 1)
                     else ((s0 mod 8) * 262144 + (s1 mod 64) * 4096 + (s2 mod 64) * 64
                             + s3 mod 64, 4))))))"

text \<open>
  \<^verbatim>\<open>for i, c := range s\<close>: the code points of the string in order, each with the bytes
  it was decoded from.
\<close>

function runes :: "string \<Rightarrow> (rune \<times> string) list" where
  "runes [] = []"
| "runes (c # rest) =
     (fst (DecodeRuneInString (c # rest)), take (snd (DecodeRuneInString (c # rest))) (c # rest))
       # runes (drop (snd (DecodeRuneInString (c # rest))) (c # rest))"
  by pat_completeness auto
termination
  by (relation "measure length") (auto simp: Let_def)

text \<open>
  \<^verbatim>\<open>unicode.IsSpace\<close>: in the Latin-1 range tab, line feed, vertical tab, form feed,
  carriage return, space, \<open>U+0085\<close> and \<open>U+00A0\<close>; above it the code points with the
  Unicode property \<^verbatim>\<open>White_Space\<close>.
\<close>

definition IsSpace :: "rune \<Rightarrow> bool" where
  "IsSpace r =
     (if r \<le> 0xFF then r \<in> {0x09, 0x0A, 0x0B, 0x0C, 0x0D, 0x20, 0x85, 0xA0}
      else r = 0x1680 \<or> (0x2000 \<le> r \<and> r \<le> 0x200A)
         \<or> r \<in> {0x2028, 0x2029, 0x202F, 0x205F, 0x3000})"

text \<open>
  \<^verbatim>\<open>strings.FieldsFunc(s, f)\<close> splits the string at each run of code points that satisfy
  \<^verbatim>\<open>f\<close> and returns the pieces between the runs; it returns no piece for an empty string
  or one made of separators only.  The library expects \<^verbatim>\<open>f\<close> to answer the same for the
  same code point, but the source passes a closure that keeps a variable between calls,
  so what is returned depends on the calls the library makes.  The model threads the
  closure's state through these calls, for the two implementations the library has had.

  \<open>fields_loop\<close> is the pass that builds the fields: it calls \<^verbatim>\<open>f\<close> once on each code point
  from left to right; \<open>cur\<close> is the field in progress, if any.
\<close>

fun fields_loop ::
  "('s \<Rightarrow> rune \<Rightarrow> bool \<times> 's) \<Rightarrow> 's \<Rightarrow> string option \<Rightarrow> (rune \<times> string) list \<Rightarrow> string list" where
  "fields_loop f st cur [] = (case cur of None \<Rightarrow> [] | Some field \<Rightarrow> [field])"
| "fields_loop f st cur ((r, piece) # rest) =
     (case f st r of
        (True, st') \<Rightarrow>
          (case cur of None \<Rightarrow> [] | Some field \<Rightarrow> [field]) @ fields_loop f st' None rest
      | (False, st') \<Rightarrow>
          fields_loop f st' (Some ((case cur of None \<Rightarrow> [] | Some field \<Rightarrow> field) @ piece)) rest)"

text \<open>
  \<open>count_fields\<close> is the counting pass of the older implementation: it calls \<^verbatim>\<open>f\<close> once
  on each code point and counts the places where a field starts.  It returns the count
  and the state in which it leaves the closure.
\<close>

fun count_fields ::
  "('s \<Rightarrow> rune \<Rightarrow> bool \<times> 's) \<Rightarrow> 's \<Rightarrow> bool \<Rightarrow> (rune \<times> string) list \<Rightarrow> nat \<times> 's" where
  "count_fields f st inField [] = (0, st)"
| "count_fields f st inField ((r, piece) # rest) =
     (case f st r of
        (sep, st') \<Rightarrow>
          (case count_fields f st' (\<not> sep) rest of
             (n, st'') \<Rightarrow> (if \<not> sep \<and> \<not> inField then Suc n else n, st'')))"

text \<open>
  The later implementation (\<open>OnePass\<close>) builds the fields in a single pass.  The older
  one (\<open>TwoPasses\<close>) counts the fields first, allocates a slice of that length and fills
  it in a second pass; the second pass panics when it finds more fields than were
  counted, and leaves empty strings at the end of the slice when it finds fewer.  A panic
  is the result \<open>None\<close>.
\<close>

datatype FieldsFuncImpl = OnePass | TwoPasses

definition FieldsFunc ::
  "FieldsFuncImpl \<Rightarrow> ('s \<Rightarrow> rune \<Rightarrow> bool \<times> 's) \<Rightarrow> 's \<Rightarrow> string \<Rightarrow> string list option" where
  "FieldsFunc impl f st s =
     (case impl of
        OnePass \<Rightarrow> Some (fields_loop f st None (runes s))
      | TwoPasses \<Rightarrow>
          (case count_fields f st False (runes s) of
             (n, st') \<Rightarrow>
               (let a = fields_loop f st' None (runes s)
                in if length a \<le> n then Some (a @ replicate (n - length a) []) else None)))"

text \<open>
  The closure of \<^verbatim>\<open>isCmdLabelSpec\<close>: a double quote flips \<^verbatim>\<open>openQuote\<close>, and the code
  point separates fields when it is white space met while no quote is open.
\<close>

definition quote_closure :: "bool \<Rightarrow> rune \<Rightarrow> bool \<times> bool" where
  "quote_closure openQuote c =
     (let openQuote = (if c = 0x22 then \<not> openQuote else openQuote)
      in (IsSpace c \<and> \<not> openQuote, openQuote))"

text \<open>
  \<^verbatim>\<open>isCmdLabelSpec\<close> returns a pointer to a command label and an error, unless
  \<^verbatim>\<open>strings.FieldsFunc\<close> panics; \<^verbatim>\<open>time.ParseDuration\<close> is a parameter, and so is the
  implementation of \<^verbatim>\<open>strings.FieldsFunc\<close>.
\<close>

definition isCmdLabelSpec ::
  "FieldsFuncImpl \<Rightarrow> wrapper \<Rightarrow> (string \<Rightarrow> error + Duration) \<Rightarrow> string
     \<Rightarrow> (CommandLabel option \<times> error option) option" where
  "isCmdLabelSpec impl wrap ParseDuration spec =
     (if length spec > 5 \<and> spec ! 0 = CHR ''['' \<and> spec ! (length spec - 1) = CHR '']'' then
        (let invalidSpecError = BadParameter ''label''
               (''invalid command label spec: '' @ [CHR 0x27] @ spec @ [CHR 0x27]);
             spec = Trim spec ''[]'';
             idx = IndexRune spec CHR '':''
         in if idx < 0 then Some (None, wrap (Some invalidSpecError))
            else
              (let periodSpec = take (nat idx) spec
               in case ParseDuration periodSpec of
                    Inl err \<Rightarrow> Some (None, wrap (Some invalidSpecError))
                  | Inr period \<Rightarrow>
                      (let cmdSpec = drop (nat idx + 1) spec
                       in if length cmdSpec < 1 then Some (None, wrap (Some invalidSpecError))
                          else
                            (case FieldsFunc impl quote_closure False cmdSpec of
                               None \<Rightarrow> None
                             | Some command \<Rightarrow>
                                 Some (Some \<lparr>CommandLabel.Period = period,
                                             CommandLabel.Command = command,
                                             Result = []\<rparr>, None)))))
      else Some (None, None))"

text \<open>
  The spec's reading of the command part, for comparison with the code: the command text
  split at white space, with double-quoted runs kept together.  A code point separates
  tokens when it is white space and an even number of double quotes stands before it.
\<close>

definition quote_count :: "(rune \<times> string) list \<Rightarrow> nat" where
  "quote_count rs = count_list (map fst rs) 0x22"

definition is_token_separator :: "(rune \<times> string) list \<Rightarrow> nat \<Rightarrow> bool" where
  "is_token_separator rs i = (IsSpace (fst (rs ! i)) \<and> even (quote_count (take i rs)))"

fun split_at_flags :: "string option \<Rightarrow> (bool \<times> string) list \<Rightarrow> string list" where
  "split_at_flags cur [] = (case cur of None \<Rightarrow> [] | Some token \<Rightarrow> [token])"
| "split_at_flags cur ((sep, piece) # rest) =
     (if sep then (case cur of None \<Rightarrow> [] | Some token \<Rightarrow> [token]) @ split_at_flags None rest
      else split_at_flags (Some ((case cur of None \<Rightarrow> [] | Some token \<Rightarrow> token) @ piece)) rest)"

definition shell_tokens :: "string \<Rightarrow> string list" where
  "shell_tokens s =
     split_at_flags None
       (zip (map (is_token_separator (runes s)) [0..<length (runes s)]) (map snd (runes s)))"

text \<open>
  A table of \<^verbatim>\<open>time.ParseDuration\<close>: the results of Go's parser on four texts; any
  other text is refused, as Go's parser refuses the other period texts that occur below
  (\<^verbatim>\<open>abc\<close>, \<^verbatim>\<open>1x\<close>).  It stands for the parser where the model runs on a concrete label.
  \<open>Wrap_transparent\<close> stands for \<^verbatim>\<open>trace.Wrap\<close> in the same way: it hands back the error it
  is given.
\<close>

definition ParseDuration_table :: "string \<Rightarrow> error + Duration" where
  "ParseDuration_table s =
     (if s = ''0'' then Inr 0
      else if s = ''1s'' then Inr Second
      else if s = ''1h'' then Inr Hour
      else if s = ''1h30m'' then Inr (Hour + 30 * Minute)
      else Inl (Underlying (''time: invalid duration '' @ s)))"

definition Wrap_transparent :: wrapper where
  "Wrap_transparent err = err"

section \<open>Client key store: trusted host authorities\<close>

text \<open>
  An SSH public key as the client sees it in a handshake: either a plain key, given by
  its wire encoding, or a certificate, which holds the certified key (the field \<^verbatim>\<open>Key\<close>)
  and the key of the authority that signed it (\<^verbatim>\<open>SignatureKey\<close>).  The other fields of \<^verbatim>\<open>ssh.Certificate\<close> are
  not read by the sources.
\<close>

datatype PublicKey =
    PlainKey bytes
  | ssh_Certificate (CertKey: PublicKey) (SignatureKey: PublicKey)

text \<open>
  Modelled from the spec: \<^verbatim>\<open>sshutils.KeysEqual\<close> is declared in a package that is not
  among the sources; the spec has the candidate signer key compared for byte equality
  with each checking key.  A key stands for its encoding, so byte equality of the
  encodings is equality of the keys.
\<close>

definition KeysEqual :: "PublicKey \<Rightarrow> PublicKey \<Rightarrow> bool" where
  "KeysEqual ak bk = (ak = bk)"

text \<open>
  Modelled from the spec: \<^verbatim>\<open>services.CertAuthority\<close> is declared in a package that is not
  among the sources.  The spec gives it a domain name, a type (host or user), an ordered
  list of signing private keys and an ordered list of checking public keys.
\<close>

datatype CertAuthType = HostCA | UserCA

record CertAuthority =
  DomainName :: string
  Type :: CertAuthType
  SigningKeys :: "bytes list"
  CheckingKeys :: "bytes list"

text \<open>
  Modelled from the spec: \<^verbatim>\<open>Checkers()\<close> on an authority returns every checking public
  key as a parsed SSH key, in order.  The parser \<^verbatim>\<open>ssh.ParseAuthorizedKey\<close> is a parameter;
  the first key that does not parse makes the call fail with the parser's error.
\<close>

fun parse_checkers :: "(bytes \<Rightarrow> error + PublicKey) \<Rightarrow> bytes list \<Rightarrow> error + PublicKey list" where
  "parse_checkers ParseAuthorizedKey [] = Inr []"
| "parse_checkers ParseAuthorizedKey (keyBytes # rest) =
     (case ParseAuthorizedKey keyBytes of
        Inl err \<Rightarrow> Inl err
      | Inr key \<Rightarrow>
          (case parse_checkers ParseAuthorizedKey rest of
             Inl err \<Rightarrow> Inl err
           | Inr out \<Rightarrow> Inr (key # out)))"

definition Checkers :: "(bytes \<Rightarrow> error + PublicKey) \<Rightarrow> CertAuthority \<Rightarrow> error + PublicKey list" where
  "Checkers ParseAuthorizedKey ca = parse_checkers ParseAuthorizedKey (CheckingKeys ca)"

text \<open>
  Modelled from the spec: the local trust cache is a bolt database file opened with
  \<^verbatim>\<open>boltbk.New\<close> and read and written through the CA service, none of which is among the
  sources.  The state of the cache is: the error with which opening it fails, if it
  does; the error with which listing the authorities fails, if it does; the stored
  authorities; and the error with which storing a given authority fails, if it does.
  \<^verbatim>\<open>GetCertAuthorities(type)\<close> returns the stored authorities of the type, and
  \<^verbatim>\<open>UpsertCertAuthority\<close> stores an authority in place of the one with its domain name and
  type (one authority per domain and type; the last writer wins).
\<close>

record TrustCache =
  open_error :: "error option"
  list_error :: "error option"
  authorities :: "CertAuthority list"
  upsert_error :: "CertAuthority \<Rightarrow> error option"

definition GetCertAuthorities :: "TrustCache \<Rightarrow> CertAuthType \<Rightarrow> error + CertAuthority list" where
  "GetCertAuthorities bk caType =
     (case list_error bk of
        Some err \<Rightarrow> Inl err
      | None \<Rightarrow> Inr (filter (\<lambda>ca. CertAuthority.Type ca = caType) (authorities bk)))"

definition UpsertCertAuthority :: "TrustCache \<Rightarrow> CertAuthority \<Rightarrow> TrustCache \<times> error option" where
  "UpsertCertAuthority bk ca =
     (case upsert_error bk ca of
        Some err \<Rightarrow> (bk, Some err)
      | None \<Rightarrow>
          (bk\<lparr>authorities :=
                filter (\<lambda>old. \<not> (CertAuthority.DomainName old = CertAuthority.DomainName ca
                                  \<and> CertAuthority.Type old = CertAuthority.Type ca))
                       (authorities bk) @ [ca]\<rparr>, None))"

text \<open>
  \<^verbatim>\<open>AddHostSignersToCache\<close> opens the cache and stores each host signer.  On a failure
  to open the cache and on a failure to store a signer it returns \<^verbatim>\<open>trace.Wrap(nil)\<close>.
\<close>

fun upsert_all :: "wrapper \<Rightarrow> TrustCache \<Rightarrow> CertAuthority list \<Rightarrow> TrustCache \<times> error option" where
  "upsert_all wrap bk [] = (bk, None)"
| "upsert_all wrap bk (hostSigner # rest) =
     (case UpsertCertAuthority bk hostSigner of
        (bk', Some err) \<Rightarrow> (bk', wrap None)
      | (bk', None) \<Rightarrow> upsert_all wrap bk' rest)"

definition AddHostSignersToCache ::
  "wrapper \<Rightarrow> TrustCache \<Rightarrow> CertAuthority list \<Rightarrow> TrustCache \<times> error option" where
  "AddHostSignersToCache wrap bk hostSigners =
     (case open_error bk of
        Some err \<Rightarrow> (bk, wrap None)
      | None \<Rightarrow> upsert_all wrap bk hostSigners)"

text \<open>
  \<^verbatim>\<open>CheckHostSignature\<close>: the type assertion on the key comes first; then the cache is
  opened and its host authorities are listed; then the signature key of the certificate
  is compared with each checker of each authority in turn.
\<close>

fun any_checker_equal :: "PublicKey \<Rightarrow> PublicKey list \<Rightarrow> bool" where
  "any_checker_equal signatureKey [] = False"
| "any_checker_equal signatureKey (checker # rest) =
     (if KeysEqual signatureKey checker then True else any_checker_equal signatureKey rest)"

fun check_authorities ::
  "wrapper \<Rightarrow> (bytes \<Rightarrow> error + PublicKey) \<Rightarrow> CertAuthority list \<Rightarrow> PublicKey \<Rightarrow> error option" where
  "check_authorities wrap ParseAuthorizedKey [] signatureKey =
     Some (Errorf ''no matching authority found'')"
| "check_authorities wrap ParseAuthorizedKey (ca # cas) signatureKey =
     (case Checkers ParseAuthorizedKey ca of
        Inl err \<Rightarrow> wrap (Some err)
      | Inr checkers \<Rightarrow>
          if any_checker_equal signatureKey checkers then None
          else check_authorities wrap ParseAuthorizedKey cas signatureKey)"

definition CheckHostSignature ::
  "wrapper \<Rightarrow> (bytes \<Rightarrow> error + PublicKey) \<Rightarrow> TrustCache \<Rightarrow> string \<Rightarrow> string \<Rightarrow> PublicKey
     \<Rightarrow> error option" where
  "CheckHostSignature wrap ParseAuthorizedKey bk hostId remote key =
     (case key of
        PlainKey b \<Rightarrow> Some (Errorf ''expected certificate'')
      | ssh_Certificate certKey signatureKey \<Rightarrow>
          (case open_error bk of
             Some err \<Rightarrow> wrap None
           | None \<Rightarrow>
               (case GetCertAuthorities bk HostCA of
                  Inl err \<Rightarrow> wrap (Some err)
                | Inr cas \<Rightarrow> check_authorities wrap ParseAuthorizedKey cas signatureKey)))"

text \<open>
  Modelled from the spec: the abstract error kinds of the spec.  Of the errors the
  sources build, \<^verbatim>\<open>teleport.BadParameter\<close> is the typed bad-parameter error;
  \<^verbatim>\<open>trace.Errorf\<close> builds a plain error from a message, and an error handed up by a callee
  is opaque: neither carries a kind.
\<close>

datatype error_kind =
    bad_parameter | not_found | already_exists | access_denied | compare_failed
  | unknown_authority | internal

fun kind_of :: "error \<Rightarrow> error_kind option" where
  "kind_of (BadParameter name msg) = Some bad_parameter"
| "kind_of (Errorf msg) = None"
| "kind_of (Underlying msg) = None"

text \<open>
  A plain stand-in for \<^verbatim>\<open>ssh.ParseAuthorizedKey\<close>, used to run the model on concrete
  caches: empty input holds no key, as for Go's parser, and any other input is taken as
  the encoding of a plain key.  The example cache holds two host authorities: the only
  checking key of the first is empty, the checking key of the second is the bytes 1, 2, 3.
\<close>

definition ParseAuthorizedKey_plain :: "bytes \<Rightarrow> error + PublicKey" where
  "ParseAuthorizedKey_plain keyBytes =
     (if keyBytes = [] then Inl (Underlying ''ssh: no key found'') else Inr (PlainKey keyBytes))"

definition TrustCache_example :: TrustCache where
  "TrustCache_example =
     \<lparr>open_error = None, list_error = None,
      authorities =
        [\<lparr>DomainName = ''a.example.com'', Type = HostCA, SigningKeys = [], CheckingKeys = [[]]\<rparr>,
         \<lparr>DomainName = ''b.example.com'', Type = HostCA, SigningKeys = [], CheckingKeys = [[1, 2, 3]]\<rparr>],
      upsert_error = (\<lambda>ca. None)\<rparr>"

text \<open>
  The same cache without its first authority, and a cache on which storing fails.
\<close>

definition TrustCache_single :: TrustCache where
  "TrustCache_single = TrustCache_example\<lparr>authorities := tl (authorities TrustCache_example)\<rparr>"

definition TrustCache_full_disk :: TrustCache where
  "TrustCache_full_disk = TrustCache_single\<lparr>upsert_error := (\<lambda>ca. Some (Underlying ''disk full''))\<rparr>"

text \<open>The host authorities stored in the cache, in the order in which they are listed.\<close>

definition host_authorities :: "TrustCache \<Rightarrow> CertAuthority list" where
  "host_authorities bk = filter (\<lambda>ca. CertAuthority.Type ca = HostCA) (authorities bk)"

section \<open>Client key store: saved user keys\<close>

text \<open>
  A saved key: private key bytes, certificate bytes and a deadline.  A \<^verbatim>\<open>time.Time\<close> is a
  point on an integer time line, and \<^verbatim>\<open>t.Before(u)\<close> is \<open>t < u\<close>.  The zero \<^verbatim>\<open>Key{}\<close> has
  empty byte slices and the zero time.
\<close>

type_synonym Time = int

definition Before :: "Time \<Rightarrow> Time \<Rightarrow> bool" where
  "Before t u = (t < u)"

record Key =
  Priv :: bytes
  Cert :: bytes
  Deadline :: Time

definition Key_zero :: Key where
  "Key_zero = \<lparr>Priv = [], Cert = [], Deadline = 0\<rparr>"

definition KeyFilePrefix :: string where
  "KeyFilePrefix = ''teleport_''"

definition KeyFileSuffix :: string where
  "KeyFileSuffix = ''.tkey''"

definition HostSignersFilename :: string where
  "HostSignersFilename = ''hostsigners.db''"

definition HasPrefix :: "string \<Rightarrow> string \<Rightarrow> bool" where
  "HasPrefix s pre = (length pre \<le> length s \<and> take (length pre) s = pre)"

definition HasSuffix :: "string \<Rightarrow> string \<Rightarrow> bool" where
  "HasSuffix s suf = (length suf \<le> length s \<and> drop (length s - length suf) s = suf)"

text \<open>
  The client key directory \<^verbatim>\<open>~/.tsh\<close> as the key store meets it through the operating
  system.  An entry has a name, is a directory or a file, and for a file carries what
  \<^verbatim>\<open>ioutil.ReadFile\<close> followed by \<^verbatim>\<open>json.Unmarshal\<close> makes of it: the file cannot be read,
  or its bytes are not the JSON of a key, or they are the JSON of the given key.  An
  entry also carries the error with which \<^verbatim>\<open>os.Remove\<close> on it fails, if it does.  The
  directory has the result of \<^verbatim>\<open>os.Stat\<close> on it, the error with which \<^verbatim>\<open>os.MkdirAll\<close>
  fails, if it does, the error with which \<^verbatim>\<open>ioutil.ReadDir\<close> fails, if it does, and its
  entries in the order in which \<^verbatim>\<open>ReadDir\<close> lists them.  File names are relative to
  the directory: \<^verbatim>\<open>filepath.Join(getKeysDir(), name)\<close> names the entry called \<open>name\<close>.
\<close>

datatype file_data = Unreadable error | Undecodable error | Encoded Key

record DirEntry =
  Name :: string
  IsDir :: bool
  Data :: file_data
  remove_error :: "error option"

datatype stat_result = Exists | NotExist | StatFailed error

record KeysDir =
  stat :: stat_result
  mkdir_error :: "error option"
  readdir_error :: "error option"
  entries :: "DirEntry list"

definition lookup_entry :: "KeysDir \<Rightarrow> string \<Rightarrow> DirEntry option" where
  "lookup_entry dir filename = find (\<lambda>e. DirEntry.Name e = filename) (entries dir)"

text \<open>\<^verbatim>\<open>os.Remove\<close> unlinks the named entry, or fails and leaves the directory as it is.\<close>

definition os_Remove :: "KeysDir \<Rightarrow> string \<Rightarrow> KeysDir \<times> error option" where
  "os_Remove dir filename =
     (case lookup_entry dir filename of
        None \<Rightarrow> (dir, Some (Underlying ''no such file or directory''))
      | Some e \<Rightarrow>
          (case remove_error e of
             Some err \<Rightarrow> (dir, Some err)
           | None \<Rightarrow>
               (dir\<lparr>entries := filter (\<lambda>e. DirEntry.Name e \<noteq> filename) (entries dir)\<rparr>, None)))"

text \<open>
  \<^verbatim>\<open>initKeysDir\<close> creates the directory when \<^verbatim>\<open>os.Stat\<close> reports that it does not exist; a
  directory just created has no entries.
\<close>

definition initKeysDir :: "wrapper \<Rightarrow> KeysDir \<Rightarrow> KeysDir \<times> error option" where
  "initKeysDir wrap dir =
     (case stat dir of
        NotExist \<Rightarrow>
          (case mkdir_error dir of
             Some err \<Rightarrow> (dir, wrap (Some err))
           | None \<Rightarrow> (dir\<lparr>stat := Exists, entries := []\<rparr>, None))
      | StatFailed err \<Rightarrow> (dir, wrap (Some err))
      | Exists \<Rightarrow> (dir, None))"

text \<open>\<^verbatim>\<open>loadKey\<close> reads the file and decodes it; on an error it returns the zero key.\<close>

definition loadKey :: "wrapper \<Rightarrow> KeysDir \<Rightarrow> string \<Rightarrow> Key \<times> error option" where
  "loadKey wrap dir filename =
     (case lookup_entry dir filename of
        None \<Rightarrow> (Key_zero, wrap (Some (Underlying ''no such file or directory'')))
      | Some e \<Rightarrow>
          if IsDir e then (Key_zero, wrap (Some (Underlying ''is a directory'')))
          else (case Data e of
                  Unreadable err \<Rightarrow> (Key_zero, wrap (Some err))
                | Undecodable err \<Rightarrow> (Key_zero, wrap (Some err))
                | Encoded key \<Rightarrow> (key, None)))"

text \<open>
  \<^verbatim>\<open>loadAllKeys\<close> lists the directory and walks the listing.  \<^verbatim>\<open>time.Now()\<close> is read once
  for each key that loads; \<open>Now i\<close> is the reading taken while the entry at position \<open>i\<close>
  of the listing is handled.  An error of \<^verbatim>\<open>loadKey\<close> is logged and the entry is skipped;
  an error of \<^verbatim>\<open>os.Remove\<close> is logged.  The model returns the directory as the walk leaves
  it next to the keys and the error.
\<close>

fun loadAllKeys_loop ::
  "wrapper \<Rightarrow> (nat \<Rightarrow> Time) \<Rightarrow> nat \<Rightarrow> DirEntry list \<Rightarrow> Key list \<times> KeysDir \<Rightarrow> Key list \<times> KeysDir" where
  "loadAllKeys_loop wrap Now i [] st = st"
| "loadAllKeys_loop wrap Now i (file # files) (keys, dir) =
     (if \<not> IsDir file \<and> HasPrefix (DirEntry.Name file) KeyFilePrefix
          \<and> HasSuffix (DirEntry.Name file) KeyFileSuffix
      then
        (case loadKey wrap dir (DirEntry.Name file) of
           (key, Some err) \<Rightarrow> loadAllKeys_loop wrap Now (Suc i) files (keys, dir)
         | (key, None) \<Rightarrow>
             if Before (Now i) (Deadline key)
             then loadAllKeys_loop wrap Now (Suc i) files (keys @ [key], dir)
             else loadAllKeys_loop wrap Now (Suc i) files
                    (keys, fst (os_Remove dir (DirEntry.Name file))))
      else loadAllKeys_loop wrap Now (Suc i) files (keys, dir))"

definition loadAllKeys ::
  "wrapper \<Rightarrow> (nat \<Rightarrow> Time) \<Rightarrow> KeysDir \<Rightarrow> (Key list \<times> error option) \<times> KeysDir" where
  "loadAllKeys wrap Now dir =
     (case readdir_error dir of
        Some err \<Rightarrow> (([], wrap (Some err)), dir)
      | None \<Rightarrow>
          (case loadAllKeys_loop wrap Now 0 (entries dir) ([], dir) of
             (keys, dir') \<Rightarrow> ((keys, None), dir')))"

text \<open>
  The SSH library as the agent construction uses it: the two parsers and
  \<^verbatim>\<open>keyring.Add\<close>.  A parsed private key is kept as an opaque value.  The in-memory
  keyring is the list of the keys added to it, in order.
\<close>

record AddedKey =
  PrivateKey :: bytes
  Certificate :: PublicKey
  Comment :: string
  LifetimeSecs :: nat
  ConfirmBeforeUse :: bool

record SSHLib =
  ParseAuthorizedKey :: "bytes \<Rightarrow> error + PublicKey"
  ParseRawPrivateKey :: "bytes \<Rightarrow> error + bytes"
  keyring_Add :: "AddedKey \<Rightarrow> error option"

text \<open>
  \<^verbatim>\<open>GetLocalAgentKeys\<close> parses each loaded key.  The type assertion
  \<^verbatim>\<open>pcert.(*ssh.Certificate)\<close> panics on a key that is not a certificate: the result
  \<open>None\<close>.
\<close>

fun added_keys_loop ::
  "wrapper \<Rightarrow> SSHLib \<Rightarrow> AddedKey list \<Rightarrow> Key list \<Rightarrow> (AddedKey list \<times> error option) option" where
  "added_keys_loop wrap lib addedKeys [] = Some (addedKeys, None)"
| "added_keys_loop wrap lib addedKeys (key # rest) =
     (case ParseAuthorizedKey lib (Cert key) of
        Inl err \<Rightarrow> Some ([], wrap (Some err))
      | Inr pcert \<Rightarrow>
          (case ParseRawPrivateKey lib (Priv key) of
             Inl err \<Rightarrow> Some ([], wrap (Some err))
           | Inr pk \<Rightarrow>
               (case pcert of
                  PlainKey b \<Rightarrow> None
                | ssh_Certificate certKey signatureKey \<Rightarrow>
                    added_keys_loop wrap lib
                      (addedKeys @ [\<lparr>PrivateKey = pk, Certificate = pcert, Comment = [],
                                     LifetimeSecs = 0, ConfirmBeforeUse = False\<rparr>]) rest)))"

definition GetLocalAgentKeys ::
  "wrapper \<Rightarrow> SSHLib \<Rightarrow> (nat \<Rightarrow> Time) \<Rightarrow> KeysDir
     \<Rightarrow> (AddedKey list \<times> error option) option \<times> KeysDir" where
  "GetLocalAgentKeys wrap lib Now dir =
     (case initKeysDir wrap dir of
        (dir, Some err) \<Rightarrow> (Some ([], wrap (Some err)), dir)
      | (dir, None) \<Rightarrow>
          (case loadAllKeys wrap Now dir of
             ((existingKeys, Some err), dir) \<Rightarrow> (Some ([], wrap (Some err)), dir)
           | ((existingKeys, None), dir) \<Rightarrow> (added_keys_loop wrap lib [] existingKeys, dir)))"

text \<open>
  \<^verbatim>\<open>GetLocalAgent\<close> adds the keys to a new keyring; it returns the keyring, or nil and an
  error.
\<close>

fun keyring_add_all ::
  "wrapper \<Rightarrow> SSHLib \<Rightarrow> AddedKey list \<Rightarrow> AddedKey list \<Rightarrow> AddedKey list option \<times> error option" where
  "keyring_add_all wrap lib keyring [] = (Some keyring, None)"
| "keyring_add_all wrap lib keyring (key # keys) =
     (case keyring_Add lib key of
        Some err \<Rightarrow> (None, wrap (Some err))
      | None \<Rightarrow> keyring_add_all wrap lib (keyring @ [key]) keys)"

definition GetLocalAgent ::
  "wrapper \<Rightarrow> SSHLib \<Rightarrow> (nat \<Rightarrow> Time) \<Rightarrow> KeysDir
     \<Rightarrow> (AddedKey list option \<times> error option) option \<times> KeysDir" where
  "GetLocalAgent wrap lib Now dir =
     (case GetLocalAgentKeys wrap lib Now dir of
        (None, dir) \<Rightarrow> (None, dir)
      | (Some (keys, Some err), dir) \<Rightarrow> (Some (None, wrap (Some err)), dir)
      | (Some (keys, None), dir) \<Rightarrow> (Some (keyring_add_all wrap lib [] keys), dir))"

text \<open>
  For stating what the walk does: an entry is a key file when it is not a directory and
  its name has the key file prefix and suffix; \<open>fresh_key\<close> is the key an entry
  contributes at its position in the listing (none, unless it is a key file that decodes
  to a key whose deadline is after the reading taken for it); \<open>expired_entry\<close> holds for
  a key file that decodes to a key whose deadline is not after that reading; an entry is
  corrupt when it is a key file that cannot be read or decoded.
\<close>

definition is_key_file :: "DirEntry \<Rightarrow> bool" where
  "is_key_file file =
     (\<not> IsDir file \<and> HasPrefix (DirEntry.Name file) KeyFilePrefix
      \<and> HasSuffix (DirEntry.Name file) KeyFileSuffix)"

definition fresh_key :: "(nat \<Rightarrow> Time) \<Rightarrow> nat \<times> DirEntry \<Rightarrow> Key list" where
  "fresh_key Now p =
     (if is_key_file (snd p) then
        (case Data (snd p) of
           Encoded key \<Rightarrow> if Before (Now (fst p)) (Deadline key) then [key] else []
         | Unreadable err \<Rightarrow> []
         | Undecodable err \<Rightarrow> [])
      else [])"

definition expired_entry :: "(nat \<Rightarrow> Time) \<Rightarrow> nat \<times> DirEntry \<Rightarrow> bool" where
  "expired_entry Now p =
     (is_key_file (snd p) \<and>
      (case Data (snd p) of
         Encoded key \<Rightarrow> \<not> Before (Now (fst p)) (Deadline key)
       | Unreadable err \<Rightarrow> False
       | Undecodable err \<Rightarrow> False))"

definition corrupt_entry :: "DirEntry \<Rightarrow> bool" where
  "corrupt_entry file =
     (is_key_file file \<and>
      (case Data file of Encoded key \<Rightarrow> False | Unreadable err \<Rightarrow> True | Undecodable err \<Rightarrow> True))"

text \<open>
  A key directory for running the model: a file that is not a key file, a subdirectory,
  a key file that is not JSON, a key file whose key expired at time 100 and whose removal
  is refused, one whose key expired at time 150, and one whose key is good until time
  900.  A plain stand-in for the SSH library takes a certificate text that starts with
  the byte 1 as a certificate and any other non-empty text as a plain key, takes any
  non-empty private key text, and lets the keyring accept every key.
\<close>

definition KeysDir_example :: KeysDir where
  "KeysDir_example =
     \<lparr>stat = Exists, mkdir_error = None, readdir_error = None,
      entries =
        [\<lparr>Name = ''hostsigners.db'', IsDir = False,
          Data = Undecodable (Underlying ''invalid character''), remove_error = None\<rparr>,
         \<lparr>Name = ''sessions'', IsDir = True, Data = Unreadable (Underlying ''is a directory''),
          remove_error = None\<rparr>,
         \<lparr>Name = ''teleport_a.tkey'', IsDir = False,
          Data = Undecodable (Underlying ''unexpected end of JSON input''), remove_error = None\<rparr>,
         \<lparr>Name = ''teleport_b.tkey'', IsDir = False,
          Data = Encoded \<lparr>Priv = [7], Cert = [1, 7], Deadline = 100\<rparr>,
          remove_error = Some (Underlying ''operation not permitted'')\<rparr>,
         \<lparr>Name = ''teleport_c.tkey'', IsDir = False,
          Data = Encoded \<lparr>Priv = [8], Cert = [1, 8], Deadline = 150\<rparr>, remove_error = None\<rparr>,
         \<lparr>Name = ''teleport_d.tkey'', IsDir = False,
          Data = Encoded \<lparr>Priv = [9], Cert = [1, 9], Deadline = 900\<rparr>, remove_error = None\<rparr>]\<rparr>"

definition SSHLib_plain :: SSHLib where
  "SSHLib_plain =
     \<lparr>ParseAuthorizedKey =
        (\<lambda>b. if b = [] then Inl (Underlying ''ssh: no key found'')
              else if hd b = 1 then Inr (ssh_Certificate (PlainKey (tl b)) (PlainKey [1, 2, 3]))
              else Inr (PlainKey b)),
      ParseRawPrivateKey =
        (\<lambda>b. if b = [] then Inl (Underlying ''ssh: no key found'') else Inr b),
      keyring_Add = (\<lambda>key. None)\<rparr>"

definition Now_200 :: "nat \<Rightarrow> Time" where
  "Now_200 i = 200"

text \<open>The names of the entries that the walk unlinks: expired key files whose removal succeeds.\<close>

definition removed_names :: "(nat \<Rightarrow> Time) \<Rightarrow> nat \<Rightarrow> DirEntry list \<Rightarrow> string set" where
  "removed_names Now i files =
     {DirEntry.Name (snd p) | p.
        p \<in> set (enumerate i files) \<and> expired_entry Now p \<and> remove_error (snd p) = None}"

text \<open>
  The agent key that \<^verbatim>\<open>GetLocalAgentKeys\<close> builds from a saved key, when the certificate
  text parses to a certificate and the private key text parses.
\<close>

definition added_key_of :: "SSHLib \<Rightarrow> Key \<Rightarrow> AddedKey option" where
  "added_key_of lib key =
     (case ParseAuthorizedKey lib (Cert key) of
        Inl err \<Rightarrow> None
      | Inr pcert \<Rightarrow>
          (case ParseRawPrivateKey lib (Priv key) of
             Inl err \<Rightarrow> None
           | Inr pk \<Rightarrow>
               (case pcert of
                  PlainKey b \<Rightarrow> None
                | ssh_Certificate certKey signatureKey \<Rightarrow>
                    Some \<lparr>PrivateKey = pk, Certificate = pcert, Comment = [],
                          LifetimeSecs = 0, ConfirmBeforeUse = False\<rparr>)))"

section \<open>Certificate duration bounds\<close>

lemmas duration_unit_defs =
  Nanosecond_def Microsecond_def Millisecond_def Second_def Minute_def Hour_def

text \<open>
  Claim C5.  The certificate-duration bounds equal the documented defaults:
  \<open>MinCertDuration\<close> is exactly one minute, \<open>MaxCertDuration\<close> exactly thirty hours and
  the nominal \<open>CertDuration\<close> exactly twelve hours (all in nanoseconds, the unit of a Go
  duration), so every TTL that lies between \<open>MinCertDuration\<close> and \<open>MaxCertDuration\<close>,
  as a clamped TTL does, lies between one minute and thirty hours.
\<close>

theorem cert_duration_bounds:
  "MinCertDuration = 60 * 1000000000
   \<and> MaxCertDuration = 30 * (3600 * 1000000000)
   \<and> CertDuration = 12 * (3600 * 1000000000)
   \<and> (\<forall>ttl. MinCertDuration \<le> ttl \<and> ttl \<le> MaxCertDuration
         \<longrightarrow> 60000000000 \<le> ttl \<and> ttl \<le> 108000000000000)"
  by (simp add: MinCertDuration_def MaxCertDuration_def CertDuration_def duration_unit_defs)

theorem cert_duration_bounds_witness:
  "MinCertDuration \<le> CertDuration \<and> CertDuration \<le> MaxCertDuration
   \<and> 60000000000 \<le> CertDuration \<and> CertDuration \<le> 108000000000000"
proof -
  have inside: "MinCertDuration \<le> CertDuration \<and> CertDuration \<le> MaxCertDuration"
    by (simp add: MinCertDuration_def MaxCertDuration_def CertDuration_def duration_unit_defs)
  from cert_duration_bounds have
    "MinCertDuration \<le> CertDuration \<and> CertDuration \<le> MaxCertDuration
       \<longrightarrow> 60000000000 \<le> CertDuration \<and> CertDuration \<le> 108000000000000"
    by blast
  with inside show ?thesis by blast
qed

section \<open>Token assignment\<close>

text \<open>
  Claim C10.  For every configuration and every token: \<open>ApplyToken\<close> with a non-empty
  token sets exactly the three fields \<open>SSH.Token\<close>, \<open>Proxy.Token\<close> and \<open>Auth.Token\<close> to the
  token, returns true and leaves every other field of the configuration unchanged (each
  is listed, and putting the three old tokens back restores the old configuration);
  with the empty token it returns false and leaves the whole configuration unchanged.
\<close>

theorem ApplyToken_frame:
  "(token \<noteq> [] \<longrightarrow>
      snd (ApplyToken cfg token) = True
      \<and> SSHConfig.Token (SSH (fst (ApplyToken cfg token))) = token
      \<and> ProxyConfig.Token (Proxy (fst (ApplyToken cfg token))) = token
      \<and> AuthConfig.Token (Auth (fst (ApplyToken cfg token))) = token
      \<and> DataDir (fst (ApplyToken cfg token)) = DataDir cfg
      \<and> Hostname (fst (ApplyToken cfg token)) = Hostname cfg
      \<and> AuthServers (fst (ApplyToken cfg token)) = AuthServers cfg
      \<and> AdvertiseIP (fst (ApplyToken cfg token)) = AdvertiseIP cfg
      \<and> ReverseTunnel (fst (ApplyToken cfg token)) = ReverseTunnel cfg
      \<and> HostUUID (fst (ApplyToken cfg token)) = HostUUID cfg
      \<and> Console (fst (ApplyToken cfg token)) = Console cfg
      \<and> SSHConfig.Enabled (SSH (fst (ApplyToken cfg token))) = SSHConfig.Enabled (SSH cfg)
      \<and> SSHConfig.Addr (SSH (fst (ApplyToken cfg token))) = SSHConfig.Addr (SSH cfg)
      \<and> SSHConfig.Shell (SSH (fst (ApplyToken cfg token))) = SSHConfig.Shell (SSH cfg)
      \<and> SSHConfig.Limiter (SSH (fst (ApplyToken cfg token))) = SSHConfig.Limiter (SSH cfg)
      \<and> SSHConfig.Labels (SSH (fst (ApplyToken cfg token))) = SSHConfig.Labels (SSH cfg)
      \<and> SSHConfig.CmdLabels (SSH (fst (ApplyToken cfg token))) = SSHConfig.CmdLabels (SSH cfg)
      \<and> ProxyConfig.Enabled (Proxy (fst (ApplyToken cfg token))) = ProxyConfig.Enabled (Proxy cfg)
      \<and> ProxyConfig.ReverseTunnelListenAddr (Proxy (fst (ApplyToken cfg token)))
          = ProxyConfig.ReverseTunnelListenAddr (Proxy cfg)
      \<and> ProxyConfig.WebAddr (Proxy (fst (ApplyToken cfg token))) = ProxyConfig.WebAddr (Proxy cfg)
      \<and> ProxyConfig.SSHAddr (Proxy (fst (ApplyToken cfg token))) = ProxyConfig.SSHAddr (Proxy cfg)
      \<and> ProxyConfig.AssetsDir (Proxy (fst (ApplyToken cfg token))) = ProxyConfig.AssetsDir (Proxy cfg)
      \<and> ProxyConfig.TLSKey (Proxy (fst (ApplyToken cfg token))) = ProxyConfig.TLSKey (Proxy cfg)
      \<and> ProxyConfig.TLSCert (Proxy (fst (ApplyToken cfg token))) = ProxyConfig.TLSCert (Proxy cfg)
      \<and> ProxyConfig.Limiter (Proxy (fst (ApplyToken cfg token))) = ProxyConfig.Limiter (Proxy cfg)
      \<and> AuthConfig.Enabled (Auth (fst (ApplyToken cfg token))) = AuthConfig.Enabled (Auth cfg)
      \<and> AuthConfig.SSHAddr (Auth (fst (ApplyToken cfg token))) = AuthConfig.SSHAddr (Auth cfg)
      \<and> AuthConfig.SecretKey (Auth (fst (ApplyToken cfg token))) = AuthConfig.SecretKey (Auth cfg)
      \<and> AuthConfig.AllowedTokens (Auth (fst (ApplyToken cfg token)))
          = AuthConfig.AllowedTokens (Auth cfg)
      \<and> AuthConfig.TrustedAuthorities (Auth (fst (ApplyToken cfg token)))
          = AuthConfig.TrustedAuthorities (Auth cfg)
      \<and> AuthConfig.DomainName (Auth (fst (ApplyToken cfg token))) = AuthConfig.DomainName (Auth cfg)
      \<and> AuthConfig.UserCA (Auth (fst (ApplyToken cfg token))) = AuthConfig.UserCA (Auth cfg)
      \<and> AuthConfig.HostCA (Auth (fst (ApplyToken cfg token))) = AuthConfig.HostCA (Auth cfg)
      \<and> AuthConfig.KeysBackend (Auth (fst (ApplyToken cfg token))) = AuthConfig.KeysBackend (Auth cfg)
      \<and> AuthConfig.EventsBackend (Auth (fst (ApplyToken cfg token)))
          = AuthConfig.EventsBackend (Auth cfg)
      \<and> AuthConfig.RecordsBackend (Auth (fst (ApplyToken cfg token)))
          = AuthConfig.RecordsBackend (Auth cfg)
      \<and> AuthConfig.Limiter (Auth (fst (ApplyToken cfg token))) = AuthConfig.Limiter (Auth cfg)
      \<and> (fst (ApplyToken cfg token))
            \<lparr>SSH := (SSH (fst (ApplyToken cfg token)))
                      \<lparr>SSHConfig.Token := SSHConfig.Token (SSH cfg)\<rparr>,
             Proxy := (Proxy (fst (ApplyToken cfg token)))
                      \<lparr>ProxyConfig.Token := ProxyConfig.Token (Proxy cfg)\<rparr>,
             Auth := (Auth (fst (ApplyToken cfg token)))
                      \<lparr>AuthConfig.Token := AuthConfig.Token (Auth cfg)\<rparr>\<rparr> = cfg)
   \<and> ApplyToken cfg [] = (cfg, False)"
  by (simp add: ApplyToken_def)

theorem ApplyToken_frame_witness:
  "''T0'' \<noteq> []
   \<and> snd (ApplyToken Config_zero ''T0'') = True
   \<and> SSHConfig.Token (SSH (fst (ApplyToken Config_zero ''T0''))) = ''T0''
   \<and> ProxyConfig.Token (Proxy (fst (ApplyToken Config_zero ''T0''))) = ''T0''
   \<and> AuthConfig.Token (Auth (fst (ApplyToken Config_zero ''T0''))) = ''T0''
   \<and> ReverseTunnel (fst (ApplyToken Config_zero ''T0'')) = ReverseTunnel Config_zero
   \<and> ReverseTunnelConfig.Token (ReverseTunnel (fst (ApplyToken Config_zero ''T0''))) = []"
proof -
  have nonempty: "''T0'' \<noteq> []" by simp
  have rt: "ReverseTunnelConfig.Token (ReverseTunnel Config_zero) = []"
    by (simp add: Config_zero_def)
  from ApplyToken_frame [of "''T0''" Config_zero] nonempty rt show ?thesis
    by simp
qed

section \<open>Default ports and the default configuration\<close>

lemma itoa_ports:
  "itoa 3022 = ''3022''" "itoa 3023 = ''3023''" "itoa 3024 = ''3024''"
  "itoa 3025 = ''3025''" "itoa 3080 = ''3080''"
  by (simp_all add: itoa.simps)

lemma default_addr_specs:
  "SSHServerListenAddr env = (case ParseAddr env ''tcp://0.0.0.0:3022'' of Inl e \<Rightarrow> None | Inr a \<Rightarrow> Some a)"
  "ProxyListenAddr env = (case ParseAddr env ''tcp://0.0.0.0:3023'' of Inl e \<Rightarrow> None | Inr a \<Rightarrow> Some a)"
  "ReverseTunnellListenAddr env = (case ParseAddr env ''tcp://0.0.0.0:3024'' of Inl e \<Rightarrow> None | Inr a \<Rightarrow> Some a)"
  "AuthListenAddr env = (case ParseAddr env ''tcp://0.0.0.0:3025'' of Inl e \<Rightarrow> None | Inr a \<Rightarrow> Some a)"
  "ProxyWebListenAddr env = (case ParseAddr env ''tcp://0.0.0.0:3080'' of Inl e \<Rightarrow> None | Inr a \<Rightarrow> Some a)"
  "ReverseTunnellConnectAddr env = (case ParseAddr env ''tcp://127.0.0.1:3024'' of Inl e \<Rightarrow> None | Inr a \<Rightarrow> Some a)"
  by (simp_all add: SSHServerListenAddr_def ProxyListenAddr_def ReverseTunnellListenAddr_def
      AuthListenAddr_def ProxyWebListenAddr_def ReverseTunnellConnectAddr_def makeAddr_def
      BindIP_def SSHServerListenPort_def SSHProxyListenPort_def SSHProxyTunnelListenPort_def
      AuthListenPort_def HTTPListenPort_def itoa_ports)

lemma MakeDefaultConfig_Some:
  assumes "MakeDefaultConfig env = Some cfg"
  obtains authAddr proxyAddr webAddr dialAddr tunnelAddr sshAddr where
    "ParseAddr env ''tcp://0.0.0.0:3025'' = Inr authAddr"
    "ParseAddr env ''tcp://0.0.0.0:3023'' = Inr proxyAddr"
    "ParseAddr env ''tcp://0.0.0.0:3080'' = Inr webAddr"
    "ParseAddr env ''tcp://127.0.0.1:3024'' = Inr dialAddr"
    "ParseAddr env ''tcp://0.0.0.0:3024'' = Inr tunnelAddr"
    "ParseAddr env ''tcp://0.0.0.0:3022'' = Inr sshAddr"
    "cfg = Config_zero
       \<lparr>Auth := ApplyDefaults_auth env authAddr (Auth Config_zero),
        Proxy := ApplyDefaults_proxy proxyAddr webAddr tunnelAddr (Proxy Config_zero),
        ReverseTunnel := ApplyDefaults_tunnel dialAddr (ReverseTunnel Config_zero),
        SSH := ApplyDefaults_ssh sshAddr (SSH Config_zero),
        Hostname := (case os_Hostname env of Inl err \<Rightarrow> ''localhost'' | Inr h \<Rightarrow> h),
        DataDir := DataDir_default,
        AuthServers := [authAddr],
        Console := Stdout\<rparr>"
  using assms
  by (auto simp: MakeDefaultConfig_def ApplyDefaults_def default_addr_specs Let_def
      ApplyDefaults_auth_def split: sum.splits)

text \<open>
  Claim C8.  The default listening ports are 3022 for node SSH, 3023 for proxy SSH, 3024
  for the proxy reverse tunnel, 3025 for the auth service and 3080 for the proxy web UI.
  \<open>MakeDefaultConfig\<close> enables the SSH, proxy and auth services and gives each its address
  as parsed from \<^verbatim>\<open>tcp://0.0.0.0:port\<close> with the respective default port; \<open>DataDir\<close> is
  \<^verbatim>\<open>/var/lib/teleport\<close>; the keys, events and records backends are of type bolt and point
  at \<^verbatim>\<open>keys.db\<close>, \<^verbatim>\<open>events.db\<close> and \<^verbatim>\<open>records.db\<close> joined to that directory.  The
  configuration is produced exactly when the address parser accepts the default
  addresses.
\<close>

theorem default_ports_and_config:
  "SSHServerListenPort = 3022 \<and> SSHProxyListenPort = 3023 \<and> SSHProxyTunnelListenPort = 3024
   \<and> AuthListenPort = 3025 \<and> HTTPListenPort = 3080
   \<and> (\<forall>cfg. MakeDefaultConfig env = Some cfg \<longrightarrow>
         SSHConfig.Enabled (SSH cfg) \<and> ProxyConfig.Enabled (Proxy cfg)
         \<and> AuthConfig.Enabled (Auth cfg)
         \<and> ParseAddr env ''tcp://0.0.0.0:3022'' = Inr (SSHConfig.Addr (SSH cfg))
         \<and> ParseAddr env ''tcp://0.0.0.0:3023'' = Inr (ProxyConfig.SSHAddr (Proxy cfg))
         \<and> ParseAddr env ''tcp://0.0.0.0:3024''
             = Inr (ProxyConfig.ReverseTunnelListenAddr (Proxy cfg))
         \<and> ParseAddr env ''tcp://0.0.0.0:3025'' = Inr (AuthConfig.SSHAddr (Auth cfg))
         \<and> ParseAddr env ''tcp://0.0.0.0:3080'' = Inr (ProxyConfig.WebAddr (Proxy cfg))
         \<and> DataDir cfg = ''/var/lib/teleport''
         \<and> KeysBackend.Type (KeysBackend (Auth cfg)) = ''bolt''
         \<and> EventsBackend.Type (EventsBackend (Auth cfg)) = ''bolt''
         \<and> RecordsBackend.Type (RecordsBackend (Auth cfg)) = ''bolt''
         \<and> KeysBackend.Params (KeysBackend (Auth cfg))
             = ''{'' @ [CHR 0x22] @ ''path'' @ [CHR 0x22] @ '': '' @ [CHR 0x22]
               @ filepath_Join env ''/var/lib/teleport'' ''keys.db'' @ [CHR 0x22] @ ''}''
         \<and> EventsBackend.Params (EventsBackend (Auth cfg))
             = ''{'' @ [CHR 0x22] @ ''path'' @ [CHR 0x22] @ '': '' @ [CHR 0x22]
               @ filepath_Join env ''/var/lib/teleport'' ''events.db'' @ [CHR 0x22] @ ''}''
         \<and> RecordsBackend.Params (RecordsBackend (Auth cfg))
             = ''{'' @ [CHR 0x22] @ ''path'' @ [CHR 0x22] @ '': '' @ [CHR 0x22]
               @ filepath_Join env ''/var/lib/teleport'' ''records.db'' @ [CHR 0x22] @ ''}'')
   \<and> ((\<exists>cfg. MakeDefaultConfig env = Some cfg) \<longleftrightarrow>
        (\<forall>a \<in> {''tcp://0.0.0.0:3022'', ''tcp://0.0.0.0:3023'', ''tcp://0.0.0.0:3024'',
                ''tcp://0.0.0.0:3025'', ''tcp://0.0.0.0:3080'', ''tcp://127.0.0.1:3024''}.
           \<exists>addr. ParseAddr env a = Inr addr))"
proof -
  have ports: "SSHServerListenPort = 3022 \<and> SSHProxyListenPort = 3023
      \<and> SSHProxyTunnelListenPort = 3024 \<and> AuthListenPort = 3025 \<and> HTTPListenPort = 3080"
    by (simp add: SSHServerListenPort_def SSHProxyListenPort_def SSHProxyTunnelListenPort_def
        AuthListenPort_def HTTPListenPort_def)
  have fields: "SSHConfig.Enabled (SSH cfg) \<and> ProxyConfig.Enabled (Proxy cfg)
         \<and> AuthConfig.Enabled (Auth cfg)
         \<and> ParseAddr env ''tcp://0.0.0.0:3022'' = Inr (SSHConfig.Addr (SSH cfg))
         \<and> ParseAddr env ''tcp://0.0.0.0:3023'' = Inr (ProxyConfig.SSHAddr (Proxy cfg))
         \<and> ParseAddr env ''tcp://0.0.0.0:3024''
             = Inr (ProxyConfig.ReverseTunnelListenAddr (Proxy cfg))
         \<and> ParseAddr env ''tcp://0.0.0.0:3025'' = Inr (AuthConfig.SSHAddr (Auth cfg))
         \<and> ParseAddr env ''tcp://0.0.0.0:3080'' = Inr (ProxyConfig.WebAddr (Proxy cfg))
         \<and> DataDir cfg = ''/var/lib/teleport''
         \<and> KeysBackend.Type (KeysBackend (Auth cfg)) = ''bolt''
         \<and> EventsBackend.Type (EventsBackend (Auth cfg)) = ''bolt''
         \<and> RecordsBackend.Type (RecordsBackend (Auth cfg)) = ''bolt''
         \<and> KeysBackend.Params (KeysBackend (Auth cfg))
             = ''{'' @ [CHR 0x22] @ ''path'' @ [CHR 0x22] @ '': '' @ [CHR 0x22]
               @ filepath_Join env ''/var/lib/teleport'' ''keys.db'' @ [CHR 0x22] @ ''}''
         \<and> EventsBackend.Params (EventsBackend (Auth cfg))
             = ''{'' @ [CHR 0x22] @ ''path'' @ [CHR 0x22] @ '': '' @ [CHR 0x22]
               @ filepath_Join env ''/var/lib/teleport'' ''events.db'' @ [CHR 0x22] @ ''}''
         \<and> RecordsBackend.Params (RecordsBackend (Auth cfg))
             = ''{'' @ [CHR 0x22] @ ''path'' @ [CHR 0x22] @ '': '' @ [CHR 0x22]
               @ filepath_Join env ''/var/lib/teleport'' ''records.db'' @ [CHR 0x22] @ ''}''"
    if some: "MakeDefaultConfig env = Some cfg" for cfg
    using some
    by (elim MakeDefaultConfig_Some)
       (simp add: ApplyDefaults_auth_def ApplyDefaults_proxy_def ApplyDefaults_ssh_def
         ApplyDefaults_tunnel_def Config_zero_def boltParams_def DataDir_default_def
         BackendType_def KeysBoltFile_def EventsBoltFile_def RecordsBoltFile_def)
  have total: "(\<exists>cfg. MakeDefaultConfig env = Some cfg) \<longleftrightarrow>
        (\<forall>a \<in> {''tcp://0.0.0.0:3022'', ''tcp://0.0.0.0:3023'', ''tcp://0.0.0.0:3024'',
                ''tcp://0.0.0.0:3025'', ''tcp://0.0.0.0:3080'', ''tcp://127.0.0.1:3024''}.
           \<exists>addr. ParseAddr env a = Inr addr)"
    by (auto simp: MakeDefaultConfig_def ApplyDefaults_def default_addr_specs Let_def
        split: sum.splits)
  from ports fields total show ?thesis by blast
qed

theorem default_ports_and_config_witness:
  "\<exists>cfg. MakeDefaultConfig Env_plain = Some cfg
     \<and> NetAddr.Addr (SSHConfig.Addr (SSH cfg)) = ''0.0.0.0:3022''
     \<and> NetAddr.Addr (ProxyConfig.SSHAddr (Proxy cfg)) = ''0.0.0.0:3023''
     \<and> NetAddr.Addr (ProxyConfig.ReverseTunnelListenAddr (Proxy cfg)) = ''0.0.0.0:3024''
     \<and> NetAddr.Addr (AuthConfig.SSHAddr (Auth cfg)) = ''0.0.0.0:3025''
     \<and> NetAddr.Addr (ProxyConfig.WebAddr (Proxy cfg)) = ''0.0.0.0:3080''
     \<and> KeysBackend.Params (KeysBackend (Auth cfg))
         = ''{'' @ [CHR 0x22] @ ''path'' @ [CHR 0x22] @ '': '' @ [CHR 0x22]
           @ ''/var/lib/teleport/keys.db'' @ [CHR 0x22] @ ''}''"
proof -
  have parses:
    "\<forall>a \<in> {''tcp://0.0.0.0:3022'', ''tcp://0.0.0.0:3023'', ''tcp://0.0.0.0:3024'',
            ''tcp://0.0.0.0:3025'', ''tcp://0.0.0.0:3080'', ''tcp://127.0.0.1:3024''}.
       \<exists>addr. ParseAddr Env_plain a = Inr addr"
    by (simp add: Env_plain_def ParseAddr_tcp_def)
  then obtain cfg where some: "MakeDefaultConfig Env_plain = Some cfg"
    using default_ports_and_config [of Env_plain] by blast
  from default_ports_and_config [of Env_plain] some have
    "ParseAddr Env_plain ''tcp://0.0.0.0:3022'' = Inr (SSHConfig.Addr (SSH cfg))"
    "ParseAddr Env_plain ''tcp://0.0.0.0:3023'' = Inr (ProxyConfig.SSHAddr (Proxy cfg))"
    "ParseAddr Env_plain ''tcp://0.0.0.0:3024''
       = Inr (ProxyConfig.ReverseTunnelListenAddr (Proxy cfg))"
    "ParseAddr Env_plain ''tcp://0.0.0.0:3025'' = Inr (AuthConfig.SSHAddr (Auth cfg))"
    "ParseAddr Env_plain ''tcp://0.0.0.0:3080'' = Inr (ProxyConfig.WebAddr (Proxy cfg))"
    "KeysBackend.Params (KeysBackend (Auth cfg))
           = ''{'' @ [CHR 0x22] @ ''path'' @ [CHR 0x22] @ '': '' @ [CHR 0x22]
             @ filepath_Join Env_plain ''/var/lib/teleport'' ''keys.db'' @ [CHR 0x22] @ ''}''"
    by blast+
  from this [symmetric] have
    "NetAddr.Addr (SSHConfig.Addr (SSH cfg)) = ''0.0.0.0:3022''
     \<and> NetAddr.Addr (ProxyConfig.SSHAddr (Proxy cfg)) = ''0.0.0.0:3023''
     \<and> NetAddr.Addr (ProxyConfig.ReverseTunnelListenAddr (Proxy cfg)) = ''0.0.0.0:3024''
     \<and> NetAddr.Addr (AuthConfig.SSHAddr (Auth cfg)) = ''0.0.0.0:3025''
     \<and> NetAddr.Addr (ProxyConfig.WebAddr (Proxy cfg)) = ''0.0.0.0:3080''
     \<and> KeysBackend.Params (KeysBackend (Auth cfg))
         = ''{'' @ [CHR 0x22] @ ''path'' @ [CHR 0x22] @ '': '' @ [CHR 0x22]
           @ ''/var/lib/teleport/keys.db'' @ [CHR 0x22] @ ''}''"
    by (simp add: Env_plain_def ParseAddr_tcp_def Join_plain_def)
  with some show ?thesis by blast
qed

section \<open>Connection limits from the file configuration\<close>

lemma andThen_preserves:
  assumes "P (fst r)" and "\<And>s. P s \<Longrightarrow> P (fst (f s))"
  shows "P (fst (andThen r f))"
  using assms by (simp add: andThen_def split: option.splits)

lemma on_cfg_limiters:
  assumes "\<And>cfg. limiters_of (fst (f cfg)) = limiters_of cfg"
  shows "limiters_of (fst (fst (on_cfg f st))) = limiters_of (fst st)"
  using assms [of "fst st"] by (cases "f (fst st)") (simp add: on_cfg_def)

lemma on_log_limiters:
  "limiters_of (fst (fst (on_log f st))) = limiters_of (fst st)"
  by (cases "f (snd st)") (simp add: on_log_def)

lemma apply_roles_limiters: "limiters_of (apply_roles fc cfg) = limiters_of cfg"
  by (simp add: apply_roles_def limiters_of_def Let_def)

lemma apply_advertise_ip_limiters:
  "limiters_of (fst (apply_advertise_ip wrap env fc cfg)) = limiters_of cfg"
  by (simp add: apply_advertise_ip_def limiters_of_def split: option.splits)

lemma parse_auth_servers_limiters:
  "limiters_of (fst (parse_auth_servers env xs cfg)) = limiters_of cfg"
  by (induction xs arbitrary: cfg) (simp_all add: limiters_of_def split: sum.splits)

lemma apply_auth_servers_limiters:
  "limiters_of (fst (apply_auth_servers env fc cfg)) = limiters_of cfg"
  using parse_auth_servers_limiters [of env "FileConfig.AuthServers fc" "cfg\<lparr>Config.AuthServers := []\<rparr>"]
  by (simp add: apply_auth_servers_def) (simp add: limiters_of_def)

lemma apply_token_and_domain_limiters:
  "limiters_of (apply_token_and_domain fc cfg) = limiters_of cfg"
  by (simp add: apply_token_and_domain_def ApplyToken_def limiters_of_def Let_def)

lemma ConfigureBolt_limiters: "limiters_of (ConfigureBolt env cfg d) = limiters_of cfg"
  by (simp add: ConfigureBolt_def limiters_of_def Let_def)

lemma ConfigureETCD_limiters:
  "limiters_of (fst (ConfigureETCD wrap env cfg d peers key)) = limiters_of cfg"
  by (simp add: ConfigureETCD_def limiters_of_def Let_def split: prod.splits option.splits)

lemma apply_storage_limiters:
  "limiters_of (fst (apply_storage wrap env fc cfg)) = limiters_of cfg"
  using ConfigureETCD_limiters [of wrap env cfg "DirName (Storage fc)" "Peers (Storage fc)"
      "Prefix (Storage fc)"]
  by (auto simp: apply_storage_def Let_def ConfigureBolt_limiters
      split: prod.splits option.splits)

lemma limiter_loop_cfg: "snd (limiter_loop fc cfg) = cfg"
  by (simp add: limiter_loop_def)

lemma apply_proxy_section_limiters:
  "limiters_of (fst (apply_proxy_section wrap env fc cfg)) = limiters_of cfg"
  unfolding apply_proxy_section_def
  by (intro andThen_preserves [where P = "\<lambda>c. limiters_of c = limiters_of cfg"])
     (simp_all add: limiters_of_def split: sum.splits)

lemma apply_auth_section_limiters:
  "limiters_of (fst (apply_auth_section wrap env fc cfg)) = limiters_of cfg"
  by (simp add: apply_auth_section_def limiters_of_def split: sum.splits)

lemma apply_ssh_section_limiters:
  "limiters_of (fst (apply_ssh_section wrap env fc cfg)) = limiters_of cfg"
  unfolding apply_ssh_section_def
  by (intro andThen_preserves [where P = "\<lambda>c. limiters_of c = limiters_of cfg"])
     (simp_all add: limiters_of_def apply_ssh_labels_def Let_def split: sum.splits option.splits)

lemma applyFileConfig_limiters_of:
  "limiters_of (fst (fst (applyFileConfig wrap env fco st))) = limiters_of (fst st)"
proof (cases fco)
  case None
  then show ?thesis by (simp add: applyFileConfig_def)
next
  case (Some fc)
  have step: "limiters_of (fst (fst (on_cfg f s))) = limiters_of (fst st)"
    if "limiters_of (fst s) = limiters_of (fst st)"
      and "\<And>cfg. limiters_of (fst (f cfg)) = limiters_of cfg" for f s
    using on_cfg_limiters [of f s] that by simp
  show ?thesis
    unfolding applyFileConfig_def Some option.case
    by (intro andThen_preserves [where P = "\<lambda>s. limiters_of (fst s) = limiters_of (fst st)"] step)
       (simp_all add: on_log_limiters apply_roles_limiters apply_advertise_ip_limiters
         apply_auth_servers_limiters apply_token_and_domain_limiters apply_storage_limiters
         limiter_loop_cfg apply_proxy_section_limiters apply_auth_section_limiters
         apply_ssh_section_limiters)
qed

text \<open>
  Claim C7 (what the code does).  Whatever the file configuration and whatever the
  outcome, \<open>applyFileConfig\<close> leaves the SSH, auth and proxy limiters of the service
  configuration exactly as they were: the limits and rates of the file reach only the
  loop variable of the throttling section.
\<close>

theorem applyFileConfig_limiters_unchanged:
  "SSHConfig.Limiter (Config.SSH (fst (fst (applyFileConfig wrap env fco (cfg, lg)))))
     = SSHConfig.Limiter (Config.SSH cfg)
   \<and> AuthConfig.Limiter (Config.Auth (fst (fst (applyFileConfig wrap env fco (cfg, lg)))))
     = AuthConfig.Limiter (Config.Auth cfg)
   \<and> ProxyConfig.Limiter (Config.Proxy (fst (fst (applyFileConfig wrap env fco (cfg, lg)))))
     = ProxyConfig.Limiter (Config.Proxy cfg)"
  using applyFileConfig_limiters_of [of wrap env fco "(cfg, lg)"]
  by (simp add: limiters_of_def)

text \<open>
  The loop variable does receive the limits of the file: each of the three values the
  loop works on ends with the connection and user limits of the file and with the rates of
  the file appended.
\<close>

lemma limiter_loop_body_Rates:
  "LimiterConfig.Rates (foldl (\<lambda>l rate. l\<lparr>LimiterConfig.Rates := LimiterConfig.Rates l @
                  [\<lparr>Rate.Period = FileRate.Period rate,
                    Rate.Average = FileRate.Average rate,
                    Rate.Burst = FileRate.Burst rate\<rparr>]\<rparr>) l rs)
     = LimiterConfig.Rates l @ map (\<lambda>rate. \<lparr>Rate.Period = FileRate.Period rate,
                    Rate.Average = FileRate.Average rate,
                    Rate.Burst = FileRate.Burst rate\<rparr>) rs
   \<and> LimiterConfig.MaxConnections (foldl (\<lambda>l rate. l\<lparr>LimiterConfig.Rates := LimiterConfig.Rates l @
                  [\<lparr>Rate.Period = FileRate.Period rate,
                    Rate.Average = FileRate.Average rate,
                    Rate.Burst = FileRate.Burst rate\<rparr>]\<rparr>) l rs) = LimiterConfig.MaxConnections l
   \<and> MaxNumberOfUsers (foldl (\<lambda>l rate. l\<lparr>LimiterConfig.Rates := LimiterConfig.Rates l @
                  [\<lparr>Rate.Period = FileRate.Period rate,
                    Rate.Average = FileRate.Average rate,
                    Rate.Burst = FileRate.Burst rate\<rparr>]\<rparr>) l rs) = MaxNumberOfUsers l"
  by (induction rs arbitrary: l) simp_all

lemma limiter_loop_locals:
  assumes "l \<in> set (fst (limiter_loop fc cfg))"
  shows "(0 < FileLimits.MaxConnections (Limits fc)
            \<longrightarrow> LimiterConfig.MaxConnections l = FileLimits.MaxConnections (Limits fc))
       \<and> (0 < MaxUsers (Limits fc) \<longrightarrow> MaxNumberOfUsers l = MaxUsers (Limits fc))"
  using assms
  by (auto simp: limiter_loop_def limiter_loop_body_def Let_def limiter_loop_body_Rates)

text \<open>
  At a concrete input: the default configuration allows 1000 connections and 250 users
  per service; after applying a file that asks for 5 connections, 7 users and one rate,
  the SSH limiter still allows 1000 connections and 250 users and has no rate.
\<close>

lemma applyFileConfig_limits_ignored:
  "MakeDefaultConfig Env_plain = Some cfg \<Longrightarrow>
   applyFileConfig wrap Env_plain (Some FileConfig_limits_only) (cfg, LogState_initial) = (st', err) \<Longrightarrow>
   err = None
   \<and> LimiterConfig.MaxConnections (SSHConfig.Limiter (Config.SSH (fst st'))) = 1000
   \<and> MaxNumberOfUsers (SSHConfig.Limiter (Config.SSH (fst st'))) = 250
   \<and> LimiterConfig.Rates (SSHConfig.Limiter (Config.SSH (fst st'))) = []"
proof -
  assume dflt: "MakeDefaultConfig Env_plain = Some cfg"
    and run: "applyFileConfig wrap Env_plain (Some FileConfig_limits_only) (cfg, LogState_initial) = (st', err)"
  have before: "SSHConfig.Limiter (Config.SSH cfg)
      = \<lparr>Rates = [], MaxConnections = 1000, MaxNumberOfUsers = 250\<rparr>"
    using dflt
    by (elim MakeDefaultConfig_Some)
       (simp add: ApplyDefaults_ssh_def Config_zero_def ConfigureLimiter_def
         LimiterConfig_zero_def LimiterMaxConnections_def LimiterMaxConcurrentUsers_def)
  have same: "SSHConfig.Limiter (Config.SSH (fst st')) = SSHConfig.Limiter (Config.SSH cfg)"
    using applyFileConfig_limiters_of [of wrap Env_plain "Some FileConfig_limits_only"
        "(cfg, LogState_initial)"] run
    by (simp add: limiters_of_def)
  have ok: "err = None"
    using run
    by (simp add: applyFileConfig_def andThen_def on_cfg_def on_log_def FileConfig_limits_only_def
        apply_advertise_ip_def apply_auth_servers_def apply_storage_def BoltBackendType_def
        ETCDBackendType_def apply_logger_output_def apply_logger_severity_def ToLower_def
        apply_proxy_section_def apply_auth_section_def apply_ssh_section_def Let_def
        split: prod.splits)
  from before same ok show ?thesis by simp
qed

section \<open>Command label specifications\<close>

text \<open>
  The closure in one call; then the building pass of \<^verbatim>\<open>strings.FieldsFunc\<close> under this
  closure, which splits where the spec's reading puts the separators, and the counting
  pass, which counts the fields the building pass returns from the same state and
  leaves the closure in its initial state when the double quotes are balanced.
\<close>

lemma quote_closure_call:
  "quote_closure q r = (IsSpace r \<and> \<not> q, if r = 0x22 then \<not> q else q)"
proof -
  have "\<not> IsSpace 0x22"
    by (simp add: IsSpace_def)
  then show ?thesis
    by (auto simp: quote_closure_def)
qed

lemma fields_loop_flags:
  "fields_loop quote_closure q cur rs =
     split_at_flags cur
       (zip (map (\<lambda>i. IsSpace (fst (rs ! i)) \<and> (even (quote_count (take i rs)) \<longleftrightarrow> \<not> q))
               [0..<length rs]) (map snd rs))"
proof (induction rs arbitrary: q cur)
  case Nil
  then show ?case by simp
next
  case (Cons x xs)
  obtain r piece where x: "x = (r, piece)"
    by (cases x)
  define q' where "q' = (if r = 0x22 then \<not> q else q)"
  define sep where "sep = (IsSpace r \<and> \<not> q)"
  have call: "quote_closure q r = (sep, q')"
    by (simp add: quote_closure_call sep_def q'_def)
  have code: "fields_loop quote_closure q cur (x # xs) =
      (if sep then (case cur of None \<Rightarrow> [] | Some field \<Rightarrow> [field])
                     @ fields_loop quote_closure q' None xs
       else fields_loop quote_closure q'
              (Some ((case cur of None \<Rightarrow> [] | Some field \<Rightarrow> field) @ piece)) xs)"
    by (simp add: x call)
  have flags: "zip (map (\<lambda>i. IsSpace (fst ((x # xs) ! i))
                      \<and> (even (quote_count (take i (x # xs))) \<longleftrightarrow> \<not> q))
                 [0..<length (x # xs)]) (map snd (x # xs))
      = (sep, piece) # zip (map (\<lambda>i. IsSpace (fst (xs ! i))
                      \<and> (even (quote_count (take i xs)) \<longleftrightarrow> \<not> q'))
                 [0..<length xs]) (map snd xs)"
    by (simp add: map_upt_Suc sep_def q'_def x quote_count_def del: upt_Suc)
  show ?case
    unfolding code flags by (simp add: Cons.IH)
qed

lemma fields_loop_shell_tokens:
  "fields_loop quote_closure False None (runes s) = shell_tokens s"
proof -
  have "is_token_separator (runes s)
      = (\<lambda>i. IsSpace (fst (runes s ! i)) \<and> even (quote_count (take i (runes s))))"
    by (rule ext) (simp add: is_token_separator_def)
  then show ?thesis
    by (simp add: shell_tokens_def fields_loop_flags)
qed

lemma count_fields_length:
  "fst (count_fields f st (cur \<noteq> None) rs) + (if cur \<noteq> None then 1 else 0)
     = length (fields_loop f st cur rs)"
proof (induction rs arbitrary: st cur)
  case Nil
  then show ?case by (simp split: option.splits)
next
  case (Cons x xs)
  obtain r piece where x: "x = (r, piece)"
    by (cases x)
  obtain sep st' where call: "f st r = (sep, st')"
    by (cases "f st r")
  show ?case
  proof (cases sep)
    case True
    have "fst (count_fields f st (cur \<noteq> None) (x # xs)) = fst (count_fields f st' False xs)"
      by (simp add: x call True split: prod.splits)
    moreover have "length (fields_loop f st cur (x # xs))
        = (if cur \<noteq> None then 1 else 0) + length (fields_loop f st' None xs)"
      by (simp add: x call True split: option.splits)
    moreover have "fst (count_fields f st' False xs) = length (fields_loop f st' None xs)"
      using Cons.IH [of st' None] by simp
    ultimately show ?thesis by simp
  next
    case False
    define cur' where "cur' = Some ((case cur of None \<Rightarrow> [] | Some field \<Rightarrow> field) @ piece)"
    have "fst (count_fields f st (cur \<noteq> None) (x # xs))
        = (if cur = None then Suc (fst (count_fields f st' True xs))
           else fst (count_fields f st' True xs))"
      by (simp add: x call False split: prod.splits)
    moreover have "length (fields_loop f st cur (x # xs)) = length (fields_loop f st' cur' xs)"
      by (simp add: x call False cur'_def)
    moreover have "fst (count_fields f st' True xs) + 1 = length (fields_loop f st' cur' xs)"
      using Cons.IH [of st' cur'] by (simp add: cur'_def)
    ultimately show ?thesis by simp
  qed
qed

lemma count_fields_state:
  "snd (count_fields quote_closure q inField rs) = (if even (quote_count rs) then q else \<not> q)"
proof (induction rs arbitrary: q inField)
  case Nil
  then show ?case by (simp add: quote_count_def)
next
  case (Cons x xs)
  obtain r piece where x: "x = (r, piece)"
    by (cases x)
  define q' where "q' = (if r = 0x22 then \<not> q else q)"
  have "snd (count_fields quote_closure q inField (x # xs))
      = snd (count_fields quote_closure q' (\<not> (IsSpace r \<and> \<not> q)) xs)"
    by (simp add: x quote_closure_call q'_def split: prod.splits)
  also have "\<dots> = (if even (quote_count xs) then q' else \<not> q')"
    by (rule Cons.IH)
  also have "\<dots> = (if even (quote_count (x # xs)) then q else \<not> q)"
    by (simp add: x q'_def quote_count_def)
  finally show ?case .
qed

lemma FieldsFunc_shell_tokens:
  assumes "impl = OnePass \<or> even (quote_count (runes s))"
  shows "FieldsFunc impl quote_closure False s = Some (shell_tokens s)"
proof (cases impl)
  case OnePass
  then show ?thesis
    by (simp add: FieldsFunc_def fields_loop_shell_tokens)
next
  case TwoPasses
  with assms have balanced: "even (quote_count (runes s))"
    by simp
  obtain n st' where first: "count_fields quote_closure False False (runes s) = (n, st')"
    by (cases "count_fields quote_closure False False (runes s)")
  have "st' = False"
    using count_fields_state [of False False "runes s"] balanced first by simp
  moreover have "n = length (fields_loop quote_closure False None (runes s))"
    using count_fields_length [of quote_closure False None "runes s"] first by simp
  ultimately show ?thesis
    by (simp add: FieldsFunc_def TwoPasses first fields_loop_shell_tokens)
qed

text \<open>
  With an odd number of double quotes the two implementations differ: the counting pass
  leaves the quote open, so the second pass starts inside a quotation.  On the first
  text below it finds fewer fields than were counted and leaves an empty string at the
  end; on the second it finds more and panics.
\<close>

lemma FieldsFunc_unbalanced_quote:
  "FieldsFunc OnePass quote_closure False (''a '' @ [CHR 0x22] @ ''b'')
     = Some [''a'', [CHR 0x22] @ ''b'']
   \<and> FieldsFunc TwoPasses quote_closure False (''a '' @ [CHR 0x22] @ ''b'')
     = Some [''a '' @ [CHR 0x22] @ ''b'', []]
   \<and> FieldsFunc OnePass quote_closure False ([CHR 0x22] @ ''a b'')
     = Some [[CHR 0x22] @ ''a b'']
   \<and> FieldsFunc TwoPasses quote_closure False ([CHR 0x22] @ ''a b'') = None"
  by code_simp

lemma Trim_content:
  assumes "set lb \<subseteq> {CHR ''['', CHR '']''}" and "set rb \<subseteq> {CHR ''['', CHR '']''}"
    and "content = [] \<or> hd content \<notin> {CHR ''['', CHR '']''} \<and> last content \<notin> {CHR ''['', CHR '']''}"
  shows "Trim (lb @ content @ rb) ''[]'' = content"
proof (cases "content = []")
  case True
  have "\<forall>c \<in> set (lb @ [] @ rb). c \<in> set ''[]''"
    using assms(1,2) by auto
  then have front: "dropWhile (\<lambda>c. c \<in> set ''[]'') (lb @ [] @ rb) = []"
    by (simp only: dropWhile_eq_Nil_conv)
  show ?thesis
    unfolding Trim_def True front by simp
next
  case False
  with assms(3) have ends: "hd content \<notin> set ''[]''" "last content \<notin> set ''[]''"
    by auto
  have front: "dropWhile (\<lambda>c. c \<in> set ''[]'') (lb @ content @ rb) = content @ rb"
  proof -
    have "dropWhile (\<lambda>c. c \<in> set ''[]'') (lb @ content @ rb)
        = dropWhile (\<lambda>c. c \<in> set ''[]'') (content @ rb)"
      using assms(1) by (intro dropWhile_append2) auto
    also have "\<dots> = content @ rb"
      using False ends(1) by (cases content) auto
    finally show ?thesis .
  qed
  have rear: "dropWhile (\<lambda>c. c \<in> set ''[]'') (rev (content @ rb)) = rev content"
  proof -
    have "dropWhile (\<lambda>c. c \<in> set ''[]'') (rev rb @ rev content)
        = dropWhile (\<lambda>c. c \<in> set ''[]'') (rev content)"
      using assms(2) by (intro dropWhile_append2) auto
    also have "\<dots> = rev content"
      using False ends(2) by (cases content rule: rev_cases) auto
    finally show ?thesis by simp
  qed
  show ?thesis
    unfolding Trim_def front rear by simp
qed

lemma IndexRune_first:
  assumes "r \<notin> set d"
  shows "IndexRune (d @ r # rest) r = int (length d)"
proof -
  have "takeWhile (\<lambda>c. c \<noteq> r) (d @ r # rest) = d"
    using assms by (induction d) auto
  then show ?thesis by (simp add: IndexRune_def)
qed

lemma isCmdLabelSpec_enclosed:
  assumes "5 < length spec" and "hd spec = CHR ''[''" and "last spec = CHR '']''"
  shows "isCmdLabelSpec impl wrap ParseDuration spec =
     (let invalidSpecError = BadParameter ''label''
            (''invalid command label spec: '' @ [CHR 0x27] @ spec @ [CHR 0x27]);
          content = Trim spec ''[]'';
          idx = IndexRune content CHR '':''
      in if idx < 0 then Some (None, wrap (Some invalidSpecError))
         else
           (case ParseDuration (take (nat idx) content) of
              Inl err \<Rightarrow> Some (None, wrap (Some invalidSpecError))
            | Inr period \<Rightarrow>
                if drop (nat idx + 1) content = [] then Some (None, wrap (Some invalidSpecError))
                else
                  (case FieldsFunc impl quote_closure False (drop (nat idx + 1) content) of
                     None \<Rightarrow> None
                   | Some command \<Rightarrow>
                       Some (Some \<lparr>CommandLabel.Period = period, CommandLabel.Command = command,
                                   Result = []\<rparr>, None))))"
proof -
  from assms(1) have "spec \<noteq> []" by auto
  then have "spec ! 0 = CHR ''['' \<and> spec ! (length spec - 1) = CHR '']''"
    using assms(2,3) by (simp add: hd_conv_nth last_conv_nth)
  with assms(1) show ?thesis
    by (simp add: isCmdLabelSpec_def Let_def split: sum.splits)
qed

lemma isCmdLabelSpec_no_colon:
  assumes "5 < length spec" and "hd spec = CHR ''[''" and "last spec = CHR '']''"
    and "Trim spec ''[]'' = content" and "CHR '':'' \<notin> set content"
  shows "isCmdLabelSpec impl wrap ParseDuration spec =
     Some (None, wrap (Some (BadParameter ''label''
        (''invalid command label spec: '' @ [CHR 0x27] @ spec @ [CHR 0x27]))))"
proof -
  have "IndexRune content CHR '':'' = - 1"
    using assms(5) by (simp add: IndexRune_def)
  then show ?thesis
    by (simp add: isCmdLabelSpec_enclosed [OF assms(1-3)] assms(4) Let_def)
qed

lemma isCmdLabelSpec_colon:
  assumes "5 < length spec" and "hd spec = CHR ''[''" and "last spec = CHR '']''"
    and "Trim spec ''[]'' = d @ '':'' @ cmd" and "CHR '':'' \<notin> set d"
  shows "isCmdLabelSpec impl wrap ParseDuration spec =
     (case ParseDuration d of
        Inl err \<Rightarrow> Some (None, wrap (Some (BadParameter ''label''
            (''invalid command label spec: '' @ [CHR 0x27] @ spec @ [CHR 0x27]))))
      | Inr period \<Rightarrow>
          if cmd = [] then Some (None, wrap (Some (BadParameter ''label''
            (''invalid command label spec: '' @ [CHR 0x27] @ spec @ [CHR 0x27]))))
          else
            (case FieldsFunc impl quote_closure False cmd of
               None \<Rightarrow> None
             | Some command \<Rightarrow>
                 Some (Some \<lparr>CommandLabel.Period = period, CommandLabel.Command = command,
                             Result = []\<rparr>, None)))"
proof -
  have idx: "IndexRune (d @ CHR '':'' # cmd) CHR '':'' = int (length d)"
    by (rule IndexRune_first [OF assms(5)])
  show ?thesis
    by (simp add: isCmdLabelSpec_enclosed [OF assms(1-3)] assms(4) Let_def idx split: sum.splits)
qed

lemma isCmdLabelSpec_not_enclosed:
  assumes "length spec \<le> 5 \<or> hd spec \<noteq> CHR ''['' \<or> last spec \<noteq> CHR '']''"
  shows "isCmdLabelSpec impl wrap ParseDuration spec = Some (None, None)"
proof (cases "5 < length spec")
  case True
  then have "spec \<noteq> []" by auto
  then have "spec ! 0 = hd spec" "spec ! (length spec - 1) = last spec"
    by (simp_all add: hd_conv_nth last_conv_nth)
  with assms True show ?thesis
    by (auto simp: isCmdLabelSpec_def)
next
  case False
  then show ?thesis by (simp add: isCmdLabelSpec_def)
qed

text \<open>On ASCII text every byte is a code point of its own.\<close>

lemma runes_ascii:
  assumes "\<forall>c \<in> set s. (of_char c :: nat) < 0x80"
  shows "runes s = map (\<lambda>c. (of_char c, [c])) s"
  using assms by (induction s) simp_all

text \<open>
  Claim C6 (amended).  Let a label value be longer than five bytes, start with \<^verbatim>\<open>[\<close> and
  end with \<^verbatim>\<open>]\<close>, and let \<open>content\<close> be the value without its leading and trailing
  brackets, all of them: the value is \<open>lb @ content @ rb\<close> where \<open>lb\<close> and \<open>rb\<close> consist of
  brackets and \<open>content\<close> neither starts nor ends with one.  If \<open>content\<close> has no colon,
  \<open>isCmdLabelSpec\<close> returns no label and the bad-parameter error for the label, passed
  through \<^verbatim>\<open>trace.Wrap\<close>.  Otherwise let \<open>d\<close> be the part of \<open>content\<close> before its first
  colon and \<open>cmd\<close> the part after it.  If \<open>d\<close> does not parse as a duration, or \<open>cmd\<close> is
  empty, the result is the same error.  If \<open>d\<close> parses as the duration \<open>p\<close> and \<open>cmd\<close> is
  not empty, the result is the command label with period \<open>p\<close> and with \<open>cmd\<close> split at
  Unicode white space outside double quotes as its command, and no error; this holds
  when \<^verbatim>\<open>strings.FieldsFunc\<close> works in one pass, and for the implementation in two
  passes when \<open>cmd\<close> has an even number of double quotes.  For a value of five bytes or
  fewer, or one that does not start with \<^verbatim>\<open>[\<close> or does not end with \<^verbatim>\<open>]\<close>, the result is
  neither a label nor an error.
\<close>

theorem isCmdLabelSpec_amended:
  "(length spec \<le> 5 \<or> hd spec \<noteq> CHR ''['' \<or> last spec \<noteq> CHR '']''
      \<longrightarrow> isCmdLabelSpec impl wrap ParseDuration spec = Some (None, None))
   \<and> (5 < length spec \<and> hd spec = CHR ''['' \<and> last spec = CHR '']''
       \<and> spec = lb @ content @ rb
       \<and> set lb \<subseteq> {CHR ''['', CHR '']''} \<and> set rb \<subseteq> {CHR ''['', CHR '']''}
       \<and> (content = []
          \<or> hd content \<notin> {CHR ''['', CHR '']''} \<and> last content \<notin> {CHR ''['', CHR '']''})
      \<longrightarrow> (CHR '':'' \<notin> set content
            \<longrightarrow> isCmdLabelSpec impl wrap ParseDuration spec
                = Some (None, wrap (Some (BadParameter ''label''
                    (''invalid command label spec: '' @ [CHR 0x27] @ spec @ [CHR 0x27])))))
        \<and> (content = d @ '':'' @ cmd \<and> CHR '':'' \<notin> set d \<and> ParseDuration d = Inl e
            \<longrightarrow> isCmdLabelSpec impl wrap ParseDuration spec
                = Some (None, wrap (Some (BadParameter ''label''
                    (''invalid command label spec: '' @ [CHR 0x27] @ spec @ [CHR 0x27])))))
        \<and> (content = d @ '':'' @ cmd \<and> CHR '':'' \<notin> set d \<and> cmd = []
            \<longrightarrow> isCmdLabelSpec impl wrap ParseDuration spec
                = Some (None, wrap (Some (BadParameter ''label''
                    (''invalid command label spec: '' @ [CHR 0x27] @ spec @ [CHR 0x27])))))
        \<and> (content = d @ '':'' @ cmd \<and> CHR '':'' \<notin> set d \<and> ParseDuration d = Inr p
             \<and> cmd \<noteq> [] \<and> (impl = OnePass \<or> even (quote_count (runes cmd)))
            \<longrightarrow> isCmdLabelSpec impl wrap ParseDuration spec
                = Some (Some \<lparr>CommandLabel.Period = p, CommandLabel.Command = shell_tokens cmd,
                              Result = []\<rparr>, None)))"
proof (intro conjI impI)
  assume "length spec \<le> 5 \<or> hd spec \<noteq> CHR ''['' \<or> last spec \<noteq> CHR '']''"
  then show "isCmdLabelSpec impl wrap ParseDuration spec = Some (None, None)"
    by (rule isCmdLabelSpec_not_enclosed)
next
  assume enclosed: "5 < length spec \<and> hd spec = CHR ''['' \<and> last spec = CHR '']''
       \<and> spec = lb @ content @ rb
       \<and> set lb \<subseteq> {CHR ''['', CHR '']''} \<and> set rb \<subseteq> {CHR ''['', CHR '']''}
       \<and> (content = []
          \<or> hd content \<notin> {CHR ''['', CHR '']''} \<and> last content \<notin> {CHR ''['', CHR '']''})"
  then have guard: "5 < length spec" "hd spec = CHR ''[''" "last spec = CHR '']''"
    by blast+
  from enclosed have trim: "Trim spec ''[]'' = content"
    using Trim_content [of lb rb content] by simp
  {
    assume "CHR '':'' \<notin> set content"
    then show "isCmdLabelSpec impl wrap ParseDuration spec
        = Some (None, wrap (Some (BadParameter ''label''
            (''invalid command label spec: '' @ [CHR 0x27] @ spec @ [CHR 0x27]))))"
      by (rule isCmdLabelSpec_no_colon [OF guard trim])
  next
    assume h: "content = d @ '':'' @ cmd \<and> CHR '':'' \<notin> set d \<and> ParseDuration d = Inl e"
    with trim have "Trim spec ''[]'' = d @ '':'' @ cmd" "CHR '':'' \<notin> set d"
      by simp_all
    from isCmdLabelSpec_colon [OF guard this, of impl wrap ParseDuration] h
    show "isCmdLabelSpec impl wrap ParseDuration spec
        = Some (None, wrap (Some (BadParameter ''label''
            (''invalid command label spec: '' @ [CHR 0x27] @ spec @ [CHR 0x27]))))"
      by simp
  next
    assume h: "content = d @ '':'' @ cmd \<and> CHR '':'' \<notin> set d \<and> cmd = []"
    with trim have "Trim spec ''[]'' = d @ '':'' @ cmd" "CHR '':'' \<notin> set d"
      by simp_all
    from isCmdLabelSpec_colon [OF guard this, of impl wrap ParseDuration] h
    show "isCmdLabelSpec impl wrap ParseDuration spec
        = Some (None, wrap (Some (BadParameter ''label''
            (''invalid command label spec: '' @ [CHR 0x27] @ spec @ [CHR 0x27]))))"
      by (simp split: sum.splits)
  next
    assume h: "content = d @ '':'' @ cmd \<and> CHR '':'' \<notin> set d \<and> ParseDuration d = Inr p
        \<and> cmd \<noteq> [] \<and> (impl = OnePass \<or> even (quote_count (runes cmd)))"
    with trim have "Trim spec ''[]'' = d @ '':'' @ cmd" "CHR '':'' \<notin> set d"
      by simp_all
    moreover from h have "FieldsFunc impl quote_closure False cmd = Some (shell_tokens cmd)"
      by (intro FieldsFunc_shell_tokens) simp
    ultimately show "isCmdLabelSpec impl wrap ParseDuration spec
        = Some (Some \<lparr>CommandLabel.Period = p, CommandLabel.Command = shell_tokens cmd,
                      Result = []\<rparr>, None)"
      using isCmdLabelSpec_colon [OF guard, of d cmd impl wrap ParseDuration] h by simp
  }
qed

lemma shell_tokens_uname: "shell_tokens ''/bin/uname -m'' = [''/bin/uname'', ''-m'']"
  by code_simp

lemma shell_tokens_quoted:
  "shell_tokens (''echo '' @ [CHR 0x22] @ ''a b'' @ [CHR 0x22] @ '' c'')
     = [''echo'', [CHR 0x22] @ ''a b'' @ [CHR 0x22], ''c'']"
  by code_simp

lemma shell_tokens_no_break_space:
  "shell_tokens [CHR ''a'', CHR 0xC2, CHR 0xA0, CHR ''b''] = [''a'', ''b'']"
  by code_simp

theorem isCmdLabelSpec_amended_witness:
  "isCmdLabelSpec OnePass Wrap_transparent ParseDuration_table ''[1h:/bin/uname -m]''
     = Some (Some \<lparr>CommandLabel.Period = 3600000000000,
                   CommandLabel.Command = [''/bin/uname'', ''-m''], Result = []\<rparr>, None)
   \<and> isCmdLabelSpec TwoPasses Wrap_transparent ParseDuration_table
       (''[1h:echo '' @ [CHR 0x22] @ ''a b'' @ [CHR 0x22] @ '' c]'')
     = Some (Some \<lparr>CommandLabel.Period = 3600000000000,
                   CommandLabel.Command = [''echo'', [CHR 0x22] @ ''a b'' @ [CHR 0x22], ''c''],
                   Result = []\<rparr>, None)
   \<and> isCmdLabelSpec OnePass Wrap_transparent ParseDuration_table
       (''[1h:a'' @ [CHR 0xC2, CHR 0xA0] @ ''b]'')
     = Some (Some \<lparr>CommandLabel.Period = 3600000000000,
                   CommandLabel.Command = [''a'', ''b''], Result = []\<rparr>, None)
   \<and> isCmdLabelSpec OnePass Wrap_transparent ParseDuration_table ''[1x:abc]]''
     = Some (None, Some (BadParameter ''label''
         (''invalid command label spec: '' @ [CHR 0x27] @ ''[1x:abc]]'' @ [CHR 0x27])))
   \<and> isCmdLabelSpec OnePass Wrap_transparent ParseDuration_table ''[x]y:abc]''
     = Some (None, Some (BadParameter ''label''
         (''invalid command label spec: '' @ [CHR 0x27] @ ''[x]y:abc]'' @ [CHR 0x27])))
   \<and> isCmdLabelSpec OnePass Wrap_transparent ParseDuration_table ''[1h30m:]''
     = Some (None, Some (BadParameter ''label''
         (''invalid command label spec: '' @ [CHR 0x27] @ ''[1h30m:]'' @ [CHR 0x27])))
   \<and> isCmdLabelSpec OnePass Wrap_transparent ParseDuration_table ''[abcdef]''
     = Some (None, Some (BadParameter ''label''
         (''invalid command label spec: '' @ [CHR 0x27] @ ''[abcdef]'' @ [CHR 0x27])))
   \<and> isCmdLabelSpec OnePass Wrap_transparent ParseDuration_table ''1h30m:ab'' = Some (None, None)"
proof -
  note inst = isCmdLabelSpec_amended [where wrap = Wrap_transparent
      and ParseDuration = ParseDuration_table]
  note not_enclosed = inst [THEN conjunct1, rule_format]
  note enclosed = inst [THEN conjunct2, rule_format]
  have brackets: "set ''['' \<subseteq> {CHR ''['', CHR '']''}" "set '']'' \<subseteq> {CHR ''['', CHR '']''}"
      "set '']]'' \<subseteq> {CHR ''['', CHR '']''}"
    by simp_all
  have hour: "ParseDuration_table ''1h'' = Inr 3600000000000"
    by (simp add: ParseDuration_table_def duration_unit_defs)

  have ea: "5 < length ''[1h:/bin/uname -m]'' \<and> hd ''[1h:/bin/uname -m]'' = CHR ''[''
      \<and> last ''[1h:/bin/uname -m]'' = CHR '']''
      \<and> ''[1h:/bin/uname -m]'' = ''['' @ ''1h:/bin/uname -m'' @ '']''
      \<and> set ''['' \<subseteq> {CHR ''['', CHR '']''} \<and> set '']'' \<subseteq> {CHR ''['', CHR '']''}
      \<and> (''1h:/bin/uname -m'' = []
         \<or> hd ''1h:/bin/uname -m'' \<notin> {CHR ''['', CHR '']''}
           \<and> last ''1h:/bin/uname -m'' \<notin> {CHR ''['', CHR '']''})"
    by simp
  have la: "''1h:/bin/uname -m'' = ''1h'' @ '':'' @ ''/bin/uname -m'' \<and> CHR '':'' \<notin> set ''1h''
      \<and> ParseDuration_table ''1h'' = Inr 3600000000000 \<and> ''/bin/uname -m'' \<noteq> []
      \<and> (OnePass = OnePass \<or> even (quote_count (runes ''/bin/uname -m'')))"
    using hour by simp
  have ra: "isCmdLabelSpec OnePass Wrap_transparent ParseDuration_table ''[1h:/bin/uname -m]''
     = Some (Some \<lparr>CommandLabel.Period = 3600000000000,
                   CommandLabel.Command = [''/bin/uname'', ''-m''], Result = []\<rparr>, None)"
    using enclosed [where impl = OnePass, OF ea,
        THEN conjunct2, THEN conjunct2, THEN conjunct2, rule_format, OF la]
    by (simp add: shell_tokens_uname)

  define quoted where "quoted = ''echo '' @ [CHR 0x22] @ ''a b'' @ [CHR 0x22] @ '' c''"
  have balanced: "even (quote_count (runes quoted))"
    unfolding quoted_def by code_simp
  have eb: "5 < length (''[1h:'' @ quoted @ '']'') \<and> hd (''[1h:'' @ quoted @ '']'') = CHR ''[''
      \<and> last (''[1h:'' @ quoted @ '']'') = CHR '']''
      \<and> ''[1h:'' @ quoted @ '']'' = ''['' @ (''1h:'' @ quoted) @ '']''
      \<and> set ''['' \<subseteq> {CHR ''['', CHR '']''} \<and> set '']'' \<subseteq> {CHR ''['', CHR '']''}
      \<and> (''1h:'' @ quoted = []
         \<or> hd (''1h:'' @ quoted) \<notin> {CHR ''['', CHR '']''}
           \<and> last (''1h:'' @ quoted) \<notin> {CHR ''['', CHR '']''})"
    by (simp add: quoted_def)
  have lb: "''1h:'' @ quoted = ''1h'' @ '':'' @ quoted \<and> CHR '':'' \<notin> set ''1h''
      \<and> ParseDuration_table ''1h'' = Inr 3600000000000 \<and> quoted \<noteq> []
      \<and> (TwoPasses = OnePass \<or> even (quote_count (runes quoted)))"
    using hour balanced by (simp add: quoted_def)
  have rb: "isCmdLabelSpec TwoPasses Wrap_transparent ParseDuration_table
       (''[1h:echo '' @ [CHR 0x22] @ ''a b'' @ [CHR 0x22] @ '' c]'')
     = Some (Some \<lparr>CommandLabel.Period = 3600000000000,
                   CommandLabel.Command = [''echo'', [CHR 0x22] @ ''a b'' @ [CHR 0x22], ''c''],
                   Result = []\<rparr>, None)"
    using enclosed [where impl = TwoPasses, OF eb,
        THEN conjunct2, THEN conjunct2, THEN conjunct2, rule_format, OF lb]
    by (simp add: shell_tokens_quoted [simplified] quoted_def)

  define spaced where "spaced = [CHR ''a'', CHR 0xC2, CHR 0xA0, CHR ''b'']"
  have ec: "5 < length (''[1h:'' @ spaced @ '']'') \<and> hd (''[1h:'' @ spaced @ '']'') = CHR ''[''
      \<and> last (''[1h:'' @ spaced @ '']'') = CHR '']''
      \<and> ''[1h:'' @ spaced @ '']'' = ''['' @ (''1h:'' @ spaced) @ '']''
      \<and> set ''['' \<subseteq> {CHR ''['', CHR '']''} \<and> set '']'' \<subseteq> {CHR ''['', CHR '']''}
      \<and> (''1h:'' @ spaced = []
         \<or> hd (''1h:'' @ spaced) \<notin> {CHR ''['', CHR '']''}
           \<and> last (''1h:'' @ spaced) \<notin> {CHR ''['', CHR '']''})"
    by (simp add: spaced_def)
  have lc: "''1h:'' @ spaced = ''1h'' @ '':'' @ spaced \<and> CHR '':'' \<notin> set ''1h''
      \<and> ParseDuration_table ''1h'' = Inr 3600000000000 \<and> spaced \<noteq> []
      \<and> (OnePass = OnePass \<or> even (quote_count (runes spaced)))"
    using hour by (simp add: spaced_def)
  have rc: "isCmdLabelSpec OnePass Wrap_transparent ParseDuration_table
       (''[1h:a'' @ [CHR 0xC2, CHR 0xA0] @ ''b]'')
     = Some (Some \<lparr>CommandLabel.Period = 3600000000000,
                   CommandLabel.Command = [''a'', ''b''], Result = []\<rparr>, None)"
    using enclosed [where impl = OnePass, OF ec,
        THEN conjunct2, THEN conjunct2, THEN conjunct2, rule_format, OF lc]
    by (simp add: shell_tokens_no_break_space [simplified] spaced_def)

  have ed: "5 < length ''[1x:abc]]'' \<and> hd ''[1x:abc]]'' = CHR ''['' \<and> last ''[1x:abc]]'' = CHR '']''
      \<and> ''[1x:abc]]'' = ''['' @ ''1x:abc'' @ '']]''
      \<and> set ''['' \<subseteq> {CHR ''['', CHR '']''} \<and> set '']]'' \<subseteq> {CHR ''['', CHR '']''}
      \<and> (''1x:abc'' = []
         \<or> hd ''1x:abc'' \<notin> {CHR ''['', CHR '']''} \<and> last ''1x:abc'' \<notin> {CHR ''['', CHR '']''})"
    by simp
  have ld: "''1x:abc'' = ''1x'' @ '':'' @ ''abc'' \<and> CHR '':'' \<notin> set ''1x''
      \<and> ParseDuration_table ''1x'' = Inl (Underlying ''time: invalid duration 1x'')"
    by (simp add: ParseDuration_table_def)
  have rd: "isCmdLabelSpec OnePass Wrap_transparent ParseDuration_table ''[1x:abc]]''
     = Some (None, Some (BadParameter ''label''
         (''invalid command label spec: '' @ [CHR 0x27] @ ''[1x:abc]]'' @ [CHR 0x27])))"
    using enclosed [where impl = OnePass, OF ed,
        THEN conjunct2, THEN conjunct1, rule_format, OF ld]
    by (simp add: Wrap_transparent_def)

  have ee: "5 < length ''[x]y:abc]'' \<and> hd ''[x]y:abc]'' = CHR ''['' \<and> last ''[x]y:abc]'' = CHR '']''
      \<and> ''[x]y:abc]'' = ''['' @ ''x]y:abc'' @ '']''
      \<and> set ''['' \<subseteq> {CHR ''['', CHR '']''} \<and> set '']'' \<subseteq> {CHR ''['', CHR '']''}
      \<and> (''x]y:abc'' = []
         \<or> hd ''x]y:abc'' \<notin> {CHR ''['', CHR '']''} \<and> last ''x]y:abc'' \<notin> {CHR ''['', CHR '']''})"
    by simp
  have le: "''x]y:abc'' = ''x]y'' @ '':'' @ ''abc'' \<and> CHR '':'' \<notin> set ''x]y''
      \<and> ParseDuration_table ''x]y'' = Inl (Underlying ''time: invalid duration x]y'')"
    by (simp add: ParseDuration_table_def)
  have re: "isCmdLabelSpec OnePass Wrap_transparent ParseDuration_table ''[x]y:abc]''
     = Some (None, Some (BadParameter ''label''
         (''invalid command label spec: '' @ [CHR 0x27] @ ''[x]y:abc]'' @ [CHR 0x27])))"
    using enclosed [where impl = OnePass, OF ee,
        THEN conjunct2, THEN conjunct1, rule_format, OF le]
    by (simp add: Wrap_transparent_def)

  have ef: "5 < length ''[1h30m:]'' \<and> hd ''[1h30m:]'' = CHR ''['' \<and> last ''[1h30m:]'' = CHR '']''
      \<and> ''[1h30m:]'' = ''['' @ ''1h30m:'' @ '']''
      \<and> set ''['' \<subseteq> {CHR ''['', CHR '']''} \<and> set '']'' \<subseteq> {CHR ''['', CHR '']''}
      \<and> (''1h30m:'' = []
         \<or> hd ''1h30m:'' \<notin> {CHR ''['', CHR '']''} \<and> last ''1h30m:'' \<notin> {CHR ''['', CHR '']''})"
    by simp
  have lf: "''1h30m:'' = ''1h30m'' @ '':'' @ [] \<and> CHR '':'' \<notin> set ''1h30m'' \<and> [] = ([] :: string)"
    by simp
  have rf: "isCmdLabelSpec OnePass Wrap_transparent ParseDuration_table ''[1h30m:]''
     = Some (None, Some (BadParameter ''label''
         (''invalid command label spec: '' @ [CHR 0x27] @ ''[1h30m:]'' @ [CHR 0x27])))"
    using enclosed [where impl = OnePass, OF ef,
        THEN conjunct2, THEN conjunct2, THEN conjunct1, rule_format, OF lf]
    by (simp add: Wrap_transparent_def)

  have eg: "5 < length ''[abcdef]'' \<and> hd ''[abcdef]'' = CHR ''['' \<and> last ''[abcdef]'' = CHR '']''
      \<and> ''[abcdef]'' = ''['' @ ''abcdef'' @ '']''
      \<and> set ''['' \<subseteq> {CHR ''['', CHR '']''} \<and> set '']'' \<subseteq> {CHR ''['', CHR '']''}
      \<and> (''abcdef'' = []
         \<or> hd ''abcdef'' \<notin> {CHR ''['', CHR '']''} \<and> last ''abcdef'' \<notin> {CHR ''['', CHR '']''})"
    by simp
  have lg: "CHR '':'' \<notin> set ''abcdef''"
    by simp
  have rg: "isCmdLabelSpec OnePass Wrap_transparent ParseDuration_table ''[abcdef]''
     = Some (None, Some (BadParameter ''label''
         (''invalid command label spec: '' @ [CHR 0x27] @ ''[abcdef]'' @ [CHR 0x27])))"
    using enclosed [where impl = OnePass, OF eg, THEN conjunct1, rule_format, OF lg]
    by (simp add: Wrap_transparent_def)

  have hh: "length ''1h30m:ab'' \<le> 5 \<or> hd ''1h30m:ab'' \<noteq> CHR ''['' \<or> last ''1h30m:ab'' \<noteq> CHR '']''"
    by simp
  have rh: "isCmdLabelSpec OnePass Wrap_transparent ParseDuration_table ''1h30m:ab''
      = Some (None, None)"
    using not_enclosed [where impl = OnePass, OF hh] .
  from ra rb rc rd re rf rg rh show ?thesis
    by (intro conjI)
qed

text \<open>
  Claim C6 as stated fails on short values and on a command that ends in a bracket.
  The value \<^verbatim>\<open>[0:a]\<close> has the form \<^verbatim>\<open>[d:cmd]\<close> with the duration \<^verbatim>\<open>0\<close> and the command
  \<^verbatim>\<open>a\<close>, and the value \<^verbatim>\<open>[1h:]\<close> is bracketed with an empty command part, yet both are
  five bytes long and yield neither a label nor an error.  The value \<^verbatim>\<open>[1h:a]]\<close> has the
  command \<^verbatim>\<open>a]\<close>, and the label returned has the command \<^verbatim>\<open>a\<close>.  This is so for both
  implementations of \<^verbatim>\<open>strings.FieldsFunc\<close>.
\<close>

theorem isCmdLabelSpec_counterexample:
  "ParseDuration_table ''0'' = Inr 0
   \<and> isCmdLabelSpec OnePass Wrap_transparent ParseDuration_table ''[0:a]'' = Some (None, None)
   \<and> isCmdLabelSpec TwoPasses Wrap_transparent ParseDuration_table ''[0:a]'' = Some (None, None)
   \<and> isCmdLabelSpec OnePass Wrap_transparent ParseDuration_table ''[1h:]'' = Some (None, None)
   \<and> isCmdLabelSpec TwoPasses Wrap_transparent ParseDuration_table ''[1h:]'' = Some (None, None)
   \<and> isCmdLabelSpec OnePass Wrap_transparent ParseDuration_table ''[1h:a]]''
       = Some (Some \<lparr>CommandLabel.Period = 3600000000000, CommandLabel.Command = [''a''],
                     Result = []\<rparr>, None)
   \<and> isCmdLabelSpec TwoPasses Wrap_transparent ParseDuration_table ''[1h:a]]''
       = Some (Some \<lparr>CommandLabel.Period = 3600000000000, CommandLabel.Command = [''a''],
                     Result = []\<rparr>, None)"
  by (simp add: isCmdLabelSpec_def ParseDuration_table_def Trim_def IndexRune_def Let_def
      FieldsFunc_def quote_closure_def IsSpace_def duration_unit_defs)

section \<open>Host signature checks against the trust cache\<close>

lemma any_checker_equal_iff: "any_checker_equal signatureKey checkers \<longleftrightarrow> signatureKey \<in> set checkers"
  by (induction checkers) (auto simp: KeysEqual_def)

lemma parse_checkers_Inr:
  "parse_checkers P kbs = Inr keys \<longleftrightarrow> map P kbs = map Inr keys"
proof (induction kbs arbitrary: keys)
  case Nil
  then show ?case by auto
next
  case (Cons kb kbs)
  show ?case
  proof (cases "P kb")
    case (Inl e)
    then show ?thesis by (cases keys) auto
  next
    case (Inr key)
    show ?thesis
    proof (cases "parse_checkers P kbs")
      case (Inl e)
      with Cons.IH [of "tl keys"] Inr show ?thesis
        by (cases keys) auto
    next
      case r: (Inr out)
      with Cons.IH [of out] Cons.IH [of "tl keys"] Inr show ?thesis
        by (cases keys) auto
    qed
  qed
qed

lemma parse_checkers_all_parse:
  "(\<exists>keys. parse_checkers P kbs = Inr keys) \<longleftrightarrow> (\<forall>kb \<in> set kbs. \<exists>key. P kb = Inr key)"
proof (induction kbs)
  case Nil
  then show ?case by simp
next
  case (Cons kb kbs)
  then show ?case
    by (cases "P kb"; cases "parse_checkers P kbs") auto
qed

lemma parse_checkers_set:
  assumes "parse_checkers P kbs = Inr keys"
  shows "key \<in> set keys \<longleftrightarrow> (\<exists>kb \<in> set kbs. P kb = Inr key)"
proof -
  from assms have "map P kbs = map Inr keys"
    by (simp add: parse_checkers_Inr)
  then have "P ` set kbs = Inr ` set keys"
    by (metis set_map)
  then show ?thesis
    by (auto simp: image_iff dest: equalityD1 equalityD2) (metis (no_types) image_iff sum.inject(2))+
qed

lemma first_hit_Cons:
  "(\<exists>i<length (x # xs). (\<forall>j\<le>i. ok ((x # xs) ! j)) \<and> hit ((x # xs) ! i))
     \<longleftrightarrow> ok x \<and> (hit x \<or> (\<exists>i<length xs. (\<forall>j\<le>i. ok (xs ! j)) \<and> hit (xs ! i)))"
  (is "?L \<longleftrightarrow> ?R")
proof
  assume ?L
  then obtain i where i: "i < length (x # xs)" "\<forall>j\<le>i. ok ((x # xs) ! j)" "hit ((x # xs) ! i)"
    by blast
  from i(2) have okx: "ok x" by (auto dest: spec [of _ 0])
  show ?R
  proof (cases i)
    case 0
    with i(3) okx show ?thesis by simp
  next
    case (Suc i')
    have "\<forall>j\<le>i'. ok (xs ! j)"
    proof (intro allI impI)
      fix j assume "j \<le> i'"
      then have "Suc j \<le> i" using Suc by simp
      with i(2) have "ok ((x # xs) ! Suc j)" by blast
      then show "ok (xs ! j)" by simp
    qed
    moreover from i(1,3) Suc have "i' < length xs" "hit (xs ! i')" by simp_all
    ultimately show ?thesis using okx by blast
  qed
next
  assume r: ?R
  then have okx: "ok x" by blast
  from r consider (here) "hit x" | (later) "\<exists>i<length xs. (\<forall>j\<le>i. ok (xs ! j)) \<and> hit (xs ! i)"
    by blast
  then show ?L
  proof cases
    case here
    with okx have "0 < length (x # xs) \<and> (\<forall>j\<le>0. ok ((x # xs) ! j)) \<and> hit ((x # xs) ! 0)"
      by simp
    then show ?thesis by blast
  next
    case later
    then obtain i where i: "i < length xs" "\<forall>j\<le>i. ok (xs ! j)" "hit (xs ! i)"
      by blast
    have "\<forall>j\<le>Suc i. ok ((x # xs) ! j)"
    proof (intro allI impI)
      fix j assume "j \<le> Suc i"
      then show "ok ((x # xs) ! j)"
        using okx i(2) by (cases j) simp_all
    qed
    with i(1,3) have "Suc i < length (x # xs) \<and> (\<forall>j\<le>Suc i. ok ((x # xs) ! j))
        \<and> hit ((x # xs) ! Suc i)"
      by simp
    then show ?thesis by blast
  qed
qed

lemma check_authorities_None_iff:
  assumes sane: "\<And>e. wrap (Some e) \<noteq> None"
  shows "check_authorities wrap P cas signatureKey = None \<longleftrightarrow>
     (\<exists>i<length cas.
        (\<forall>j\<le>i. \<forall>kb \<in> set (CheckingKeys (cas ! j)). \<exists>key. P kb = Inr key)
        \<and> (\<exists>kb \<in> set (CheckingKeys (cas ! i)). P kb = Inr signatureKey))"
proof (induction cas)
  case Nil
  then show ?case by simp
next
  case (Cons ca cas)
  note split = first_hit_Cons [of ca cas
      "\<lambda>c. \<forall>kb \<in> set (CheckingKeys c). \<exists>key. P kb = Inr key"
      "\<lambda>c. \<exists>kb \<in> set (CheckingKeys c). P kb = Inr signatureKey"]
  show ?case
  proof (cases "Checkers P ca")
    case (Inl e)
    then have "\<not> (\<forall>kb \<in> set (CheckingKeys ca). \<exists>key. P kb = Inr key)"
      using parse_checkers_all_parse [of P "CheckingKeys ca"] by (simp add: Checkers_def)
    moreover from Inl sane have "check_authorities wrap P (ca # cas) signatureKey \<noteq> None"
      by simp
    ultimately show ?thesis
      unfolding split by blast
  next
    case (Inr checkers)
    then have parsed: "parse_checkers P (CheckingKeys ca) = Inr checkers"
      by (simp add: Checkers_def)
    then have ok: "\<forall>kb \<in> set (CheckingKeys ca). \<exists>key. P kb = Inr key"
      using parse_checkers_all_parse [of P "CheckingKeys ca"] by blast
    have hit: "any_checker_equal signatureKey checkers
        \<longleftrightarrow> (\<exists>kb \<in> set (CheckingKeys ca). P kb = Inr signatureKey)"
      using parse_checkers_set [OF parsed] by (simp add: any_checker_equal_iff)
    have "check_authorities wrap P (ca # cas) signatureKey = None
        \<longleftrightarrow> any_checker_equal signatureKey checkers
            \<or> check_authorities wrap P cas signatureKey = None"
      using Inr by simp
    then show ?thesis
      unfolding split hit Cons.IH using ok by blast
  qed
qed

lemma check_authorities_no_match:
  assumes "\<forall>ca \<in> set cas. \<forall>kb \<in> set (CheckingKeys ca). \<exists>key. P kb = Inr key \<and> key \<noteq> signatureKey"
  shows "check_authorities wrap P cas signatureKey = Some (Errorf ''no matching authority found'')"
  using assms
proof (induction cas)
  case Nil
  then show ?case by simp
next
  case (Cons ca cas)
  then have ok: "\<forall>kb \<in> set (CheckingKeys ca). \<exists>key. P kb = Inr key"
    by auto
  then obtain checkers where parsed: "parse_checkers P (CheckingKeys ca) = Inr checkers"
    using parse_checkers_all_parse [of P "CheckingKeys ca"] by blast
  have "\<not> any_checker_equal signatureKey checkers"
    using parse_checkers_set [OF parsed, of signatureKey] Cons.prems
    by (auto simp: any_checker_equal_iff)
  with parsed Cons show ?case
    by (simp add: Checkers_def)
qed

lemma CheckHostSignature_opened:
  assumes "open_error bk = None" and "list_error bk = None"
  shows "CheckHostSignature wrap P bk hostId remote (ssh_Certificate certKey signatureKey)
     = check_authorities wrap P (host_authorities bk) signatureKey"
  using assms
  by (simp add: CheckHostSignature_def GetCertAuthorities_def host_authorities_def)

text \<open>
  Claim C1 (amended).  A key that is not a certificate is refused with an error whatever
  the state of the trust cache.  For a certificate, when the cache opens and lists its
  host authorities, \<open>CheckHostSignature\<close> returns nil if and only if the signature key of
  the certificate is byte-equal to a checking key of a stored host authority such that
  every checking key of that authority and of the authorities listed before it parses;
  so, when every stored checking key parses, if and only if the signature key is
  byte-equal to a checking key of some stored host authority.  (\<^verbatim>\<open>trace.Wrap\<close> of an
  error is an error.)
\<close>

theorem CheckHostSignature_amended:
  "CheckHostSignature wrap P bk hostId remote (PlainKey b) = Some (Errorf ''expected certificate'')
   \<and> (open_error bk = None \<and> list_error bk = None \<and> (\<forall>e. wrap (Some e) \<noteq> None) \<longrightarrow>
        (CheckHostSignature wrap P bk hostId remote (ssh_Certificate certKey signatureKey) = None
         \<longleftrightarrow> (\<exists>i<length (host_authorities bk).
                (\<forall>j\<le>i. \<forall>kb \<in> set (CheckingKeys (host_authorities bk ! j)). \<exists>key. P kb = Inr key)
                \<and> (\<exists>kb \<in> set (CheckingKeys (host_authorities bk ! i)).
                      \<exists>key. P kb = Inr key \<and> KeysEqual signatureKey key))))
   \<and> (open_error bk = None \<and> list_error bk = None \<and> (\<forall>e. wrap (Some e) \<noteq> None)
        \<and> (\<forall>ca \<in> set (host_authorities bk). \<forall>kb \<in> set (CheckingKeys ca). \<exists>key. P kb = Inr key) \<longrightarrow>
        (CheckHostSignature wrap P bk hostId remote (ssh_Certificate certKey signatureKey) = None
         \<longleftrightarrow> (\<exists>ca \<in> set (host_authorities bk). \<exists>kb \<in> set (CheckingKeys ca).
                \<exists>key. P kb = Inr key \<and> KeysEqual signatureKey key)))"
proof (intro conjI impI)
  show "CheckHostSignature wrap P bk hostId remote (PlainKey b) = Some (Errorf ''expected certificate'')"
    by (simp add: CheckHostSignature_def)
next
  assume h: "open_error bk = None \<and> list_error bk = None \<and> (\<forall>e. wrap (Some e) \<noteq> None)"
  then have sane: "\<And>e. wrap (Some e) \<noteq> None" by blast
  from h show "CheckHostSignature wrap P bk hostId remote (ssh_Certificate certKey signatureKey) = None
         \<longleftrightarrow> (\<exists>i<length (host_authorities bk).
                (\<forall>j\<le>i. \<forall>kb \<in> set (CheckingKeys (host_authorities bk ! j)). \<exists>key. P kb = Inr key)
                \<and> (\<exists>kb \<in> set (CheckingKeys (host_authorities bk ! i)).
                      \<exists>key. P kb = Inr key \<and> KeysEqual signatureKey key))"
    using check_authorities_None_iff [of wrap P "host_authorities bk" signatureKey, OF sane]
    by (simp add: CheckHostSignature_opened KeysEqual_def)
next
  assume h: "open_error bk = None \<and> list_error bk = None \<and> (\<forall>e. wrap (Some e) \<noteq> None)
        \<and> (\<forall>ca \<in> set (host_authorities bk). \<forall>kb \<in> set (CheckingKeys ca). \<exists>key. P kb = Inr key)"
  then have sane: "\<And>e. wrap (Some e) \<noteq> None" by blast
  from h have all_ok: "\<forall>ca \<in> set (host_authorities bk). \<forall>kb \<in> set (CheckingKeys ca). \<exists>key. P kb = Inr key"
    by blast
  have "(\<exists>i<length (host_authorities bk).
                (\<forall>j\<le>i. \<forall>kb \<in> set (CheckingKeys (host_authorities bk ! j)). \<exists>key. P kb = Inr key)
                \<and> (\<exists>kb \<in> set (CheckingKeys (host_authorities bk ! i)). P kb = Inr signatureKey))
      \<longleftrightarrow> (\<exists>ca \<in> set (host_authorities bk). \<exists>kb \<in> set (CheckingKeys ca). P kb = Inr signatureKey)"
    (is "?L \<longleftrightarrow> ?R")
  proof
    assume ?L
    then show ?R by (metis nth_mem)
  next
    assume ?R
    then obtain ca kb where ca: "ca \<in> set (host_authorities bk)"
      and kb: "kb \<in> set (CheckingKeys ca)" "P kb = Inr signatureKey"
      by blast
    from ca obtain i where i: "i < length (host_authorities bk)" "host_authorities bk ! i = ca"
      by (auto simp: in_set_conv_nth)
    have "\<forall>j\<le>i. \<forall>kb \<in> set (CheckingKeys (host_authorities bk ! j)). \<exists>key. P kb = Inr key"
      using all_ok i(1) by (meson le_less_trans nth_mem)
    with i kb show ?L by blast
  qed
  with h show "CheckHostSignature wrap P bk hostId remote (ssh_Certificate certKey signatureKey) = None
         \<longleftrightarrow> (\<exists>ca \<in> set (host_authorities bk). \<exists>kb \<in> set (CheckingKeys ca).
                \<exists>key. P kb = Inr key \<and> KeysEqual signatureKey key)"
    using check_authorities_None_iff [of wrap P "host_authorities bk" signatureKey, OF sane]
    by (simp add: CheckHostSignature_opened KeysEqual_def)
qed

lemma Wrap_transparent_sane: "\<forall>e. Wrap_transparent (Some e) \<noteq> None"
  by (simp add: Wrap_transparent_def)

lemma host_authorities_single:
  "host_authorities TrustCache_single =
     [\<lparr>DomainName = ''b.example.com'', Type = HostCA, SigningKeys = [], CheckingKeys = [[1, 2, 3]]\<rparr>]"
  by (simp add: host_authorities_def TrustCache_single_def TrustCache_example_def)

theorem CheckHostSignature_amended_witness:
  "CheckHostSignature Wrap_transparent ParseAuthorizedKey_plain TrustCache_single
       ''node'' ''10.0.0.7:3022'' (ssh_Certificate (PlainKey [9]) (PlainKey [1, 2, 3])) = None
   \<and> CheckHostSignature Wrap_transparent ParseAuthorizedKey_plain TrustCache_single
       ''node'' ''10.0.0.7:3022'' (ssh_Certificate (PlainKey [9]) (PlainKey [1, 2, 4])) \<noteq> None
   \<and> CheckHostSignature Wrap_transparent ParseAuthorizedKey_plain TrustCache_single
       ''node'' ''10.0.0.7:3022'' (PlainKey [1, 2, 3]) = Some (Errorf ''expected certificate'')"
proof -
  note inst = CheckHostSignature_amended [where wrap = Wrap_transparent
      and P = ParseAuthorizedKey_plain and bk = TrustCache_single and hostId = "''node''"
      and remote = "''10.0.0.7:3022''" and certKey = "PlainKey [9]"]
  have opened: "open_error TrustCache_single = None \<and> list_error TrustCache_single = None
      \<and> (\<forall>e. Wrap_transparent (Some e) \<noteq> None)"
    using Wrap_transparent_sane
    by (simp add: TrustCache_single_def TrustCache_example_def)
  have parse_all: "\<forall>ca \<in> set (host_authorities TrustCache_single). \<forall>kb \<in> set (CheckingKeys ca).
      \<exists>key. ParseAuthorizedKey_plain kb = Inr key"
    by (simp add: host_authorities_single ParseAuthorizedKey_plain_def)
  have known: "\<exists>ca \<in> set (host_authorities TrustCache_single). \<exists>kb \<in> set (CheckingKeys ca).
      \<exists>key. ParseAuthorizedKey_plain kb = Inr key \<and> KeysEqual (PlainKey [1, 2, 3]) key"
    by (simp add: host_authorities_single ParseAuthorizedKey_plain_def KeysEqual_def)
  have unknown: "\<not> (\<exists>i<length (host_authorities TrustCache_single).
      (\<forall>j\<le>i. \<forall>kb \<in> set (CheckingKeys (host_authorities TrustCache_single ! j)).
          \<exists>key. ParseAuthorizedKey_plain kb = Inr key)
      \<and> (\<exists>kb \<in> set (CheckingKeys (host_authorities TrustCache_single ! i)).
          \<exists>key. ParseAuthorizedKey_plain kb = Inr key \<and> KeysEqual (PlainKey [1, 2, 4]) key))"
    by (simp add: host_authorities_single ParseAuthorizedKey_plain_def KeysEqual_def)
  have accepted: "CheckHostSignature Wrap_transparent ParseAuthorizedKey_plain TrustCache_single
       ''node'' ''10.0.0.7:3022'' (ssh_Certificate (PlainKey [9]) (PlainKey [1, 2, 3])) = None"
    using inst [where signatureKey = "PlainKey [1, 2, 3]", THEN conjunct2, THEN conjunct2]
      opened parse_all known by blast
  have refused: "CheckHostSignature Wrap_transparent ParseAuthorizedKey_plain TrustCache_single
       ''node'' ''10.0.0.7:3022'' (ssh_Certificate (PlainKey [9]) (PlainKey [1, 2, 4])) \<noteq> None"
    using inst [where signatureKey = "PlainKey [1, 2, 4]", THEN conjunct2, THEN conjunct1]
      opened unknown by blast
  have plain: "CheckHostSignature Wrap_transparent ParseAuthorizedKey_plain TrustCache_single
       ''node'' ''10.0.0.7:3022'' (PlainKey [1, 2, 3]) = Some (Errorf ''expected certificate'')"
    using inst [where b = "[1, 2, 3]", THEN conjunct1] .
  from accepted refused plain show ?thesis by (intro conjI)
qed

text \<open>
  Claim C1 as stated fails when a stored checking key does not parse.  The cache holds
  two host authorities; the only checking key of the first is empty and does not parse,
  the checking key of the second is the signature key of the certificate.  The call
  returns the parser's error instead of nil.
\<close>

theorem CheckHostSignature_counterexample:
  "CheckHostSignature Wrap_transparent ParseAuthorizedKey_plain TrustCache_example
       ''node'' ''10.0.0.7:3022'' (ssh_Certificate (PlainKey [9]) (PlainKey [1, 2, 3]))
     = Some (Underlying ''ssh: no key found'')
   \<and> open_error TrustCache_example = None \<and> list_error TrustCache_example = None
   \<and> CertAuthority.Type (authorities TrustCache_example ! 1) = HostCA
   \<and> CheckingKeys (authorities TrustCache_example ! 1) = [[1, 2, 3]]
   \<and> ParseAuthorizedKey_plain [1, 2, 3] = Inr (PlainKey [1, 2, 3])
   \<and> KeysEqual (PlainKey [1, 2, 3]) (PlainKey [1, 2, 3])"
  by (simp add: CheckHostSignature_def GetCertAuthorities_def TrustCache_example_def
      Checkers_def ParseAuthorizedKey_plain_def Wrap_transparent_def KeysEqual_def)

section \<open>The error for an unknown authority\<close>

text \<open>
  Claim C3 (amended).  When the certificate's signature key matches no checking key of
  any stored host authority, and the cache opens and lists its host authorities and
  every stored checking key parses, the error that \<open>CheckHostSignature\<close> returns is the
  plain error that \<^verbatim>\<open>trace.Errorf\<close> builds from the message \<^verbatim>\<open>no matching authority found\<close>;
  it carries no error kind.
\<close>

theorem CheckHostSignature_no_match:
  "open_error bk = None \<and> list_error bk = None
     \<and> (\<forall>ca \<in> set (host_authorities bk). \<forall>kb \<in> set (CheckingKeys ca).
           \<exists>key. P kb = Inr key \<and> \<not> KeysEqual signatureKey key)
   \<longrightarrow> CheckHostSignature wrap P bk hostId remote (ssh_Certificate certKey signatureKey)
         = Some (Errorf ''no matching authority found'')
       \<and> kind_of (Errorf ''no matching authority found'') = None"
proof
  assume h: "open_error bk = None \<and> list_error bk = None
     \<and> (\<forall>ca \<in> set (host_authorities bk). \<forall>kb \<in> set (CheckingKeys ca).
           \<exists>key. P kb = Inr key \<and> \<not> KeysEqual signatureKey key)"
  then have "\<forall>ca \<in> set (host_authorities bk). \<forall>kb \<in> set (CheckingKeys ca).
      \<exists>key. P kb = Inr key \<and> key \<noteq> signatureKey"
    by (auto simp: KeysEqual_def)
  from check_authorities_no_match [OF this, of wrap] h
  show "CheckHostSignature wrap P bk hostId remote (ssh_Certificate certKey signatureKey)
         = Some (Errorf ''no matching authority found'')
       \<and> kind_of (Errorf ''no matching authority found'') = None"
    by (simp add: CheckHostSignature_opened)
qed

theorem CheckHostSignature_no_match_witness:
  "CheckHostSignature Wrap_transparent ParseAuthorizedKey_plain TrustCache_single
       ''node'' ''10.0.0.7:3022'' (ssh_Certificate (PlainKey [9]) (PlainKey [7, 7]))
     = Some (Errorf ''no matching authority found'')"
proof -
  have h: "open_error TrustCache_single = None \<and> list_error TrustCache_single = None
     \<and> (\<forall>ca \<in> set (host_authorities TrustCache_single). \<forall>kb \<in> set (CheckingKeys ca).
           \<exists>key. ParseAuthorizedKey_plain kb = Inr key \<and> \<not> KeysEqual (PlainKey [7, 7]) key)"
  proof (intro conjI)
    show "open_error TrustCache_single = None" "list_error TrustCache_single = None"
      by (simp_all add: TrustCache_single_def TrustCache_example_def)
    show "\<forall>ca \<in> set (host_authorities TrustCache_single). \<forall>kb \<in> set (CheckingKeys ca).
           \<exists>key. ParseAuthorizedKey_plain kb = Inr key \<and> \<not> KeysEqual (PlainKey [7, 7]) key"
      by (simp add: host_authorities_single ParseAuthorizedKey_plain_def KeysEqual_def)
  qed
  from CheckHostSignature_no_match [where wrap = Wrap_transparent
      and P = ParseAuthorizedKey_plain and bk = TrustCache_single and hostId = "''node''"
      and remote = "''10.0.0.7:3022''" and certKey = "PlainKey [9]"
      and signatureKey = "PlainKey [7, 7]", rule_format, OF h]
  show ?thesis by (rule conjunct1)
qed

text \<open>
  Claim C3 as stated fails: for a certificate signed by a key that no stored authority
  has, the error returned is a plain \<^verbatim>\<open>trace.Errorf\<close> error, not one of the kind
  unknown-authority.
\<close>

theorem CheckHostSignature_kind_counterexample:
  "CheckHostSignature Wrap_transparent ParseAuthorizedKey_plain TrustCache_single
       ''node'' ''10.0.0.7:3022'' (ssh_Certificate (PlainKey [9]) (PlainKey [1, 2, 4]))
     = Some (Errorf ''no matching authority found'')
   \<and> kind_of (Errorf ''no matching authority found'') \<noteq> Some unknown_authority"
  by (simp add: CheckHostSignature_def GetCertAuthorities_def TrustCache_single_def
      TrustCache_example_def Checkers_def ParseAuthorizedKey_plain_def KeysEqual_def)

section \<open>Failures while adding host signers\<close>

lemma UpsertCertAuthority_upsert_error:
  "upsert_error (fst (UpsertCertAuthority bk ca)) = upsert_error bk"
  by (simp add: UpsertCertAuthority_def split: option.splits)

lemma upsert_all_failure:
  assumes "\<exists>ca \<in> set hostSigners. upsert_error bk ca \<noteq> None"
  shows "snd (upsert_all wrap bk hostSigners) = wrap None"
  using assms
proof (induction hostSigners arbitrary: bk)
  case Nil
  then show ?case by simp
next
  case (Cons hostSigner rest)
  show ?case
  proof (cases "upsert_error bk hostSigner")
    case None
    then have stored: "UpsertCertAuthority bk hostSigner = (fst (UpsertCertAuthority bk hostSigner), None)"
      by (simp add: UpsertCertAuthority_def)
    from None Cons.prems have "\<exists>ca \<in> set rest. upsert_error bk ca \<noteq> None"
      by auto
    then have "\<exists>ca \<in> set rest. upsert_error (fst (UpsertCertAuthority bk hostSigner)) ca \<noteq> None"
      by (simp add: UpsertCertAuthority_upsert_error)
    from Cons.IH [OF this] show ?thesis
      by (subst upsert_all.simps, subst stored) simp
  next
    case (Some err)
    then show ?thesis
      by (simp add: UpsertCertAuthority_def)
  qed
qed

text \<open>
  Claim C4 (what the code does).  When opening the trust cache fails, and when storing
  fails for some authority in the list, \<open>AddHostSignersToCache\<close> returns
  \<^verbatim>\<open>trace.Wrap(nil)\<close>: the value does not depend on the failure, and it is nil, a report of
  success, for a wrapper that maps nil to nil.
\<close>

theorem AddHostSignersToCache_drops_failure:
  "(open_error bk = Some err \<longrightarrow> snd (AddHostSignersToCache wrap bk hostSigners) = wrap None)
   \<and> (open_error bk = None \<and> (\<exists>ca \<in> set hostSigners. upsert_error bk ca \<noteq> None)
        \<longrightarrow> snd (AddHostSignersToCache wrap bk hostSigners) = wrap None)"
  using upsert_all_failure [of hostSigners bk wrap]
  by (simp add: AddHostSignersToCache_def)

theorem AddHostSignersToCache_drops_failure_witness:
  "snd (AddHostSignersToCache Wrap_transparent
          (TrustCache_single\<lparr>open_error := Some (Underlying ''timeout'')\<rparr>)
          [\<lparr>DomainName = ''c.example.com'', Type = HostCA, SigningKeys = [], CheckingKeys = [[5]]\<rparr>])
     = None
   \<and> snd (AddHostSignersToCache Wrap_transparent TrustCache_full_disk
          [\<lparr>DomainName = ''c.example.com'', Type = HostCA, SigningKeys = [], CheckingKeys = [[5]]\<rparr>])
     = None"
proof -
  have closed: "open_error (TrustCache_single\<lparr>open_error := Some (Underlying ''timeout'')\<rparr>)
      = Some (Underlying ''timeout'')"
    by simp
  have full: "open_error TrustCache_full_disk = None
      \<and> (\<exists>ca \<in> set [\<lparr>DomainName = ''c.example.com'', Type = HostCA, SigningKeys = [],
                       CheckingKeys = [[5]]\<rparr>]. upsert_error TrustCache_full_disk ca \<noteq> None)"
    by (simp add: TrustCache_full_disk_def TrustCache_single_def TrustCache_example_def)
  note inst = AddHostSignersToCache_drops_failure [where wrap = Wrap_transparent
      and hostSigners = "[\<lparr>DomainName = ''c.example.com'', Type = HostCA, SigningKeys = [],
                          CheckingKeys = [[5]]\<rparr>]"]
  from inst [THEN conjunct1, rule_format, OF closed]
    inst [THEN conjunct2, rule_format, OF full]
  show ?thesis
    by (simp add: Wrap_transparent_def)
qed

section \<open>Loading the saved keys\<close>

lemma find_filter_implied:
  assumes "\<And>x. P x \<Longrightarrow> Q x"
  shows "find P (filter Q xs) = find P xs"
  using assms by (induction xs) auto

lemma find_distinct_name:
  assumes "distinct (map DirEntry.Name xs)" and "f \<in> set xs"
  shows "find (\<lambda>e. DirEntry.Name e = DirEntry.Name f) xs = Some f"
  using assms
proof (induction xs)
  case Nil
  then show ?case by simp
next
  case (Cons x xs)
  then show ?case by (cases "x = f") (auto simp: image_iff)
qed

lemma removed_names_Nil: "removed_names Now i [] = {}"
  by (simp add: removed_names_def)

lemma removed_names_Cons:
  "removed_names Now i (f # fs) =
     (if expired_entry Now (i, f) \<and> remove_error f = None
      then insert (DirEntry.Name f) (removed_names Now (Suc i) fs)
      else removed_names Now (Suc i) fs)"
  by (auto simp: removed_names_def)

lemma loadKey_on_disk:
  assumes "lookup_entry dir (DirEntry.Name f) = Some f" and "\<not> IsDir f"
  shows "loadKey wrap dir (DirEntry.Name f) =
     (case Data f of
        Unreadable err \<Rightarrow> (Key_zero, wrap (Some err))
      | Undecodable err \<Rightarrow> (Key_zero, wrap (Some err))
      | Encoded key \<Rightarrow> (key, None))"
  using assms by (simp add: loadKey_def)

lemma os_Remove_on_disk:
  assumes "lookup_entry dir (DirEntry.Name f) = Some f"
  shows "fst (os_Remove dir (DirEntry.Name f)) =
     (if remove_error f = None
      then dir\<lparr>entries := filter (\<lambda>e. DirEntry.Name e \<noteq> DirEntry.Name f) (entries dir)\<rparr>
      else dir)"
  using assms by (auto simp: os_Remove_def split: option.splits)

lemma lookup_after_remove:
  assumes "lookup_entry dir (DirEntry.Name g) = Some g"
    and "DirEntry.Name g \<noteq> DirEntry.Name f"
  shows "lookup_entry
           (dir\<lparr>entries := filter (\<lambda>e. DirEntry.Name e \<noteq> DirEntry.Name f) (entries dir)\<rparr>)
           (DirEntry.Name g) = Some g"
proof -
  have "find (\<lambda>e. DirEntry.Name e = DirEntry.Name g)
          (filter (\<lambda>e. DirEntry.Name e \<noteq> DirEntry.Name f) (entries dir))
        = find (\<lambda>e. DirEntry.Name e = DirEntry.Name g) (entries dir)"
    using assms(2) by (intro find_filter_implied) simp
  with assms(1) show ?thesis
    by (simp add: lookup_entry_def)
qed

lemma filter_removed:
  "filter (\<lambda>e. DirEntry.Name e \<notin> R) (filter (\<lambda>e. DirEntry.Name e \<noteq> n) xs)
     = filter (\<lambda>e. DirEntry.Name e \<notin> insert n R) xs"
  by (induction xs) auto

lemma loadAllKeys_loop_Cons:
  "loadAllKeys_loop wrap Now i (f # fs) (keys, dir) =
     (if is_key_file f then
        (case loadKey wrap dir (DirEntry.Name f) of
           (key, Some err) \<Rightarrow> loadAllKeys_loop wrap Now (Suc i) fs (keys, dir)
         | (key, None) \<Rightarrow>
             if Before (Now i) (Deadline key)
             then loadAllKeys_loop wrap Now (Suc i) fs (keys @ [key], dir)
             else loadAllKeys_loop wrap Now (Suc i) fs
                    (keys, fst (os_Remove dir (DirEntry.Name f))))
      else loadAllKeys_loop wrap Now (Suc i) fs (keys, dir))"
  by (simp add: is_key_file_def)

lemma loadAllKeys_loop_result:
  assumes sane: "\<And>e. wrap (Some e) \<noteq> None"
    and "distinct (map DirEntry.Name files)"
    and "\<forall>f \<in> set files. lookup_entry dir (DirEntry.Name f) = Some f"
  shows "loadAllKeys_loop wrap Now i files (keys, dir) =
     (keys @ concat (map (fresh_key Now) (enumerate i files)),
      dir\<lparr>entries := filter (\<lambda>e. DirEntry.Name e \<notin> removed_names Now i files) (entries dir)\<rparr>)"
  using assms(2,3)
proof (induction files arbitrary: i keys dir)
  case Nil
  then show ?case by (simp add: removed_names_Nil)
next
  case (Cons f fs)
  from Cons.prems(1) have dist: "distinct (map DirEntry.Name fs)"
    by simp
  from Cons.prems(1) have fresh_name: "\<forall>g \<in> set fs. DirEntry.Name g \<noteq> DirEntry.Name f"
    by (auto simp: image_iff)
  from Cons.prems(2) have here: "lookup_entry dir (DirEntry.Name f) = Some f"
    by simp
  from Cons.prems(2) have rest: "\<forall>g \<in> set fs. lookup_entry dir (DirEntry.Name g) = Some g"
    by simp
  note IH = Cons.IH [OF dist]
  show ?case
  proof (cases "is_key_file f")
    case False
    then have "fresh_key Now (i, f) = []" "\<not> expired_entry Now (i, f)"
      by (simp_all add: fresh_key_def expired_entry_def)
    moreover from False have "loadAllKeys_loop wrap Now i (f # fs) (keys, dir)
        = loadAllKeys_loop wrap Now (Suc i) fs (keys, dir)"
      by (simp only: loadAllKeys_loop_Cons if_False)
    ultimately show ?thesis
      using IH [OF rest, of "Suc i" keys] by (simp add: removed_names_Cons)
  next
    case True
    then have regular: "\<not> IsDir f" by (simp add: is_key_file_def)
    note guard = loadAllKeys_loop_Cons [of wrap Now i f fs keys dir, unfolded if_P [OF True]]
    note load = loadKey_on_disk [OF here regular, of wrap]
    show ?thesis
    proof (cases "Data f")
      case (Unreadable err)
      from sane [of err] obtain y where "wrap (Some err) = Some y" by blast
      with Unreadable load have "loadAllKeys_loop wrap Now i (f # fs) (keys, dir)
          = loadAllKeys_loop wrap Now (Suc i) fs (keys, dir)"
        unfolding guard by simp
      moreover from Unreadable have "fresh_key Now (i, f) = []" "\<not> expired_entry Now (i, f)"
        by (simp_all add: fresh_key_def expired_entry_def)
      ultimately show ?thesis
        using IH [OF rest, of "Suc i" keys] by (simp add: removed_names_Cons)
    next
      case (Undecodable err)
      from sane [of err] obtain y where "wrap (Some err) = Some y" by blast
      with Undecodable load have "loadAllKeys_loop wrap Now i (f # fs) (keys, dir)
          = loadAllKeys_loop wrap Now (Suc i) fs (keys, dir)"
        unfolding guard by simp
      moreover from Undecodable have "fresh_key Now (i, f) = []" "\<not> expired_entry Now (i, f)"
        by (simp_all add: fresh_key_def expired_entry_def)
      ultimately show ?thesis
        using IH [OF rest, of "Suc i" keys] by (simp add: removed_names_Cons)
    next
      case (Encoded key)
      show ?thesis
      proof (cases "Before (Now i) (Deadline key)")
        case fresh: True
        with Encoded load have "loadAllKeys_loop wrap Now i (f # fs) (keys, dir)
            = loadAllKeys_loop wrap Now (Suc i) fs (keys @ [key], dir)"
          unfolding guard by simp
        moreover from Encoded fresh True have "fresh_key Now (i, f) = [key]"
            "\<not> expired_entry Now (i, f)"
          by (simp_all add: fresh_key_def expired_entry_def)
        ultimately show ?thesis
          using IH [OF rest, of "Suc i" "keys @ [key]"] by (simp add: removed_names_Cons)
      next
        case old: False
        with Encoded load have step: "loadAllKeys_loop wrap Now i (f # fs) (keys, dir)
            = loadAllKeys_loop wrap Now (Suc i) fs (keys, fst (os_Remove dir (DirEntry.Name f)))"
          unfolding guard by simp
        from Encoded old True have contrib: "fresh_key Now (i, f) = []" "expired_entry Now (i, f)"
          by (simp_all add: fresh_key_def expired_entry_def)
        show ?thesis
        proof (cases "remove_error f")
          case None
          then have removed: "fst (os_Remove dir (DirEntry.Name f))
              = dir\<lparr>entries := filter (\<lambda>e. DirEntry.Name e \<noteq> DirEntry.Name f) (entries dir)\<rparr>"
            using os_Remove_on_disk [OF here] by simp
          have rest': "\<forall>g \<in> set fs. lookup_entry
                (dir\<lparr>entries := filter (\<lambda>e. DirEntry.Name e \<noteq> DirEntry.Name f) (entries dir)\<rparr>)
                (DirEntry.Name g) = Some g"
            using rest fresh_name lookup_after_remove by blast
          show ?thesis
            unfolding step removed
            using IH [OF rest', of "Suc i" keys] contrib None
            by (simp add: removed_names_Cons filter_removed)
        next
          case (Some err)
          then have kept: "fst (os_Remove dir (DirEntry.Name f)) = dir"
            using os_Remove_on_disk [OF here] by simp
          show ?thesis
            unfolding step kept
            using IH [OF rest, of "Suc i" keys] contrib Some
            by (simp add: removed_names_Cons)
        qed
      qed
    qed
  qed
qed

lemma loadAllKeys_result:
  assumes sane: "\<And>e. wrap (Some e) \<noteq> None"
    and "distinct (map DirEntry.Name (entries dir))"
    and "readdir_error dir = None"
  shows "loadAllKeys wrap Now dir =
     ((concat (map (fresh_key Now) (enumerate 0 (entries dir))), None),
      dir\<lparr>entries := filter (\<lambda>e. DirEntry.Name e \<notin> removed_names Now 0 (entries dir))
                              (entries dir)\<rparr>)"
proof -
  have "\<forall>f \<in> set (entries dir). lookup_entry dir (DirEntry.Name f) = Some f"
    using find_distinct_name [OF assms(2)] by (simp add: lookup_entry_def)
  from loadAllKeys_loop_result [where wrap = wrap and files = "entries dir" and dir = dir
      and Now = Now and i = 0 and keys = "[]", OF sane assms(2) this] assms(3)
  show ?thesis
    by (simp add: loadAllKeys_def)
qed

lemma same_name_same_entry:
  assumes "distinct (map DirEntry.Name xs)" and "a \<in> set xs" and "b \<in> set xs"
    and "DirEntry.Name a = DirEntry.Name b"
  shows "a = b"
  using assms by (meson distinct_map inj_onD)

lemma removed_names_iff:
  assumes "distinct (map DirEntry.Name xs)" and "i < length xs"
  shows "DirEntry.Name (xs ! i) \<in> removed_names Now 0 xs
     \<longleftrightarrow> expired_entry Now (i, xs ! i) \<and> remove_error (xs ! i) = None"
proof
  assume "DirEntry.Name (xs ! i) \<in> removed_names Now 0 xs"
  then obtain j g where p: "(j, g) \<in> set (enumerate 0 xs)" "expired_entry Now (j, g)"
      "remove_error g = None" "DirEntry.Name g = DirEntry.Name (xs ! i)"
    by (auto simp: removed_names_def)
  from p(1) have j: "j < length xs" "xs ! j = g"
    by (simp_all add: in_set_enumerate_eq)
  have "DirEntry.Name (xs ! j) = DirEntry.Name (xs ! i)"
    using p(4) j(2) by simp
  with assms j(1) have "j = i"
    by (simp add: nth_eq_iff_index_eq [of "map DirEntry.Name xs" j i, symmetric])
  with p j show "expired_entry Now (i, xs ! i) \<and> remove_error (xs ! i) = None"
    by simp
next
  assume "expired_entry Now (i, xs ! i) \<and> remove_error (xs ! i) = None"
  moreover from assms(2) have "(i, xs ! i) \<in> set (enumerate 0 xs)"
    by (simp add: in_set_enumerate_eq)
  ultimately show "DirEntry.Name (xs ! i) \<in> removed_names Now 0 xs"
    unfolding removed_names_def by force
qed

lemma fresh_key_unfold:
  "fresh_key Now (i, f) =
     (if is_key_file f then
        (case Data f of
           Encoded key \<Rightarrow> if Now i < Deadline key then [key] else []
         | Unreadable err \<Rightarrow> []
         | Undecodable err \<Rightarrow> [])
      else [])"
  unfolding fresh_key_def Before_def fst_conv snd_conv ..

lemma fresh_key_member:
  "key \<in> set (fresh_key Now (i, f))
     \<longleftrightarrow> is_key_file f \<and> Data f = Encoded key \<and> Now i < Deadline key"
proof (cases "is_key_file f")
  case False
  then show ?thesis
    unfolding fresh_key_unfold by (simp only: if_False) simp
next
  case True
  show ?thesis
  proof (cases "Data f")
    case (Unreadable err)
    with True show ?thesis
      unfolding fresh_key_unfold by (simp only: if_True file_data.case) simp
  next
    case (Undecodable err)
    with True show ?thesis
      unfolding fresh_key_unfold by (simp only: if_True file_data.case) simp
  next
    case (Encoded k)
    have "key \<in> set (if Now i < Deadline k then [k] else [])
        \<longleftrightarrow> k = key \<and> Now i < Deadline key"
      by (cases "Now i < Deadline k") (simp_all, blast+)
    with True Encoded show ?thesis
      unfolding fresh_key_unfold by (simp only: if_True file_data.case file_data.inject simp_thms)
  qed
qed

lemma fresh_keys_set:
  "key \<in> set (concat (map (fresh_key Now) (enumerate 0 xs)))
     \<longleftrightarrow> (\<exists>i<length xs. is_key_file (xs ! i) \<and> Data (xs ! i) = Encoded key
            \<and> Now i < Deadline key)"
proof -
  have "key \<in> set (concat (map (fresh_key Now) (enumerate 0 xs)))
      \<longleftrightarrow> (\<exists>p \<in> set (enumerate 0 xs). key \<in> set (fresh_key Now p))"
    by auto
  also have "\<dots> \<longleftrightarrow> (\<exists>i<length xs. key \<in> set (fresh_key Now (i, xs ! i)))"
    by (auto simp: in_set_enumerate_eq)
  finally show ?thesis
    by (simp only: fresh_key_member)
qed

section \<open>Building the agent keyring\<close>

lemma added_keys_loop_step:
  assumes "added_key_of lib key = Some a"
  shows "added_keys_loop wrap lib acc (key # rest) = added_keys_loop wrap lib (acc @ [a]) rest"
  using assms
  by (auto simp: added_key_of_def split: sum.splits PublicKey.splits)

lemma added_keys_loop_stop:
  assumes "added_key_of lib key = None"
  shows "added_keys_loop wrap lib acc (key # rest) = None
     \<or> (\<exists>err. added_keys_loop wrap lib acc (key # rest) = Some ([], wrap (Some err)))"
  using assms
  by (auto simp: added_key_of_def split: sum.splits PublicKey.splits)

lemma added_keys_loop_success:
  assumes "\<forall>key \<in> set keys. added_key_of lib key \<noteq> None"
  shows "added_keys_loop wrap lib acc keys
     = Some (acc @ map (\<lambda>key. the (added_key_of lib key)) keys, None)"
  using assms
proof (induction keys arbitrary: acc)
  case Nil
  then show ?case by simp
next
  case (Cons key rest)
  then obtain a where a: "added_key_of lib key = Some a" by auto
  from Cons.prems have "\<forall>key \<in> set rest. added_key_of lib key \<noteq> None" by simp
  from Cons.IH [OF this, of "acc @ [a]"] a show ?case
    by (simp only: added_keys_loop_step [OF a]) simp
qed

lemma added_keys_loop_built:
  assumes sane: "\<And>e. wrap (Some e) \<noteq> None"
    and "added_keys_loop wrap lib acc keys = Some (added, None)"
  shows "\<exists>new. added = acc @ new \<and> map (added_key_of lib) keys = map Some new"
  using assms(2)
proof (induction keys arbitrary: acc)
  case Nil
  then show ?case by simp
next
  case (Cons key rest)
  show ?case
  proof (cases "added_key_of lib key")
    case None
    from added_keys_loop_stop [OF None, of wrap acc rest] show ?thesis
    proof (elim disjE exE)
      assume "added_keys_loop wrap lib acc (key # rest) = None"
      with Cons.prems show ?thesis by simp
    next
      fix err
      assume "added_keys_loop wrap lib acc (key # rest) = Some ([], wrap (Some err))"
      with Cons.prems have "wrap (Some err) = None" by simp
      with sane [of err] show ?thesis by simp
    qed
  next
    case (Some a)
    from Cons.prems have "added_keys_loop wrap lib (acc @ [a]) rest = Some (added, None)"
      by (simp only: added_keys_loop_step [OF Some])
    from Cons.IH [OF this] obtain new where
      "added = (acc @ [a]) @ new" "map (added_key_of lib) rest = map Some new"
      by blast
    with Some have "added = acc @ (a # new) \<and> map (added_key_of lib) (key # rest) = map Some (a # new)"
      by simp
    then show ?thesis by blast
  qed
qed

lemma keyring_add_all_success:
  assumes "\<forall>key \<in> set keys. keyring_Add lib key = None"
  shows "keyring_add_all wrap lib keyring keys = (Some (keyring @ keys), None)"
  using assms by (induction keys arbitrary: keyring) simp_all

lemma keyring_add_all_built:
  assumes "keyring_add_all wrap lib keyring keys = (Some result, err)"
  shows "result = keyring @ keys"
  using assms
proof (induction keys arbitrary: keyring)
  case Nil
  then show ?case by simp
next
  case (Cons key keys)
  show ?case
  proof (cases "keyring_Add lib key")
    case None
    with Cons.prems have "keyring_add_all wrap lib (keyring @ [key]) keys = (Some result, err)"
      by simp
    from Cons.IH [OF this] show ?thesis by simp
  next
    case (Some e)
    with Cons.prems show ?thesis by simp
  qed
qed

lemma initKeysDir_ok:
  assumes sane: "\<And>e. wrap (Some e) \<noteq> None"
    and "initKeysDir wrap dir = (dir1, None)"
  shows "(stat dir = Exists \<and> dir1 = dir)
     \<or> (stat dir = NotExist \<and> dir1 = dir\<lparr>stat := Exists, entries := []\<rparr>)"
proof (cases "stat dir")
  case Exists
  with assms(2) show ?thesis by (simp add: initKeysDir_def)
next
  case NotExist
  show ?thesis
  proof (cases "mkdir_error dir")
    case None
    with NotExist assms(2) show ?thesis by (auto simp: initKeysDir_def)
  next
    case (Some err)
    with NotExist assms(2) have "wrap (Some err) = None" by (simp add: initKeysDir_def)
    with sane [of err] show ?thesis by simp
  qed
next
  case (StatFailed err)
  with assms(2) have "wrap (Some err) = None" by (simp add: initKeysDir_def)
  with sane [of err] show ?thesis by simp
qed

lemma GetLocalAgent_success:
  assumes sane: "\<And>e. wrap (Some e) \<noteq> None"
    and run: "fst (GetLocalAgent wrap lib Now dir) = Some (Some keyring, err)"
  obtains existingKeys where
    "snd (initKeysDir wrap dir) = None"
    "fst (loadAllKeys wrap Now (fst (initKeysDir wrap dir))) = (existingKeys, None)"
    "map (added_key_of lib) existingKeys = map Some keyring"
proof -
  obtain dir1 e1 where init: "initKeysDir wrap dir = (dir1, e1)"
    by (cases "initKeysDir wrap dir")
  obtain existingKeys e2 dir2 where load: "loadAllKeys wrap Now dir1 = ((existingKeys, e2), dir2)"
    by (cases "loadAllKeys wrap Now dir1") auto
  have e1: "e1 = None"
  proof (rule ccontr)
    assume "e1 \<noteq> None"
    then obtain x where "e1 = Some x" by auto
    with init run sane [of x] show False
      by (auto simp: GetLocalAgent_def GetLocalAgentKeys_def split: option.splits)
  qed
  have e2: "e2 = None"
  proof (rule ccontr)
    assume "e2 \<noteq> None"
    then obtain x where "e2 = Some x" by auto
    with init e1 load run sane [of x] show False
      by (auto simp: GetLocalAgent_def GetLocalAgentKeys_def split: option.splits)
  qed
  from init e1 load e2 have keys: "GetLocalAgentKeys wrap lib Now dir
      = (added_keys_loop wrap lib [] existingKeys, dir2)"
    by (simp add: GetLocalAgentKeys_def)
  obtain added where added: "added_keys_loop wrap lib [] existingKeys = Some (added, None)"
    and ring: "keyring_add_all wrap lib [] added = (Some keyring, err)"
  proof (cases "added_keys_loop wrap lib [] existingKeys")
    case None
    with keys run show ?thesis by (simp add: GetLocalAgent_def)
  next
    case (Some r)
    obtain added e3 where r: "r = (added, e3)" by (cases r)
    show ?thesis
    proof (cases e3)
      case None
      with Some r keys run that show ?thesis
        by (simp add: GetLocalAgent_def)
    next
      case (Some x)
      with \<open>added_keys_loop wrap lib [] existingKeys = Some r\<close> r keys run sane [of x]
      show ?thesis
        by (auto simp: GetLocalAgent_def)
    qed
  qed
  from keyring_add_all_built [OF ring] have "keyring = added" by simp
  moreover from added_keys_loop_built [OF sane added]
  have "map (added_key_of lib) existingKeys = map Some added" by simp
  ultimately have "map (added_key_of lib) existingKeys = map Some keyring" by simp
  with init e1 load e2 that show ?thesis by simp
qed

lemma loadAllKeys_listed:
  assumes sane: "\<And>e. wrap (Some e) \<noteq> None"
    and "snd (fst (loadAllKeys wrap Now dir)) = None"
  shows "readdir_error dir = None"
proof (cases "readdir_error dir")
  case None
  then show ?thesis .
next
  case (Some err)
  with assms(2) have "wrap (Some err) = None" by (simp add: loadAllKeys_def)
  with sane [of err] show ?thesis by simp
qed

lemma expired_not_fresh:
  assumes "expired_entry Now (i, f)"
  shows "fresh_key Now (i, f) = []"
  using assms
  by (cases "Data f") (simp_all add: expired_entry_def fresh_key_def)

lemma corrupt_not_expired:
  assumes "corrupt_entry f"
  shows "\<not> expired_entry Now (i, f)" and "fresh_key Now (i, f) = []"
  using assms
  by (cases "Data f"; simp add: corrupt_entry_def expired_entry_def fresh_key_def)+

section \<open>Expired keys are pruned when the keys are loaded\<close>

text \<open>
  Claim C2 (amended).  For every invocation of \<open>loadAllKeys\<close> in which the directory
  is listed (entries have distinct names, and \<^verbatim>\<open>trace.Wrap\<close> of an error is an error):
  every returned key comes from a key file that decodes to it and whose deadline is
  strictly after the clock reading taken for that file, hence strictly after any time
  that no reading precedes; a key file whose deadline is not after the reading taken for
  it contributes no key to the returned list, and it is removed from disk when
  \<^verbatim>\<open>os.Remove\<close> succeeds on it; the returned list is exactly the keys of the other key
  files that decode, in directory order.  Every key in a keyring that \<open>GetLocalAgent\<close>
  returns is built from such a returned key.
\<close>

theorem loadAllKeys_prunes_expired:
  assumes sane: "\<forall>e. wrap (Some e) \<noteq> None"
    and names: "distinct (map DirEntry.Name (entries dir))"
  shows "(readdir_error dir = None \<longrightarrow>
       (\<forall>key \<in> set (fst (fst (loadAllKeys wrap Now dir))).
          \<exists>i<length (entries dir). is_key_file (entries dir ! i)
             \<and> Data (entries dir ! i) = Encoded key \<and> Now i < Deadline key)
       \<and> (\<forall>t0. (\<forall>i. t0 \<le> Now i) \<longrightarrow>
            (\<forall>key \<in> set (fst (fst (loadAllKeys wrap Now dir))). t0 < Deadline key))
       \<and> (\<forall>i<length (entries dir). expired_entry Now (i, entries dir ! i) \<longrightarrow>
            fresh_key Now (i, entries dir ! i) = []
            \<and> (remove_error (entries dir ! i) = None \<longrightarrow>
                 DirEntry.Name (entries dir ! i)
                   \<notin> DirEntry.Name ` set (entries (snd (loadAllKeys wrap Now dir)))))
       \<and> fst (fst (loadAllKeys wrap Now dir))
           = concat (map (fresh_key Now) (enumerate 0 (entries dir))))
     \<and> (\<forall>keyring err. fst (GetLocalAgent wrap lib Now dir) = Some (Some keyring, err) \<longrightarrow>
          (\<forall>a \<in> set keyring. \<exists>key. added_key_of lib key = Some a
             \<and> (\<exists>i<length (entries dir). is_key_file (entries dir ! i)
                   \<and> Data (entries dir ! i) = Encoded key \<and> Now i < Deadline key)))"
proof (intro conjI impI allI)
  from sane have sane': "\<And>e. wrap (Some e) \<noteq> None" by blast
  {
    assume listed: "readdir_error dir = None"
    note result = loadAllKeys_result [where wrap = wrap and Now = Now, OF sane' names listed]
    have keys: "fst (fst (loadAllKeys wrap Now dir))
        = concat (map (fresh_key Now) (enumerate 0 (entries dir)))"
      by (simp add: result)
    show "fst (fst (loadAllKeys wrap Now dir))
        = concat (map (fresh_key Now) (enumerate 0 (entries dir)))"
      by (rule keys)
    show "\<forall>key \<in> set (fst (fst (loadAllKeys wrap Now dir))).
          \<exists>i<length (entries dir). is_key_file (entries dir ! i)
             \<and> Data (entries dir ! i) = Encoded key \<and> Now i < Deadline key"
      unfolding keys using fresh_keys_set [of _ Now "entries dir"] by blast
    {
      fix t0 assume early: "\<forall>i. t0 \<le> Now i"
      show "\<forall>key \<in> set (fst (fst (loadAllKeys wrap Now dir))). t0 < Deadline key"
      proof
        fix key assume "key \<in> set (fst (fst (loadAllKeys wrap Now dir)))"
        then obtain i where "Now i < Deadline key"
          unfolding keys using fresh_keys_set [of key Now "entries dir"] by blast
        moreover from early have "t0 \<le> Now i" by blast
        ultimately show "t0 < Deadline key" by (rule le_less_trans [rotated])
      qed
    }
    {
      fix i assume i: "i < length (entries dir)"
        and old: "expired_entry Now (i, entries dir ! i)"
      show "fresh_key Now (i, entries dir ! i) = []"
        using old by (rule expired_not_fresh)
      {
        assume "remove_error (entries dir ! i) = None"
        with old have "DirEntry.Name (entries dir ! i) \<in> removed_names Now 0 (entries dir)"
          using removed_names_iff [OF names i, of Now] by blast
        then show "DirEntry.Name (entries dir ! i)
                   \<notin> DirEntry.Name ` set (entries (snd (loadAllKeys wrap Now dir)))"
          by (auto simp: result)
      }
    }
  }
  {
    fix keyring err
    assume run: "fst (GetLocalAgent wrap lib Now dir) = Some (Some keyring, err)"
    show "\<forall>a \<in> set keyring. \<exists>key. added_key_of lib key = Some a
             \<and> (\<exists>i<length (entries dir). is_key_file (entries dir ! i)
                   \<and> Data (entries dir ! i) = Encoded key \<and> Now i < Deadline key)"
    proof
    fix a assume a: "a \<in> set keyring"
    from GetLocalAgent_success [OF sane' run] obtain existingKeys where
      init: "snd (initKeysDir wrap dir) = None"
      and load: "fst (loadAllKeys wrap Now (fst (initKeysDir wrap dir))) = (existingKeys, None)"
      and built: "map (added_key_of lib) existingKeys = map Some keyring"
      by blast
    from a built obtain key where key: "key \<in> set existingKeys" "added_key_of lib key = Some a"
      by (metis (no_types, lifting) image_iff list.set_map)
    from init have "initKeysDir wrap dir = (fst (initKeysDir wrap dir), None)"
      by (metis prod.collapse)
    from initKeysDir_ok [OF sane' this]
    have "\<exists>i<length (entries dir). is_key_file (entries dir ! i)
                   \<and> Data (entries dir ! i) = Encoded key \<and> Now i < Deadline key"
    proof (elim disjE conjE)
      assume same: "fst (initKeysDir wrap dir) = dir"
      from load have "snd (fst (loadAllKeys wrap Now dir)) = None"
        by (simp add: same)
      from loadAllKeys_listed [OF sane' this] have listed: "readdir_error dir = None" .
      from load key(1) have "key \<in> set (concat (map (fresh_key Now) (enumerate 0 (entries dir))))"
        by (simp add: same loadAllKeys_result [where wrap = wrap and Now = Now,
              OF sane' names listed])
      then show ?thesis
        by (simp only: fresh_keys_set)
    next
      assume made: "fst (initKeysDir wrap dir) = dir\<lparr>stat := Exists, entries := []\<rparr>"
      from load have "snd (fst (loadAllKeys wrap Now (dir\<lparr>stat := Exists, entries := []\<rparr>))) = None"
        by (simp add: made)
      from loadAllKeys_listed [OF sane' this]
      have "readdir_error (dir\<lparr>stat := Exists, entries := []\<rparr>) = None" .
      with load key(1) show ?thesis
        by (simp add: made loadAllKeys_def)
    qed
    with key(2) show "\<exists>key. added_key_of lib key = Some a
             \<and> (\<exists>i<length (entries dir). is_key_file (entries dir ! i)
                   \<and> Data (entries dir ! i) = Encoded key \<and> Now i < Deadline key)"
      by blast
    qed
  }
qed

lemma KeysDir_example_names: "distinct (map DirEntry.Name (entries KeysDir_example))"
  by code_simp

lemma KeysDir_example_fresh:
  "concat (map (fresh_key Now_200) (enumerate 0 (entries KeysDir_example)))
     = [\<lparr>Priv = [9], Cert = [1, 9], Deadline = 900\<rparr>]"
  by code_simp

theorem loadAllKeys_prunes_expired_witness:
  "fst (fst (loadAllKeys Wrap_transparent Now_200 KeysDir_example))
     = [\<lparr>Priv = [9], Cert = [1, 9], Deadline = 900\<rparr>]
   \<and> Now_200 5 < Deadline \<lparr>Priv = [9], Cert = [1, 9], Deadline = 900\<rparr>
   \<and> ''teleport_c.tkey''
       \<notin> DirEntry.Name ` set (entries (snd (loadAllKeys Wrap_transparent Now_200 KeysDir_example)))
   \<and> fst (GetLocalAgent Wrap_transparent SSHLib_plain Now_200 KeysDir_example)
       = Some (Some [\<lparr>PrivateKey = [9],
                       Certificate = ssh_Certificate (PlainKey [9]) (PlainKey [1, 2, 3]),
                       Comment = [], LifetimeSecs = 0, ConfirmBeforeUse = False\<rparr>], None)"
proof -
  note inst = loadAllKeys_prunes_expired [where wrap = Wrap_transparent and Now = Now_200
      and dir = KeysDir_example and lib = SSHLib_plain,
      OF Wrap_transparent_sane KeysDir_example_names]
  have listed: "readdir_error KeysDir_example = None"
    by code_simp
  note loaded = inst [THEN conjunct1, rule_format, OF listed]
  have keys: "fst (fst (loadAllKeys Wrap_transparent Now_200 KeysDir_example))
      = [\<lparr>Priv = [9], Cert = [1, 9], Deadline = 900\<rparr>]"
    using loaded [THEN conjunct2, THEN conjunct2, THEN conjunct2]
    by (simp only: KeysDir_example_fresh)
  have later: "Now_200 5 < Deadline \<lparr>Priv = [9], Cert = [1, 9], Deadline = 900\<rparr>"
    by code_simp
  have position: "4 < length (entries KeysDir_example)"
    by code_simp
  have old: "expired_entry Now_200 (4, entries KeysDir_example ! 4)"
    by code_simp
  have removable: "remove_error (entries KeysDir_example ! 4) = None"
    by code_simp
  have name: "DirEntry.Name (entries KeysDir_example ! 4) = ''teleport_c.tkey''"
    by code_simp
  have gone: "''teleport_c.tkey''
       \<notin> DirEntry.Name ` set (entries (snd (loadAllKeys Wrap_transparent Now_200 KeysDir_example)))"
    using loaded [THEN conjunct2, THEN conjunct2, THEN conjunct1, rule_format, OF position old,
        THEN conjunct2, rule_format, OF removable]
    unfolding name .
  have agent: "fst (GetLocalAgent Wrap_transparent SSHLib_plain Now_200 KeysDir_example)
       = Some (Some [\<lparr>PrivateKey = [9],
                       Certificate = ssh_Certificate (PlainKey [9]) (PlainKey [1, 2, 3]),
                       Comment = [], LifetimeSecs = 0, ConfirmBeforeUse = False\<rparr>], None)"
    by code_simp
  from keys later gone agent show ?thesis by (intro conjI)
qed

text \<open>
  Claim C2 as stated fails when \<^verbatim>\<open>os.Remove\<close> fails.  The key file \<^verbatim>\<open>teleport_b.tkey\<close>
  holds a key whose deadline, 100, is not after the clock reading 200, and removing it
  is not permitted: after \<open>loadAllKeys\<close> it is still in the directory.
\<close>

theorem loadAllKeys_prunes_counterexample:
  "readdir_error KeysDir_example = None
   \<and> is_key_file (entries KeysDir_example ! 3)
   \<and> Data (entries KeysDir_example ! 3) = Encoded \<lparr>Priv = [7], Cert = [1, 7], Deadline = 100\<rparr>
   \<and> Now_200 3 = 200
   \<and> \<not> Before (Now_200 3) (Deadline \<lparr>Priv = [7], Cert = [1, 7], Deadline = 100\<rparr>)
   \<and> entries KeysDir_example ! 3
       \<in> set (entries (snd (loadAllKeys Wrap_transparent Now_200 KeysDir_example)))"
  by code_simp

section \<open>A corrupt key file is skipped\<close>

text \<open>
  Claim C9.  When the directory is listed (entries have distinct names, and
  \<^verbatim>\<open>trace.Wrap\<close> of an error is an error), \<open>loadAllKeys\<close> returns a nil error; every key
  file that cannot be read or decoded contributes no key and is still on disk
  afterwards; every key file that decodes to a key whose deadline is after the clock
  reading taken for it has its key in the returned list, which is exactly the list of
  those keys in directory order, whatever corrupt files stand between them; and when
  the directory exists and each of those keys parses and is accepted by the keyring,
  \<open>GetLocalAgent\<close> returns the keyring built from them and a nil error, so a corrupt key
  file does not make the agent construction fail.
\<close>

theorem loadAllKeys_skips_corrupt:
  assumes sane: "\<forall>e. wrap (Some e) \<noteq> None"
    and names: "distinct (map DirEntry.Name (entries dir))"
    and listed: "readdir_error dir = None"
  shows "snd (fst (loadAllKeys wrap Now dir)) = None
     \<and> (\<forall>i<length (entries dir). corrupt_entry (entries dir ! i) \<longrightarrow>
           fresh_key Now (i, entries dir ! i) = []
           \<and> entries dir ! i \<in> set (entries (snd (loadAllKeys wrap Now dir))))
     \<and> (\<forall>i<length (entries dir). \<forall>key.
           is_key_file (entries dir ! i) \<and> Data (entries dir ! i) = Encoded key
             \<and> Now i < Deadline key
           \<longrightarrow> key \<in> set (fst (fst (loadAllKeys wrap Now dir))))
     \<and> fst (fst (loadAllKeys wrap Now dir))
         = concat (map (fresh_key Now) (enumerate 0 (entries dir)))
     \<and> (stat dir = Exists
         \<and> (\<forall>key \<in> set (concat (map (fresh_key Now) (enumerate 0 (entries dir)))).
               \<exists>a. added_key_of lib key = Some a \<and> keyring_Add lib a = None)
         \<longrightarrow> fst (GetLocalAgent wrap lib Now dir)
             = Some (Some (map (\<lambda>key. the (added_key_of lib key))
                             (concat (map (fresh_key Now) (enumerate 0 (entries dir))))), None))"
proof -
  from sane have sane': "\<And>e. wrap (Some e) \<noteq> None" by blast
  note result = loadAllKeys_result [where wrap = wrap and Now = Now, OF sane' names listed]
  have keys: "fst (fst (loadAllKeys wrap Now dir))
      = concat (map (fresh_key Now) (enumerate 0 (entries dir)))"
    by (simp add: result)
  have no_error: "snd (fst (loadAllKeys wrap Now dir)) = None"
    by (simp add: result)
  have corrupt: "fresh_key Now (i, entries dir ! i) = []
           \<and> entries dir ! i \<in> set (entries (snd (loadAllKeys wrap Now dir)))"
    if i: "i < length (entries dir)" and bad: "corrupt_entry (entries dir ! i)" for i
  proof -
    from bad have "\<not> expired_entry Now (i, entries dir ! i)"
      by (rule corrupt_not_expired)
    then have "DirEntry.Name (entries dir ! i) \<notin> removed_names Now 0 (entries dir)"
      using removed_names_iff [OF names i, of Now] by blast
    with i have "entries dir ! i \<in> set (entries (snd (loadAllKeys wrap Now dir)))"
      by (simp add: result)
    with corrupt_not_expired(2) [OF bad] show ?thesis by blast
  qed
  have returned: "key \<in> set (fst (fst (loadAllKeys wrap Now dir)))"
    if "i < length (entries dir)"
      and "is_key_file (entries dir ! i) \<and> Data (entries dir ! i) = Encoded key
             \<and> Now i < Deadline key" for i key
    unfolding keys using that fresh_keys_set [of key Now "entries dir"] by blast
  have agent: "fst (GetLocalAgent wrap lib Now dir)
             = Some (Some (map (\<lambda>key. the (added_key_of lib key))
                             (concat (map (fresh_key Now) (enumerate 0 (entries dir))))), None)"
    if there: "stat dir = Exists"
      and usable: "\<forall>key \<in> set (concat (map (fresh_key Now) (enumerate 0 (entries dir)))).
               \<exists>a. added_key_of lib key = Some a \<and> keyring_Add lib a = None"
  proof -
    let ?keys = "concat (map (fresh_key Now) (enumerate 0 (entries dir)))"
    from usable have parse: "\<forall>key \<in> set ?keys. added_key_of lib key \<noteq> None"
      by auto
    have accept: "\<forall>a \<in> set (map (\<lambda>key. the (added_key_of lib key)) ?keys).
        keyring_Add lib a = None"
    proof
      fix a assume "a \<in> set (map (\<lambda>key. the (added_key_of lib key)) ?keys)"
      then obtain key where key: "key \<in> set ?keys" "a = the (added_key_of lib key)"
        by auto
      from usable key(1) obtain a' where "added_key_of lib key = Some a'" "keyring_Add lib a' = None"
        by blast
      with key(2) show "keyring_Add lib a = None" by simp
    qed
    have "GetLocalAgentKeys wrap lib Now dir
        = (Some (map (\<lambda>key. the (added_key_of lib key)) ?keys, None), snd (loadAllKeys wrap Now dir))"
      using added_keys_loop_success [OF parse, of wrap "[]"] there
      by (simp add: GetLocalAgentKeys_def initKeysDir_def result)
    then show ?thesis
      using keyring_add_all_success [OF accept, of wrap "[]"]
      by (simp add: GetLocalAgent_def)
  qed
  from no_error corrupt returned keys agent show ?thesis
    by blast
qed

theorem loadAllKeys_skips_corrupt_witness:
  "corrupt_entry (entries KeysDir_example ! 2)
   \<and> loadAllKeys Wrap_transparent Now_200 KeysDir_example
       = (([\<lparr>Priv = [9], Cert = [1, 9], Deadline = 900\<rparr>], None),
          KeysDir_example\<lparr>entries := [entries KeysDir_example ! 0, entries KeysDir_example ! 1,
             entries KeysDir_example ! 2, entries KeysDir_example ! 3,
             entries KeysDir_example ! 5]\<rparr>)
   \<and> fst (GetLocalAgent Wrap_transparent SSHLib_plain Now_200 KeysDir_example)
       = Some (Some [\<lparr>PrivateKey = [9],
                       Certificate = ssh_Certificate (PlainKey [9]) (PlainKey [1, 2, 3]),
                       Comment = [], LifetimeSecs = 0, ConfirmBeforeUse = False\<rparr>], None)"
proof -
  have listed: "readdir_error KeysDir_example = None"
    by code_simp
  note inst = loadAllKeys_skips_corrupt [where wrap = Wrap_transparent and Now = Now_200
      and dir = KeysDir_example and lib = SSHLib_plain,
      OF Wrap_transparent_sane KeysDir_example_names listed]
  have bad: "corrupt_entry (entries KeysDir_example ! 2)"
    by code_simp
  have run: "loadAllKeys Wrap_transparent Now_200 KeysDir_example
       = (([\<lparr>Priv = [9], Cert = [1, 9], Deadline = 900\<rparr>], None),
          KeysDir_example\<lparr>entries := [entries KeysDir_example ! 0, entries KeysDir_example ! 1,
             entries KeysDir_example ! 2, entries KeysDir_example ! 3,
             entries KeysDir_example ! 5]\<rparr>)"
    by code_simp
  have usable: "stat KeysDir_example = Exists
      \<and> (\<forall>key \<in> set (concat (map (fresh_key Now_200) (enumerate 0 (entries KeysDir_example)))).
               \<exists>a. added_key_of SSHLib_plain key = Some a \<and> keyring_Add SSHLib_plain a = None)"
    unfolding KeysDir_example_fresh
    by (simp add: KeysDir_example_def added_key_of_def SSHLib_plain_def)
  have built: "map (\<lambda>key. the (added_key_of SSHLib_plain key))
        [\<lparr>Priv = [9], Cert = [1, 9], Deadline = 900\<rparr>]
      = [\<lparr>PrivateKey = [9], Certificate = ssh_Certificate (PlainKey [9]) (PlainKey [1, 2, 3]),
          Comment = [], LifetimeSecs = 0, ConfirmBeforeUse = False\<rparr>]"
    by (simp add: added_key_of_def SSHLib_plain_def)
  from inst [THEN conjunct2, THEN conjunct2, THEN conjunct2, THEN conjunct2, rule_format, OF usable]
  have agent: "fst (GetLocalAgent Wrap_transparent SSHLib_plain Now_200 KeysDir_example)
       = Some (Some [\<lparr>PrivateKey = [9],
                       Certificate = ssh_Certificate (PlainKey [9]) (PlainKey [1, 2, 3]),
                       Comment = [], LifetimeSecs = 0, ConfirmBeforeUse = False\<rparr>], None)"
    by (simp only: KeysDir_example_fresh built)
  from bad run agent show ?thesis by (intro conjI)
qed

end
